(* ===== verification/Prelude.thy ===== *)
theory Prelude
  imports "HOL-Library.Word" "HOL-Library.Monad_Syntax"
begin

text \<open>
  Shared vocabulary of the development: the machine types of the C code, little-endian byte
  memory with bounds-checked access, and the generic lemmas every component uses.

  Memory is a list of bytes. A load or store whose bytes are not all inside the list is undefined
  behaviour in C; here it is the value \<open>None\<close>. A \<open>NULL\<close> buffer is the empty list, so that any
  access through it is \<open>None\<close> as well. A little-endian 32-bit value (\<open>__le32\<close>) is represented by
  the number its bytes denote, which makes \<open>cpu_to_le32\<close> and \<open>le32_to_cpu\<close> the identity on either
  byte order.
\<close>

unbundle bit_operations_syntax

type_synonym u8 = "8 word"
type_synonym u16 = "16 word"
type_synonym u32 = "32 word"
type_synonym u64 = "64 word"

named_theorems ub_simps \<open>bounds-checked accesses that succeed\<close>
named_theorems frame \<open>what an operation leaves alone\<close>

section \<open>Little-endian bytes\<close>

fun le_val :: "u8 list \<Rightarrow> u32" where
  "le_val [] = 0"
| "le_val (b # bs) = ucast b OR push_bit 8 (le_val bs)"

definition le_bytes :: "nat \<Rightarrow> u32 \<Rightarrow> u8 list" where
  "le_bytes n v = map (\<lambda>i. ucast (drop_bit (8 * i) v)) [0..<n]"

text \<open>\<open>memcpy\<close> of \<open>n\<close> bytes out of, and into, a buffer.\<close>

definition load :: "u8 list \<Rightarrow> nat \<Rightarrow> nat \<Rightarrow> u32 option" where
  "load bs p n = (if p + n \<le> length bs then Some (le_val (take n (drop p bs))) else None)"

definition store :: "u8 list \<Rightarrow> nat \<Rightarrow> nat \<Rightarrow> u32 \<Rightarrow> u8 list option" where
  "store bs p n v =
     (if p + n \<le> length bs then Some (take p bs @ le_bytes n v @ drop (p + n) bs) else None)"

text \<open>\<open>memset\<close>.\<close>

definition fill :: "u8 list \<Rightarrow> nat \<Rightarrow> nat \<Rightarrow> u8 \<Rightarrow> u8 list option" where
  "fill bs p n b =
     (if p + n \<le> length bs then Some (take p bs @ replicate n b @ drop (p + n) bs) else None)"

text \<open>\<open>memcpy(&v, src, n)\<close>: the low \<open>n\<close> bytes of \<open>v\<close> are replaced by those of \<open>w\<close>.\<close>

definition low_mask :: "nat \<Rightarrow> u32" where
  "low_mask n = mask (8 * n)"

definition copy_low :: "u32 \<Rightarrow> nat \<Rightarrow> u32 \<Rightarrow> u32" where
  "copy_low v n w = (v AND NOT (low_mask n)) OR (w AND low_mask n)"

text \<open>An element of an array, with its bounds check.\<close>

definition nth_opt :: "'a list \<Rightarrow> nat \<Rightarrow> 'a option" where
  "nth_opt bs i = (if i < length bs then Some (bs ! i) else None)"

section \<open>Bits of bytes\<close>

lemma bit_le_val:
  "bit (le_val bs) i \<longleftrightarrow> i < 32 \<and> i div 8 < length bs \<and> bit (bs ! (i div 8)) (i mod 8)"
proof (induction bs arbitrary: i)
  case Nil
  show ?case by simp
next
  case (Cons b bs)
  show ?case
  proof (cases "i < 8")
    case True
    then show ?thesis
      by (auto simp: bit_or_iff bit_push_bit_iff bit_ucast_iff)
  next
    case False
    then have "i div 8 = Suc ((i - 8) div 8)" and "i mod 8 = (i - 8) mod 8"
      by (simp_all add: le_div_geq le_mod_geq)
    with False show ?thesis
      by (auto simp: bit_or_iff bit_push_bit_iff bit_ucast_iff Cons.IH dest: bit_imp_le_length)
  qed
qed

lemma length_le_bytes [simp]: "length (le_bytes n v) = n"
  by (simp add: le_bytes_def)

lemma nth_le_bytes: "i < n \<Longrightarrow> le_bytes n v ! i = ucast (drop_bit (8 * i) v)"
  by (simp add: le_bytes_def)

lemma bit_nth_le_bytes:
  "i < n \<Longrightarrow> bit (le_bytes n v ! i) j \<longleftrightarrow> j < 8 \<and> bit v (8 * i + j)"
  by (auto simp: nth_le_bytes bit_ucast_iff bit_drop_bit_eq dest: bit_imp_le_length)

lemma bit_low_mask [simp]: "bit (low_mask n) i \<longleftrightarrow> i < 32 \<and> i < 8 * n"
  by (auto simp: low_mask_def bit_mask_iff)

lemma le_val_le_bytes: "le_val (le_bytes n v) = v AND low_mask n"
proof (rule bit_word_eqI)
  fix i assume "i < LENGTH(32)"
  then show "bit (le_val (le_bytes n v)) i = bit (v AND low_mask n) i"
    by (auto simp: bit_le_val bit_nth_le_bytes bit_and_iff div_less_iff_less_mult
        less_mult_imp_div_less mult.commute)
qed

lemma le_bytes_le_val:
  assumes "length bs = n" "n \<le> 4"
  shows "le_bytes n (le_val bs) = bs"
proof (rule nth_equalityI)
  show "length (le_bytes n (le_val bs)) = length bs" using assms by simp
next
  fix i assume "i < length (le_bytes n (le_val bs))"
  with assms show "le_bytes n (le_val bs) ! i = bs ! i"
    by (intro bit_word_eqI) (auto simp: bit_nth_le_bytes bit_le_val)
qed


section \<open>Loads and stores\<close>

lemma le_val_less: "n \<le> 4 \<Longrightarrow> length bs \<le> n \<Longrightarrow> le_val bs AND low_mask n = le_val bs"
  by (rule bit_word_eqI) (auto simp: bit_and_iff bit_le_val)

lemma load_in [ub_simps]: "p + n \<le> length bs \<Longrightarrow> load bs p n = Some (le_val (take n (drop p bs)))"
  by (simp add: load_def)

lemma load_None [simp]: "load bs p n = None \<longleftrightarrow> length bs < p + n"
  by (auto simp: load_def)

lemma load_ex: "p + n \<le> length bs \<Longrightarrow> \<exists>v. load bs p n = Some v"
  by (simp add: load_in)

lemma load_Some_bound: "load bs p n = Some v \<Longrightarrow> p + n \<le> length bs"
  by (auto simp: load_def split: if_splits)

lemma div8_less: "j div 8 < n \<longleftrightarrow> j < 8 * (n::nat)"
  by (simp add: div_less_iff_less_mult mult.commute)

lemma bit_load:
  assumes "load bs p n = Some v"
  shows "bit v j \<longleftrightarrow> j < 32 \<and> j < 8 * n \<and> bit (bs ! (p + j div 8)) (j mod 8)"
proof -
  from assms have len: "p + n \<le> length bs" and v: "v = le_val (take n (drop p bs))"
    by (simp_all add: load_def split: if_splits)
  then have "length (take n (drop p bs)) = n" by simp
  then show ?thesis using len unfolding v bit_le_val by (auto simp: div8_less)
qed

lemma load_masked: "load bs p n = Some v \<Longrightarrow> v AND low_mask n = v"
  by (rule bit_word_eqI) (auto simp: bit_and_iff bit_load)

lemma store_in [ub_simps]:
  "p + n \<le> length bs \<Longrightarrow> store bs p n v = Some (take p bs @ le_bytes n v @ drop (p + n) bs)"
  by (simp add: store_def)

lemma store_None [simp]: "store bs p n v = None \<longleftrightarrow> length bs < p + n"
  by (auto simp: store_def)

lemma store_ex: "p + n \<le> length bs \<Longrightarrow> \<exists>bs'. store bs p n v = Some bs'"
  by (simp add: store_in)

lemma store_Some_bound: "store bs p n v = Some bs' \<Longrightarrow> p + n \<le> length bs"
  by (auto simp: store_def split: if_splits)

lemma length_store: "store bs p n v = Some bs' \<Longrightarrow> length bs' = length bs"
  by (auto simp: store_def split: if_splits)

lemma nth_store:
  "store bs p n v = Some bs' \<Longrightarrow> i < length bs \<Longrightarrow>
     bs' ! i = (if p \<le> i \<and> i < p + n then le_bytes n v ! (i - p) else bs ! i)"
  by (auto simp: store_def nth_append split: if_splits)

lemma nth_store_outside:
  "store bs p n v = Some bs' \<Longrightarrow> i < p \<or> p + n \<le> i \<Longrightarrow> i < length bs \<Longrightarrow> bs' ! i = bs ! i"
  by (auto simp: nth_store)

lemma load_store_same:
  assumes "store bs p n v = Some bs'" "n \<le> 4"
  shows "load bs' p n = Some (v AND low_mask n)"
proof -
  have "p + n \<le> length bs" using assms(1) by (rule store_Some_bound)
  then have "take n (drop p bs') = le_bytes n v" using assms(1) by (auto simp: store_def)
  moreover have "p + n \<le> length bs'" using \<open>p + n \<le> length bs\<close> assms(1) length_store by metis
  ultimately show ?thesis by (simp add: load_in le_val_le_bytes)
qed

lemma load_store_other:
  assumes st: "store bs p n v = Some bs'" and disj: "q + m \<le> p \<or> p + n \<le> q"
  shows "load bs' q m = load bs q m"
proof (cases "q + m \<le> length bs")
  case True
  note len = length_store [OF st]
  have "take m (drop q bs') = take m (drop q bs)"
  proof (rule nth_equalityI)
    show "length (take m (drop q bs')) = length (take m (drop q bs))" by (simp add: len)
  next
    fix i assume "i < length (take m (drop q bs'))"
    with True len disj show "take m (drop q bs') ! i = take m (drop q bs) ! i"
      by (auto simp: nth_store_outside [OF st])
  qed
  with True len show ?thesis by (simp add: load_def)
next
  case False
  with length_store [OF st] show ?thesis by (simp add: load_def)
qed

lemma fill_in [ub_simps]:
  "p + n \<le> length bs \<Longrightarrow> fill bs p n b = Some (take p bs @ replicate n b @ drop (p + n) bs)"
  by (simp add: fill_def)

lemma fill_None [simp]: "fill bs p n b = None \<longleftrightarrow> length bs < p + n"
  by (auto simp: fill_def)

lemma length_fill: "fill bs p n b = Some bs' \<Longrightarrow> length bs' = length bs"
  by (auto simp: fill_def split: if_splits)

lemma nth_fill:
  "fill bs p n b = Some bs' \<Longrightarrow> i < length bs \<Longrightarrow>
     bs' ! i = (if p \<le> i \<and> i < p + n then b else bs ! i)"
  by (auto simp: fill_def nth_append split: if_splits)

lemma bit_copy_low:
  "bit (copy_low v n w) i \<longleftrightarrow> i < 32 \<and> (if i < 8 * n then bit w i else bit v i)"
  by (auto simp: copy_low_def bit_or_iff bit_and_iff bit_not_iff dest: bit_imp_le_length)

lemma copy_low_0 [simp]: "n \<le> 4 \<Longrightarrow> copy_low 0 n w = w AND low_mask n"
  by (rule bit_word_eqI) (auto simp: bit_copy_low bit_and_iff)

lemma copy_low_over [simp]: "copy_low (copy_low v n w) n x = copy_low v n x"
  by (rule bit_word_eqI) (auto simp: bit_copy_low)

lemma low_mask_4 [simp]: "x AND low_mask 4 = x"
  by (rule bit_word_eqI) (auto simp: bit_and_iff)

lemma nth_opt_in [ub_simps]: "i < length bs \<Longrightarrow> nth_opt bs i = Some (bs ! i)"
  by (simp add: nth_opt_def)

lemma nth_opt_None [simp]: "nth_opt bs i = None \<longleftrightarrow> length bs \<le> i"
  by (auto simp: nth_opt_def)

lemma nth_opt_Some: "nth_opt bs i = Some b \<longleftrightarrow> i < length bs \<and> b = bs ! i"
  by (auto simp: nth_opt_def)

lemma unat_word_of_int_small:
  "0 \<le> k \<Longrightarrow> k < 2 ^ LENGTH('a) \<Longrightarrow> unat (word_of_int k :: 'a::len word) = nat k"
  by (simp add: unat_eq_nat_uint uint_word_of_int)

section \<open>Runs of operations\<close>

text \<open>
  A sequence of operations on a state, each of which may be undefined (\<open>None\<close>). The contract
  \<open>kept_by\<close> says that every admissible operation keeps an invariant, \<open>safe_under\<close> that under the
  invariant no admissible operation is undefined. A component states its operations as one function
  \<open>step\<close> and proves the contract for a single operation; the facts about sequences are proved here
  once.
\<close>

fun run :: "('op \<Rightarrow> 's \<Rightarrow> 's option) \<Rightarrow> 'op list \<Rightarrow> 's \<Rightarrow> 's option" where
  "run step [] s = Some s"
| "run step (x # xs) s = Option.bind (step x s) (run step xs)"

locale kept_by =
  fixes step :: "'op \<Rightarrow> 's \<Rightarrow> 's option"
    and ok :: "'op \<Rightarrow> bool"
    and inv :: "'s \<Rightarrow> bool"
  assumes step_inv: "inv s \<Longrightarrow> ok x \<Longrightarrow> step x s = Some s' \<Longrightarrow> inv s'"
begin

lemma run_inv: "inv s \<Longrightarrow> list_all ok xs \<Longrightarrow> run step xs s = Some s' \<Longrightarrow> inv s'"
  by (induction xs arbitrary: s) (auto simp: bind_eq_Some_conv intro: step_inv)

end

locale safe_under = kept_by +
  assumes step_defined: "inv s \<Longrightarrow> ok x \<Longrightarrow> \<exists>s'. step x s = Some s'"
begin

lemma run_defined: "inv s \<Longrightarrow> list_all ok xs \<Longrightarrow> \<exists>s'. run step xs s = Some s' \<and> inv s'"
proof (induction xs arbitrary: s)
  case Nil
  then show ?case by simp
next
  case (Cons x xs)
  then obtain t where t: "step x s = Some t" using step_defined by (metis list.pred_inject(2))
  with Cons.prems have "inv t" by (auto intro: step_inv)
  with Cons show ?case by (simp add: t)
qed

end

text \<open>Sums of indicator values over an updated list, for counting what a list of slots holds.\<close>

lemma sum_list_update_int:
  fixes f :: "'a \<Rightarrow> int"
  shows "i < length xs \<Longrightarrow> (\<Sum>x\<leftarrow>xs[i := y]. f x) = (\<Sum>x\<leftarrow>xs. f x) - f (xs ! i) + f y"
proof (induction xs arbitrary: i)
  case Nil
  then show ?case by simp
next
  case (Cons x xs)
  then show ?case by (cases i) auto
qed

end
