(* ===== verification/PCI_Regs.thy ===== *)
theory PCI_Regs
  imports Prelude
begin

text \<open>
  Names for the numbers the driver takes from the kernel's headers: the register layout of PCI
  configuration space (\<^verbatim>\<open>uapi/linux/pci_regs.h\<close>, which restates the PCI specifications), the indices
  and flag bits of the VFIO interface (\<^verbatim>\<open>uapi/linux/vfio.h\<close>) and the error numbers. They are fixed
  numbers of a published interface, not code; the driver under \<^verbatim>\<open>src/device\<close> is written for Linux 5.0
  and the values are those of that release. Offsets are \<open>nat\<close>, masks have the width of their register.
\<close>

section \<open>Error numbers\<close>

abbreviation (input) EPERM :: int where "EPERM \<equiv> 1"
abbreviation (input) EBADF :: int where "EBADF \<equiv> 9"
abbreviation (input) EAGAIN :: int where "EAGAIN \<equiv> 11"
abbreviation (input) ENOMEM :: int where "ENOMEM \<equiv> 12"
abbreviation (input) EFAULT :: int where "EFAULT \<equiv> 14"
abbreviation (input) EBUSY :: int where "EBUSY \<equiv> 16"
abbreviation (input) EEXIST :: int where "EEXIST \<equiv> 17"
abbreviation (input) ENODEV :: int where "ENODEV \<equiv> 19"
abbreviation (input) EINVAL :: int where "EINVAL \<equiv> 22"
abbreviation (input) ENOTTY :: int where "ENOTTY \<equiv> 25"
abbreviation (input) ENOSPC :: int where "ENOSPC \<equiv> 28"

section \<open>Configuration space\<close>

abbreviation (input) PCI_CFG_SPACE_SIZE :: nat where "PCI_CFG_SPACE_SIZE \<equiv> 256"
abbreviation (input) PCI_STD_HEADER_SIZEOF :: nat where "PCI_STD_HEADER_SIZEOF \<equiv> 64"
abbreviation (input) PCI_CAP_SIZEOF :: nat where "PCI_CAP_SIZEOF \<equiv> 4"
abbreviation (input) PCI_VENDOR_ID :: nat where "PCI_VENDOR_ID \<equiv> 0"
abbreviation (input) PCI_DEVICE_ID :: nat where "PCI_DEVICE_ID \<equiv> 2"
abbreviation (input) PCI_COMMAND :: nat where "PCI_COMMAND \<equiv> 4"
abbreviation (input) PCI_COMMAND_IO :: u16 where "PCI_COMMAND_IO \<equiv> 0x1"
abbreviation (input) PCI_COMMAND_MEMORY :: u16 where "PCI_COMMAND_MEMORY \<equiv> 0x2"
abbreviation (input) PCI_COMMAND_INTX_DISABLE :: u16 where "PCI_COMMAND_INTX_DISABLE \<equiv> 0x400"
abbreviation (input) PCI_STATUS :: nat where "PCI_STATUS \<equiv> 6"
abbreviation (input) PCI_STATUS_CAP_LIST :: u16 where "PCI_STATUS_CAP_LIST \<equiv> 0x10"
abbreviation (input) PCI_CACHE_LINE_SIZE :: nat where "PCI_CACHE_LINE_SIZE \<equiv> 0xc"
abbreviation (input) PCI_LATENCY_TIMER :: nat where "PCI_LATENCY_TIMER \<equiv> 0xd"
abbreviation (input) PCI_BIST :: nat where "PCI_BIST \<equiv> 0xf"
abbreviation (input) PCI_BASE_ADDRESS_0 :: nat where "PCI_BASE_ADDRESS_0 \<equiv> 0x10"
abbreviation (input) PCI_BASE_ADDRESS_1 :: nat where "PCI_BASE_ADDRESS_1 \<equiv> 0x14"
abbreviation (input) PCI_BASE_ADDRESS_2 :: nat where "PCI_BASE_ADDRESS_2 \<equiv> 0x18"
abbreviation (input) PCI_BASE_ADDRESS_3 :: nat where "PCI_BASE_ADDRESS_3 \<equiv> 0x1c"
abbreviation (input) PCI_BASE_ADDRESS_4 :: nat where "PCI_BASE_ADDRESS_4 \<equiv> 0x20"
abbreviation (input) PCI_BASE_ADDRESS_5 :: nat where "PCI_BASE_ADDRESS_5 \<equiv> 0x24"
abbreviation (input) PCI_ROM_ADDRESS :: nat where "PCI_ROM_ADDRESS \<equiv> 0x30"
abbreviation (input) PCI_ROM_ADDRESS_ENABLE :: u64 where "PCI_ROM_ADDRESS_ENABLE \<equiv> 0x1"
abbreviation (input) PCI_CAPABILITY_LIST :: nat where "PCI_CAPABILITY_LIST \<equiv> 0x34"
abbreviation (input) PCI_INTERRUPT_LINE :: nat where "PCI_INTERRUPT_LINE \<equiv> 0x3c"
abbreviation (input) PCI_INTERRUPT_PIN :: nat where "PCI_INTERRUPT_PIN \<equiv> 0x3d"
abbreviation (input) PCI_BASE_ADDRESS_SPACE_IO :: u32 where "PCI_BASE_ADDRESS_SPACE_IO \<equiv> 0x1"
abbreviation (input) PCI_BASE_ADDRESS_SPACE_MEMORY :: u32 where "PCI_BASE_ADDRESS_SPACE_MEMORY \<equiv> 0x0"
abbreviation (input) PCI_BASE_ADDRESS_MEM_TYPE_64 :: u32 where "PCI_BASE_ADDRESS_MEM_TYPE_64 \<equiv> 0x4"
abbreviation (input) PCI_BASE_ADDRESS_MEM_PREFETCH :: u32 where "PCI_BASE_ADDRESS_MEM_PREFETCH \<equiv> 0x8"
abbreviation (input) IORESOURCE_IO :: u64 where "IORESOURCE_IO \<equiv> 0x100"
abbreviation (input) IORESOURCE_MEM :: u64 where "IORESOURCE_MEM \<equiv> 0x200"
abbreviation (input) IORESOURCE_PREFETCH :: u64 where "IORESOURCE_PREFETCH \<equiv> 0x2000"
abbreviation (input) IORESOURCE_MEM_64 :: u64 where "IORESOURCE_MEM_64 \<equiv> 0x100000"
abbreviation (input) IORESOURCE_ROM_SHADOW :: u64 where "IORESOURCE_ROM_SHADOW \<equiv> 0x2"
abbreviation (input) PCI_STD_RESOURCES :: nat where "PCI_STD_RESOURCES \<equiv> 0"
abbreviation (input) PCI_STD_RESOURCE_END :: nat where "PCI_STD_RESOURCE_END \<equiv> 5"
abbreviation (input) PCI_ROM_RESOURCE :: nat where "PCI_ROM_RESOURCE \<equiv> 6"

section \<open>Capabilities\<close>

abbreviation (input) PCI_CAP_ID_PM :: nat where "PCI_CAP_ID_PM \<equiv> 0x1"
abbreviation (input) PCI_CAP_ID_AGP :: nat where "PCI_CAP_ID_AGP \<equiv> 0x2"
abbreviation (input) PCI_CAP_ID_VPD :: nat where "PCI_CAP_ID_VPD \<equiv> 0x3"
abbreviation (input) PCI_CAP_ID_SLOTID :: nat where "PCI_CAP_ID_SLOTID \<equiv> 0x4"
abbreviation (input) PCI_CAP_ID_MSI :: nat where "PCI_CAP_ID_MSI \<equiv> 0x5"
abbreviation (input) PCI_CAP_ID_CHSWP :: nat where "PCI_CAP_ID_CHSWP \<equiv> 0x6"
abbreviation (input) PCI_CAP_ID_PCIX :: nat where "PCI_CAP_ID_PCIX \<equiv> 0x7"
abbreviation (input) PCI_CAP_ID_HT :: nat where "PCI_CAP_ID_HT \<equiv> 0x8"
abbreviation (input) PCI_CAP_ID_VNDR :: nat where "PCI_CAP_ID_VNDR \<equiv> 0x9"
abbreviation (input) PCI_CAP_ID_DBG :: nat where "PCI_CAP_ID_DBG \<equiv> 0xa"
abbreviation (input) PCI_CAP_ID_CCRC :: nat where "PCI_CAP_ID_CCRC \<equiv> 0xb"
abbreviation (input) PCI_CAP_ID_SHPC :: nat where "PCI_CAP_ID_SHPC \<equiv> 0xc"
abbreviation (input) PCI_CAP_ID_SSVID :: nat where "PCI_CAP_ID_SSVID \<equiv> 0xd"
abbreviation (input) PCI_CAP_ID_AGP3 :: nat where "PCI_CAP_ID_AGP3 \<equiv> 0xe"
abbreviation (input) PCI_CAP_ID_SECDEV :: nat where "PCI_CAP_ID_SECDEV \<equiv> 0xf"
abbreviation (input) PCI_CAP_ID_EXP :: nat where "PCI_CAP_ID_EXP \<equiv> 0x10"
abbreviation (input) PCI_CAP_ID_MSIX :: nat where "PCI_CAP_ID_MSIX \<equiv> 0x11"
abbreviation (input) PCI_CAP_ID_SATA :: nat where "PCI_CAP_ID_SATA \<equiv> 0x12"
abbreviation (input) PCI_CAP_ID_AF :: nat where "PCI_CAP_ID_AF \<equiv> 0x13"
abbreviation (input) PCI_CAP_ID_MAX :: nat where "PCI_CAP_ID_MAX \<equiv> 0x14"
abbreviation (input) PCI_CAP_LIST_ID :: nat where "PCI_CAP_LIST_ID \<equiv> 0"
abbreviation (input) PCI_CAP_LIST_NEXT :: nat where "PCI_CAP_LIST_NEXT \<equiv> 1"
abbreviation (input) PCI_CAP_FLAGS :: nat where "PCI_CAP_FLAGS \<equiv> 2"
abbreviation (input) PCI_PM_CTRL :: nat where "PCI_PM_CTRL \<equiv> 4"
abbreviation (input) PCI_PM_CTRL_STATE_MASK :: u32 where "PCI_PM_CTRL_STATE_MASK \<equiv> 0x3"
abbreviation (input) PCI_PM_SIZEOF :: nat where "PCI_PM_SIZEOF \<equiv> 8"
abbreviation (input) PCI_AGP_SIZEOF :: nat where "PCI_AGP_SIZEOF \<equiv> 12"
abbreviation (input) PCI_VPD_ADDR :: nat where "PCI_VPD_ADDR \<equiv> 2"
abbreviation (input) PCI_VPD_ADDR_F :: u16 where "PCI_VPD_ADDR_F \<equiv> 0x8000"
abbreviation (input) PCI_VPD_DATA :: nat where "PCI_VPD_DATA \<equiv> 4"
abbreviation (input) PCI_CAP_VPD_SIZEOF :: nat where "PCI_CAP_VPD_SIZEOF \<equiv> 8"
abbreviation (input) PCI_MSI_FLAGS :: nat where "PCI_MSI_FLAGS \<equiv> 2"
abbreviation (input) PCI_MSI_FLAGS_ENABLE :: u16 where "PCI_MSI_FLAGS_ENABLE \<equiv> 0x1"
abbreviation (input) PCI_MSI_FLAGS_QMASK :: u16 where "PCI_MSI_FLAGS_QMASK \<equiv> 0xe"
abbreviation (input) PCI_MSI_FLAGS_QSIZE :: u16 where "PCI_MSI_FLAGS_QSIZE \<equiv> 0x70"
abbreviation (input) PCI_MSI_FLAGS_64BIT :: u16 where "PCI_MSI_FLAGS_64BIT \<equiv> 0x80"
abbreviation (input) PCI_MSI_FLAGS_MASKBIT :: u16 where "PCI_MSI_FLAGS_MASKBIT \<equiv> 0x100"
abbreviation (input) PCI_MSI_ADDRESS_LO :: nat where "PCI_MSI_ADDRESS_LO \<equiv> 4"
abbreviation (input) PCI_MSI_ADDRESS_HI :: nat where "PCI_MSI_ADDRESS_HI \<equiv> 8"
abbreviation (input) PCI_MSI_DATA_32 :: nat where "PCI_MSI_DATA_32 \<equiv> 8"
abbreviation (input) PCI_MSI_MASK_32 :: nat where "PCI_MSI_MASK_32 \<equiv> 12"
abbreviation (input) PCI_MSI_PENDING_32 :: nat where "PCI_MSI_PENDING_32 \<equiv> 16"
abbreviation (input) PCI_MSI_DATA_64 :: nat where "PCI_MSI_DATA_64 \<equiv> 12"
abbreviation (input) PCI_MSI_MASK_64 :: nat where "PCI_MSI_MASK_64 \<equiv> 16"
abbreviation (input) PCI_MSI_PENDING_64 :: nat where "PCI_MSI_PENDING_64 \<equiv> 20"
abbreviation (input) PCI_MSIX_FLAGS :: nat where "PCI_MSIX_FLAGS \<equiv> 2"
abbreviation (input) PCI_MSIX_FLAGS_QSIZE :: u16 where "PCI_MSIX_FLAGS_QSIZE \<equiv> 0x7ff"
abbreviation (input) PCI_MSIX_TABLE :: nat where "PCI_MSIX_TABLE \<equiv> 4"
abbreviation (input) PCI_MSIX_TABLE_BIR :: u32 where "PCI_MSIX_TABLE_BIR \<equiv> 0x7"
abbreviation (input) PCI_MSIX_TABLE_OFFSET :: u32 where "PCI_MSIX_TABLE_OFFSET \<equiv> 0xfffffff8"
abbreviation (input) PCI_CAP_MSIX_SIZEOF :: nat where "PCI_CAP_MSIX_SIZEOF \<equiv> 12"
abbreviation (input) PCI_X_CMD :: nat where "PCI_X_CMD \<equiv> 2"
abbreviation (input) PCI_X_CMD_VERSION :: "u16 \<Rightarrow> u16" where "PCI_X_CMD_VERSION x \<equiv> drop_bit 12 x AND 3"
abbreviation (input) PCI_X_ECC_CSR :: nat where "PCI_X_ECC_CSR \<equiv> 8"
abbreviation (input) PCI_CAP_PCIX_SIZEOF_V0 :: nat where "PCI_CAP_PCIX_SIZEOF_V0 \<equiv> 8"
abbreviation (input) PCI_CAP_PCIX_SIZEOF_V2 :: nat where "PCI_CAP_PCIX_SIZEOF_V2 \<equiv> 24"
abbreviation (input) PCI_EXP_FLAGS_VERS :: u16 where "PCI_EXP_FLAGS_VERS \<equiv> 0xf"
abbreviation (input) PCI_EXP_TYPE_RC_END :: int where "PCI_EXP_TYPE_RC_END \<equiv> 0x9"
abbreviation (input) PCI_EXP_DEVCAP :: nat where "PCI_EXP_DEVCAP \<equiv> 4"
abbreviation (input) PCI_EXP_DEVCAP_FLR :: u32 where "PCI_EXP_DEVCAP_FLR \<equiv> 0x10000000"
abbreviation (input) PCI_EXP_DEVCTL :: nat where "PCI_EXP_DEVCTL \<equiv> 8"
abbreviation (input) PCI_EXP_DEVCTL_PAYLOAD :: u16 where "PCI_EXP_DEVCTL_PAYLOAD \<equiv> 0xe0"
abbreviation (input) PCI_EXP_DEVCTL_PHANTOM :: u16 where "PCI_EXP_DEVCTL_PHANTOM \<equiv> 0x200"
abbreviation (input) PCI_EXP_DEVCTL_READRQ :: u16 where "PCI_EXP_DEVCTL_READRQ \<equiv> 0x7000"
abbreviation (input) PCI_EXP_DEVCTL_BCR_FLR :: u16 where "PCI_EXP_DEVCTL_BCR_FLR \<equiv> 0x8000"
abbreviation (input) PCI_EXP_DEVCTL2 :: nat where "PCI_EXP_DEVCTL2 \<equiv> 40"
abbreviation (input) PCI_EXP_DEVCTL2_ARI :: u16 where "PCI_EXP_DEVCTL2_ARI \<equiv> 0x20"
abbreviation (input) PCI_CAP_EXP_ENDPOINT_SIZEOF_V1 :: nat where "PCI_CAP_EXP_ENDPOINT_SIZEOF_V1 \<equiv> 20"
abbreviation (input) PCI_CAP_EXP_ENDPOINT_SIZEOF_V2 :: nat where "PCI_CAP_EXP_ENDPOINT_SIZEOF_V2 \<equiv> 52"
abbreviation (input) HT_3BIT_CAP_MASK :: u8 where "HT_3BIT_CAP_MASK \<equiv> 0xe0"
abbreviation (input) HT_CAP_SIZEOF_LONG :: nat where "HT_CAP_SIZEOF_LONG \<equiv> 28"
abbreviation (input) HT_CAP_SIZEOF_SHORT :: nat where "HT_CAP_SIZEOF_SHORT \<equiv> 24"
abbreviation (input) PCI_SATA_REGS :: nat where "PCI_SATA_REGS \<equiv> 4"
abbreviation (input) PCI_SATA_REGS_MASK :: u8 where "PCI_SATA_REGS_MASK \<equiv> 0xf"
abbreviation (input) PCI_SATA_REGS_INLINE :: u8 where "PCI_SATA_REGS_INLINE \<equiv> 0xf"
abbreviation (input) PCI_SATA_SIZEOF_SHORT :: nat where "PCI_SATA_SIZEOF_SHORT \<equiv> 8"
abbreviation (input) PCI_SATA_SIZEOF_LONG :: nat where "PCI_SATA_SIZEOF_LONG \<equiv> 16"
abbreviation (input) PCI_AF_CAP :: nat where "PCI_AF_CAP \<equiv> 3"
abbreviation (input) PCI_AF_CAP_TP :: u8 where "PCI_AF_CAP_TP \<equiv> 0x1"
abbreviation (input) PCI_AF_CAP_FLR :: u8 where "PCI_AF_CAP_FLR \<equiv> 0x2"
abbreviation (input) PCI_AF_CTRL :: nat where "PCI_AF_CTRL \<equiv> 4"
abbreviation (input) PCI_AF_CTRL_FLR :: u8 where "PCI_AF_CTRL_FLR \<equiv> 0x1"
abbreviation (input) PCI_CAP_AF_SIZEOF :: nat where "PCI_CAP_AF_SIZEOF \<equiv> 6"

section \<open>Extended capabilities\<close>

abbreviation (input) PCI_EXT_CAP_ID :: "u32 \<Rightarrow> nat" where "PCI_EXT_CAP_ID h \<equiv> unat (h AND 0xffff)"
abbreviation (input) PCI_EXT_CAP_NEXT :: "u32 \<Rightarrow> nat" where "PCI_EXT_CAP_NEXT h \<equiv> unat (drop_bit 20 h AND 0xffc)"
abbreviation (input) PCI_EXT_CAP_ID_ERR :: nat where "PCI_EXT_CAP_ID_ERR \<equiv> 0x1"
abbreviation (input) PCI_EXT_CAP_ID_VC :: nat where "PCI_EXT_CAP_ID_VC \<equiv> 0x2"
abbreviation (input) PCI_EXT_CAP_ID_DSN :: nat where "PCI_EXT_CAP_ID_DSN \<equiv> 0x3"
abbreviation (input) PCI_EXT_CAP_ID_PWR :: nat where "PCI_EXT_CAP_ID_PWR \<equiv> 0x4"
abbreviation (input) PCI_EXT_CAP_ID_MFVC :: nat where "PCI_EXT_CAP_ID_MFVC \<equiv> 0x8"
abbreviation (input) PCI_EXT_CAP_ID_VC9 :: nat where "PCI_EXT_CAP_ID_VC9 \<equiv> 0x9"
abbreviation (input) PCI_EXT_CAP_ID_VNDR :: nat where "PCI_EXT_CAP_ID_VNDR \<equiv> 0xb"
abbreviation (input) PCI_EXT_CAP_ID_ACS :: nat where "PCI_EXT_CAP_ID_ACS \<equiv> 0xd"
abbreviation (input) PCI_EXT_CAP_ID_ARI :: nat where "PCI_EXT_CAP_ID_ARI \<equiv> 0xe"
abbreviation (input) PCI_EXT_CAP_ID_ATS :: nat where "PCI_EXT_CAP_ID_ATS \<equiv> 0xf"
abbreviation (input) PCI_EXT_CAP_ID_SRIOV :: nat where "PCI_EXT_CAP_ID_SRIOV \<equiv> 0x10"
abbreviation (input) PCI_EXT_CAP_ID_MCAST :: nat where "PCI_EXT_CAP_ID_MCAST \<equiv> 0x12"
abbreviation (input) PCI_EXT_CAP_ID_PRI :: nat where "PCI_EXT_CAP_ID_PRI \<equiv> 0x13"
abbreviation (input) PCI_EXT_CAP_ID_REBAR :: nat where "PCI_EXT_CAP_ID_REBAR \<equiv> 0x15"
abbreviation (input) PCI_EXT_CAP_ID_DPA :: nat where "PCI_EXT_CAP_ID_DPA \<equiv> 0x16"
abbreviation (input) PCI_EXT_CAP_ID_TPH :: nat where "PCI_EXT_CAP_ID_TPH \<equiv> 0x17"
abbreviation (input) PCI_EXT_CAP_ID_LTR :: nat where "PCI_EXT_CAP_ID_LTR \<equiv> 0x18"
abbreviation (input) PCI_EXT_CAP_ID_MAX :: nat where "PCI_EXT_CAP_ID_MAX \<equiv> 0x1f"
abbreviation (input) PCI_EXT_CAP_DSN_SIZEOF :: nat where "PCI_EXT_CAP_DSN_SIZEOF \<equiv> 12"
abbreviation (input) PCI_EXT_CAP_PWR_SIZEOF :: nat where "PCI_EXT_CAP_PWR_SIZEOF \<equiv> 16"
abbreviation (input) PCI_EXT_CAP_ARI_SIZEOF :: nat where "PCI_EXT_CAP_ARI_SIZEOF \<equiv> 8"
abbreviation (input) PCI_EXT_CAP_ATS_SIZEOF :: nat where "PCI_EXT_CAP_ATS_SIZEOF \<equiv> 8"
abbreviation (input) PCI_EXT_CAP_SRIOV_SIZEOF :: nat where "PCI_EXT_CAP_SRIOV_SIZEOF \<equiv> 64"
abbreviation (input) PCI_EXT_CAP_MCAST_ENDPOINT_SIZEOF :: nat where "PCI_EXT_CAP_MCAST_ENDPOINT_SIZEOF \<equiv> 40"
abbreviation (input) PCI_EXT_CAP_PRI_SIZEOF :: nat where "PCI_EXT_CAP_PRI_SIZEOF \<equiv> 16"
abbreviation (input) PCI_EXT_CAP_LTR_SIZEOF :: nat where "PCI_EXT_CAP_LTR_SIZEOF \<equiv> 8"
abbreviation (input) PCI_ERR_UNCOR_STATUS :: nat where "PCI_ERR_UNCOR_STATUS \<equiv> 4"
abbreviation (input) PCI_ERR_UNCOR_MASK :: nat where "PCI_ERR_UNCOR_MASK \<equiv> 8"
abbreviation (input) PCI_ERR_UNCOR_SEVER :: nat where "PCI_ERR_UNCOR_SEVER \<equiv> 12"
abbreviation (input) PCI_ERR_COR_STATUS :: nat where "PCI_ERR_COR_STATUS \<equiv> 16"
abbreviation (input) PCI_ERR_COR_MASK :: nat where "PCI_ERR_COR_MASK \<equiv> 20"
abbreviation (input) PCI_ERR_CAP :: nat where "PCI_ERR_CAP \<equiv> 24"
abbreviation (input) PCI_ERR_ROOT_COMMAND :: nat where "PCI_ERR_ROOT_COMMAND \<equiv> 44"
abbreviation (input) PCI_ERR_UNC_UND :: u32 where "PCI_ERR_UNC_UND \<equiv> 0x1"
abbreviation (input) PCI_ERR_UNC_DLP :: u32 where "PCI_ERR_UNC_DLP \<equiv> 0x10"
abbreviation (input) PCI_ERR_UNC_SURPDN :: u32 where "PCI_ERR_UNC_SURPDN \<equiv> 0x20"
abbreviation (input) PCI_ERR_UNC_POISON_TLP :: u32 where "PCI_ERR_UNC_POISON_TLP \<equiv> 0x1000"
abbreviation (input) PCI_ERR_UNC_FCP :: u32 where "PCI_ERR_UNC_FCP \<equiv> 0x2000"
abbreviation (input) PCI_ERR_UNC_COMP_TIME :: u32 where "PCI_ERR_UNC_COMP_TIME \<equiv> 0x4000"
abbreviation (input) PCI_ERR_UNC_COMP_ABORT :: u32 where "PCI_ERR_UNC_COMP_ABORT \<equiv> 0x8000"
abbreviation (input) PCI_ERR_UNC_UNX_COMP :: u32 where "PCI_ERR_UNC_UNX_COMP \<equiv> 0x10000"
abbreviation (input) PCI_ERR_UNC_RX_OVER :: u32 where "PCI_ERR_UNC_RX_OVER \<equiv> 0x20000"
abbreviation (input) PCI_ERR_UNC_MALF_TLP :: u32 where "PCI_ERR_UNC_MALF_TLP \<equiv> 0x40000"
abbreviation (input) PCI_ERR_UNC_ECRC :: u32 where "PCI_ERR_UNC_ECRC \<equiv> 0x80000"
abbreviation (input) PCI_ERR_UNC_UNSUP :: u32 where "PCI_ERR_UNC_UNSUP \<equiv> 0x100000"
abbreviation (input) PCI_ERR_UNC_ACSV :: u32 where "PCI_ERR_UNC_ACSV \<equiv> 0x200000"
abbreviation (input) PCI_ERR_UNC_INTN :: u32 where "PCI_ERR_UNC_INTN \<equiv> 0x400000"
abbreviation (input) PCI_ERR_UNC_MCBTLP :: u32 where "PCI_ERR_UNC_MCBTLP \<equiv> 0x800000"
abbreviation (input) PCI_ERR_UNC_ATOMEG :: u32 where "PCI_ERR_UNC_ATOMEG \<equiv> 0x1000000"
abbreviation (input) PCI_ERR_UNC_TLPPRE :: u32 where "PCI_ERR_UNC_TLPPRE \<equiv> 0x2000000"
abbreviation (input) PCI_ERR_COR_RCVR :: u32 where "PCI_ERR_COR_RCVR \<equiv> 0x1"
abbreviation (input) PCI_ERR_COR_BAD_TLP :: u32 where "PCI_ERR_COR_BAD_TLP \<equiv> 0x40"
abbreviation (input) PCI_ERR_COR_BAD_DLLP :: u32 where "PCI_ERR_COR_BAD_DLLP \<equiv> 0x80"
abbreviation (input) PCI_ERR_COR_REP_ROLL :: u32 where "PCI_ERR_COR_REP_ROLL \<equiv> 0x100"
abbreviation (input) PCI_ERR_COR_REP_TIMER :: u32 where "PCI_ERR_COR_REP_TIMER \<equiv> 0x1000"
abbreviation (input) PCI_ERR_COR_ADV_NFAT :: u32 where "PCI_ERR_COR_ADV_NFAT \<equiv> 0x2000"
abbreviation (input) PCI_ERR_COR_INTERNAL :: u32 where "PCI_ERR_COR_INTERNAL \<equiv> 0x4000"
abbreviation (input) PCI_ERR_COR_LOG_OVER :: u32 where "PCI_ERR_COR_LOG_OVER \<equiv> 0x8000"
abbreviation (input) PCI_ERR_CAP_ECRC_GENE :: u32 where "PCI_ERR_CAP_ECRC_GENE \<equiv> 0x40"
abbreviation (input) PCI_ERR_CAP_ECRC_CHKE :: u32 where "PCI_ERR_CAP_ECRC_CHKE \<equiv> 0x100"
abbreviation (input) PCI_PWR_DATA :: nat where "PCI_PWR_DATA \<equiv> 8"
abbreviation (input) PCI_VC_PORT_CAP1 :: nat where "PCI_VC_PORT_CAP1 \<equiv> 4"
abbreviation (input) PCI_VC_CAP1_EVCC :: u32 where "PCI_VC_CAP1_EVCC \<equiv> 0x7"
abbreviation (input) PCI_VC_PORT_CAP2 :: nat where "PCI_VC_PORT_CAP2 \<equiv> 8"
abbreviation (input) PCI_VC_CAP2_32_PHASE :: u32 where "PCI_VC_CAP2_32_PHASE \<equiv> 0x2"
abbreviation (input) PCI_VC_CAP2_64_PHASE :: u32 where "PCI_VC_CAP2_64_PHASE \<equiv> 0x4"
abbreviation (input) PCI_VC_CAP2_128_PHASE :: u32 where "PCI_VC_CAP2_128_PHASE \<equiv> 0x8"
abbreviation (input) PCI_CAP_VC_BASE_SIZEOF :: nat where "PCI_CAP_VC_BASE_SIZEOF \<equiv> 0x10"
abbreviation (input) PCI_CAP_VC_PER_VC_SIZEOF :: nat where "PCI_CAP_VC_PER_VC_SIZEOF \<equiv> 0xc"
abbreviation (input) PCI_VSEC_HDR :: nat where "PCI_VSEC_HDR \<equiv> 4"
abbreviation (input) PCI_VSEC_HDR_LEN_SHIFT :: nat where "PCI_VSEC_HDR_LEN_SHIFT \<equiv> 20"
abbreviation (input) PCI_ACS_CAP :: nat where "PCI_ACS_CAP \<equiv> 4"
abbreviation (input) PCI_ACS_EC :: u8 where "PCI_ACS_EC \<equiv> 0x20"
abbreviation (input) PCI_ACS_EGRESS_BITS :: nat where "PCI_ACS_EGRESS_BITS \<equiv> 5"
abbreviation (input) PCI_REBAR_CTRL :: nat where "PCI_REBAR_CTRL \<equiv> 8"
abbreviation (input) PCI_REBAR_CTRL_NBAR_MASK :: u8 where "PCI_REBAR_CTRL_NBAR_MASK \<equiv> 0xe0"
abbreviation (input) PCI_REBAR_CTRL_NBAR_SHIFT :: nat where "PCI_REBAR_CTRL_NBAR_SHIFT \<equiv> 5"
abbreviation (input) PCI_DPA_CAP :: nat where "PCI_DPA_CAP \<equiv> 4"
abbreviation (input) PCI_DPA_CAP_SUBSTATE_MASK :: u8 where "PCI_DPA_CAP_SUBSTATE_MASK \<equiv> 0x1f"
abbreviation (input) PCI_DPA_BASE_SIZEOF :: nat where "PCI_DPA_BASE_SIZEOF \<equiv> 16"
abbreviation (input) PCI_TPH_CAP :: nat where "PCI_TPH_CAP \<equiv> 4"
abbreviation (input) PCI_TPH_CAP_LOC_MASK :: u32 where "PCI_TPH_CAP_LOC_MASK \<equiv> 0x600"
abbreviation (input) PCI_TPH_LOC_CAP :: u32 where "PCI_TPH_LOC_CAP \<equiv> 0x200"
abbreviation (input) PCI_TPH_CAP_ST_MASK :: u32 where "PCI_TPH_CAP_ST_MASK \<equiv> 0x7ff0000"
abbreviation (input) PCI_TPH_CAP_ST_SHIFT :: nat where "PCI_TPH_CAP_ST_SHIFT \<equiv> 16"
abbreviation (input) PCI_TPH_BASE_SIZEOF :: nat where "PCI_TPH_BASE_SIZEOF \<equiv> 12"

section \<open>The VFIO interface\<close>

abbreviation (input) VFIO_PCI_BAR0_REGION_INDEX :: nat where "VFIO_PCI_BAR0_REGION_INDEX \<equiv> 0"
abbreviation (input) VFIO_PCI_BAR5_REGION_INDEX :: nat where "VFIO_PCI_BAR5_REGION_INDEX \<equiv> 5"
abbreviation (input) VFIO_PCI_ROM_REGION_INDEX :: nat where "VFIO_PCI_ROM_REGION_INDEX \<equiv> 6"
abbreviation (input) VFIO_PCI_CONFIG_REGION_INDEX :: nat where "VFIO_PCI_CONFIG_REGION_INDEX \<equiv> 7"
abbreviation (input) VFIO_PCI_VGA_REGION_INDEX :: nat where "VFIO_PCI_VGA_REGION_INDEX \<equiv> 8"
abbreviation (input) VFIO_PCI_NUM_REGIONS :: nat where "VFIO_PCI_NUM_REGIONS \<equiv> 9"
abbreviation (input) VFIO_PCI_INTX_IRQ_INDEX :: nat where "VFIO_PCI_INTX_IRQ_INDEX \<equiv> 0"
abbreviation (input) VFIO_PCI_MSI_IRQ_INDEX :: nat where "VFIO_PCI_MSI_IRQ_INDEX \<equiv> 1"
abbreviation (input) VFIO_PCI_MSIX_IRQ_INDEX :: nat where "VFIO_PCI_MSIX_IRQ_INDEX \<equiv> 2"
abbreviation (input) VFIO_PCI_ERR_IRQ_INDEX :: nat where "VFIO_PCI_ERR_IRQ_INDEX \<equiv> 3"
abbreviation (input) VFIO_PCI_REQ_IRQ_INDEX :: nat where "VFIO_PCI_REQ_IRQ_INDEX \<equiv> 4"
abbreviation (input) VFIO_PCI_NUM_IRQS :: nat where "VFIO_PCI_NUM_IRQS \<equiv> 5"
abbreviation (input) VFIO_IRQ_SET_DATA_NONE :: u32 where "VFIO_IRQ_SET_DATA_NONE \<equiv> 0x1"
abbreviation (input) VFIO_IRQ_SET_DATA_BOOL :: u32 where "VFIO_IRQ_SET_DATA_BOOL \<equiv> 0x2"
abbreviation (input) VFIO_IRQ_SET_DATA_EVENTFD :: u32 where "VFIO_IRQ_SET_DATA_EVENTFD \<equiv> 0x4"
abbreviation (input) VFIO_IRQ_SET_ACTION_MASK :: u32 where "VFIO_IRQ_SET_ACTION_MASK \<equiv> 0x8"
abbreviation (input) VFIO_IRQ_SET_ACTION_UNMASK :: u32 where "VFIO_IRQ_SET_ACTION_UNMASK \<equiv> 0x10"
abbreviation (input) VFIO_IRQ_SET_ACTION_TRIGGER :: u32 where "VFIO_IRQ_SET_ACTION_TRIGGER \<equiv> 0x20"
abbreviation (input) VFIO_IRQ_SET_ACTION_TYPE_MASK :: u32 where "VFIO_IRQ_SET_ACTION_TYPE_MASK \<equiv> 0x38"

section \<open>VGA arbitration\<close>

abbreviation (input) VGA_RSRC_LEGACY_IO :: nat where "VGA_RSRC_LEGACY_IO \<equiv> 0x1"
abbreviation (input) VGA_RSRC_LEGACY_MEM :: nat where "VGA_RSRC_LEGACY_MEM \<equiv> 0x2"
abbreviation (input) VGA_RSRC_NORMAL_IO :: nat where "VGA_RSRC_NORMAL_IO \<equiv> 0x4"
abbreviation (input) VGA_RSRC_NORMAL_MEM :: nat where "VGA_RSRC_NORMAL_MEM \<equiv> 0x8"

section \<open>Device and region information\<close>

abbreviation (input) VFIO_DEVICE_FLAGS_RESET :: u32 where "VFIO_DEVICE_FLAGS_RESET \<equiv> 0x1"
abbreviation (input) VFIO_DEVICE_FLAGS_PCI :: u32 where "VFIO_DEVICE_FLAGS_PCI \<equiv> 0x2"
abbreviation (input) VFIO_REGION_INFO_FLAG_READ :: u32 where "VFIO_REGION_INFO_FLAG_READ \<equiv> 0x1"
abbreviation (input) VFIO_REGION_INFO_FLAG_WRITE :: u32 where "VFIO_REGION_INFO_FLAG_WRITE \<equiv> 0x2"
abbreviation (input) VFIO_REGION_INFO_FLAG_MMAP :: u32 where "VFIO_REGION_INFO_FLAG_MMAP \<equiv> 0x4"
abbreviation (input) VFIO_REGION_INFO_FLAG_CAPS :: u32 where "VFIO_REGION_INFO_FLAG_CAPS \<equiv> 0x8"
abbreviation (input) VFIO_IRQ_INFO_EVENTFD :: u32 where "VFIO_IRQ_INFO_EVENTFD \<equiv> 0x1"
abbreviation (input) VFIO_IRQ_INFO_MASKABLE :: u32 where "VFIO_IRQ_INFO_MASKABLE \<equiv> 0x2"
abbreviation (input) VFIO_IRQ_INFO_AUTOMASKED :: u32 where "VFIO_IRQ_INFO_AUTOMASKED \<equiv> 0x4"
abbreviation (input) VFIO_IRQ_INFO_NORESIZE :: u32 where "VFIO_IRQ_INFO_NORESIZE \<equiv> 0x8"
abbreviation (input) VFIO_DEVICE_IOEVENTFD_SIZE_MASK :: u32 where "VFIO_DEVICE_IOEVENTFD_SIZE_MASK \<equiv> 0xf"
abbreviation (input) PCI_VENDOR_ID_INTEL :: u16 where "PCI_VENDOR_ID_INTEL \<equiv> 0x8086"
abbreviation (input) PCI_VENDOR_ID_NVIDIA :: u16 where "PCI_VENDOR_ID_NVIDIA \<equiv> 0x10de"
abbreviation (input) PCI_VENDOR_ID_IBM :: u16 where "PCI_VENDOR_ID_IBM \<equiv> 0x1014"
abbreviation (input) PCI_CLASS_DISPLAY_VGA :: u32 where "PCI_CLASS_DISPLAY_VGA \<equiv> 0x0300"
abbreviation (input) PCI_HEADER_TYPE_NORMAL :: u8 where "PCI_HEADER_TYPE_NORMAL \<equiv> 0"

end
