(* ===== verification/Kernel.thy ===== *)
theory Kernel
  imports PCI_Regs
begin

text \<open>
  The kernel around the driver, as a parameter. Every function of the Linux kernel that the driver
  calls is one constructor of the call types grouped in \<open>kcall\<close> with the arguments the driver passes. What the kernel answers
  is not modelled: \<open>respond K h c\<close> is the answer of the kernel \<open>K\<close> to the call \<open>c\<close> after the history
  \<open>h\<close> of all calls and answers so far, newest first, so that a kernel, the device behind it and the
  user's fault-prone memory may behave in any way that depends on what happened before. An answer
  is the C return value (an error code, a pointer or handle) and the word stored through an output
  argument, where the call has one. The history is part of the state of every driver
  (\<open>trace\<close>), so that statements can speak about the calls made and their order.

  \<open>err_to_errno\<close> stands for \<^verbatim>\<open>pcibios_err_to_errno\<close> and \<open>fls\<close> for the bit operation of that name;
  \<open>IS_ENABLED_*\<close> are the build options the driver asks for and \<open>has_iowrite64\<close> whether there is a macro
  of that name; \<open>heap_garbage\<close> is what memory from
  \<^verbatim>\<open>kmalloc\<close> contains before it is written.
\<close>

datatype pci_power =
  PCI_D0 | PCI_D1 | PCI_D2 | PCI_D3hot | PCI_D3cold | PCI_UNKNOWN | PCI_POWER_ERROR

text \<open>The third argument of \<^verbatim>\<open>free_irq\<close>, the cookie of \<^verbatim>\<open>request_irq\<close>: the device, or an eventfd context.\<close>

datatype irq_cookie = Cookie_vdev | Cookie_eventfd int

text \<open>What a \<^verbatim>\<open>vfio_virqfd_enable\<close> hands over: which handler runs when the eventfd fires.\<close>

datatype virqfd_kind = Virqfd_intx_unmask | Virqfd_ioeventfd

text \<open>Configuration space: \<^verbatim>\<open>pci_user_*\<close> and \<^verbatim>\<open>pci_*\<close> accessors with size in bytes, offset, value.\<close>

datatype config_call =
    User_read_config nat nat
  | User_write_config nat nat u32
  | Read_config nat nat
  | Write_config nat nat u32

text \<open>Power states, resets, vital product data, PCI Express.\<close>

datatype power_call =
    Set_power_state pci_power
  | Try_reset_function
  | Read_vpd u16
  | Write_vpd u16 u32
  | Pcie_get_mps
  | Pcie_set_readrq int
  | Pcie_caps_reg
  | Pci_pcie_type
  | Save_state
  | Restore_state
  | Store_saved_state
  | Load_and_free_saved_state "int option"

text \<open>Allocation and the user's memory: address and size.\<close>

datatype mem_call =
    Alloc
  | Copy_from_user nat nat
  | Copy_to_user nat nat
  | Memdup_user nat nat

datatype irq_call =
    Pci_intx bool
  | Intx_mask_supported
  | Set_irqs_validate u32 u32 u32 u32 u32 int
  | Disable_irq_nosync nat
  | Enable_irq nat
  | Check_and_mask_intx
  | Check_and_unmask_intx
  | Request_irq int bool irq_cookie
  | Free_irq int irq_cookie
  | Alloc_irq_vectors nat nat bool
  | Free_irq_vectors
  | Irq_vector nat
  | Get_cached_msi_msg int
  | Write_msi_msg int
  | Bypass_register int int
  | Bypass_unregister int

datatype eventfd_call =
    Eventfd_signal int
  | Eventfd_ctx_fdget int
  | Eventfd_ctx_put int
  | Virqfd_enable virqfd_kind int
  | Virqfd_disable "int option"

text \<open>Regions and mapped I/O; \<open>Ioread\<close> and \<open>Iowrite\<close> have the size in bytes and the address.\<close>

datatype io_call =
    Request_selected_regions nat
  | Release_selected_regions nat
  | Iomap nat
  | Iounmap int
  | Map_rom
  | Unmap_rom int
  | Ioread nat int
  | Iowrite nat int u64
  | Ioremap_nocache nat nat
  | Ioport_map nat nat
  | Ioport_unmap int
  | Vga_get nat
  | Vga_put nat
  | Request_resource nat u64 u64
  | Release_resource nat
  | Remap_pfn_range u64 u64 u64

text \<open>
  The life cycle of a device and of a driver. Where a call is about a device of the bus other than the
  one at hand, its first argument is the position of that device on the bus.
\<close>

datatype life_call =
    Clear_master
  | Enable_device
  | Disable_device
  | D3cold_enable
  | Probe_reset_slot
  | Probe_reset_bus
  | Register_driver
  | Unregister_driver
  | Reset_bus
  | Module_get
  | Module_put
  | Eeh_open
  | Eeh_release
  | Num_vf
  | Iommu_group_get
  | Iommu_group_put
  | Add_group_dev
  | Del_group_dev
  | Vga_register bool
  | Vga_set_legacy_decoding u32
  | Add_dynid "u32 list"
  | Info_add_capability nat
  | Peer_iommu_group nat
  | Peer_iommu_group_put nat
  | Device_get nat
  | Device_put nat
  | Peer_set_power_state nat pci_power
  | Fdget int
  | Fdput int
  | Group_get_external_user int
  | External_user_iommu_id int
  | Put_external_user int

datatype kcall =
    Config config_call
  | Power power_call
  | Mem mem_call
  | Irq irq_call
  | Evt eventfd_call
  | Io io_call
  | Life life_call

type_synonym kresult = "int \<times> u64"
type_synonym kevent = "kcall \<times> kresult"

record kernel =
  respond :: "kevent list \<Rightarrow> kcall \<Rightarrow> kresult"
  err_to_errno :: "int \<Rightarrow> int"
  fls :: "nat \<Rightarrow> nat"
  heap_garbage :: "nat \<Rightarrow> u8"
  has_iowrite64 :: bool
  IS_ENABLED_VFIO_PCI_INTX :: bool
  IS_ENABLED_VFIO_PCI_MMAP :: bool
  IS_ENABLED_VFIO_PCI_VGA :: bool
  IS_ENABLED_VFIO_PCI_IGD :: bool
  IS_ENABLED_VFIO_PCI_NVLINK2 :: bool

record kstate =
  trace :: "kevent list"

definition kcall :: "kernel \<Rightarrow> kcall \<Rightarrow> 'a kstate_scheme \<Rightarrow> kresult \<times> 'a kstate_scheme" where
  "kcall K c s = (let r = respond K (trace s) c in (r, s\<lparr>trace := (c, r) # trace s\<rparr>))"

text \<open>A call whose return value is the only result, and one whose result is ignored.\<close>

definition kcall_rc :: "kernel \<Rightarrow> kcall \<Rightarrow> 'a kstate_scheme \<Rightarrow> int \<times> 'a kstate_scheme" where
  "kcall_rc K c s = (case kcall K c s of ((rc, _), s) \<Rightarrow> (rc, s))"

definition kcall_do :: "kernel \<Rightarrow> kcall \<Rightarrow> 'a kstate_scheme \<Rightarrow> 'a kstate_scheme" where
  "kcall_do K c s = snd (kcall K c s)"

section \<open>The trace\<close>

lemma kcall_Pair:
  "kcall K c s = (respond K (trace s) c, s\<lparr>trace := (c, respond K (trace s) c) # trace s\<rparr>)"
  by (simp add: kcall_def Let_def)

lemma kcall_rc_Pair:
  "kcall_rc K c s =
     (fst (respond K (trace s) c), s\<lparr>trace := (c, respond K (trace s) c) # trace s\<rparr>)"
  by (simp add: kcall_rc_def kcall_Pair split: prod.split)

lemma kcall_do_eq: "kcall_do K c s = s\<lparr>trace := (c, respond K (trace s) c) # trace s\<rparr>"
  by (simp add: kcall_do_def kcall_Pair)

lemmas kcall_simps = kcall_Pair kcall_rc_Pair kcall_do_eq

text \<open>
  \<open>made s s' P\<close>: between \<open>s\<close> and \<open>s'\<close> only calls that satisfy \<open>P\<close> were made; \<open>calls\<close> lists them,
  oldest first.
\<close>

definition new_events :: "'a kstate_scheme \<Rightarrow> 'a kstate_scheme \<Rightarrow> kevent list" where
  "new_events s s' = rev (take (length (trace s') - length (trace s)) (trace s'))"

definition calls :: "'a kstate_scheme \<Rightarrow> 'a kstate_scheme \<Rightarrow> kcall list" where
  "calls s s' = map fst (new_events s s')"

definition extends :: "'a kstate_scheme \<Rightarrow> 'a kstate_scheme \<Rightarrow> bool" where
  "extends s s' \<longleftrightarrow> (\<exists>es. trace s' = es @ trace s)"

lemma new_events_append: "trace s' = es @ trace s \<Longrightarrow> new_events s s' = rev es"
  by (simp add: new_events_def)

lemma calls_append: "trace s' = es @ trace s \<Longrightarrow> calls s s' = map fst (rev es)"
  by (simp add: calls_def new_events_append)

lemma calls_refl [simp]: "calls s s = []"
  by (simp add: calls_def new_events_def)

lemma extends_refl [simp]: "extends s s"
  by (simp add: extends_def)

lemma extends_trans: "extends s s' \<Longrightarrow> extends s' s'' \<Longrightarrow> extends s s''"
  by (auto simp: extends_def)

lemma calls_trans: "extends s s' \<Longrightarrow> extends s' s'' \<Longrightarrow> calls s s'' = calls s s' @ calls s' s''"
  by (auto simp: extends_def calls_append)

section \<open>Documented behaviour of the kernel\<close>

text \<open>
  What theorems below assume of the kernel, where they assume anything: the \<^verbatim>\<open>pci_user_*\<close> accessors
  return zero or a negative error number; \<^verbatim>\<open>pcibios_err_to_errno\<close> keeps zero and negative values and
  makes the positive PCIBIOS codes negative; \<^verbatim>\<open>fls\<close> is the position of the highest bit set.
\<close>

definition user_cfg_law :: "kernel \<Rightarrow> bool" where
  "user_cfg_law K \<longleftrightarrow>
     (\<forall>h n off. fst (respond K h (Config (User_read_config n off))) \<le> 0) \<and>
     (\<forall>h n off v. fst (respond K h (Config (User_write_config n off v))) \<le> 0)"

definition errno_law :: "kernel \<Rightarrow> bool" where
  "errno_law K \<longleftrightarrow> (\<forall>e. (e \<le> 0 \<longrightarrow> err_to_errno K e = e) \<and> (0 < e \<longrightarrow> err_to_errno K e < 0))"

definition fls_law :: "kernel \<Rightarrow> bool" where
  "fls_law K \<longleftrightarrow> fls K 0 = 0 \<and> (\<forall>x>0. 2 ^ (fls K x - 1) \<le> x \<and> x < 2 ^ fls K x)"

lemma user_cfg_lawD:
  assumes "user_cfg_law K"
  shows "fst (respond K h (Config (User_read_config n off))) \<le> 0"
    and "fst (respond K h (Config (User_write_config n off v))) \<le> 0"
  using assms by (simp_all add: user_cfg_law_def)

end
