(* ===== verification/Device.thy ===== *)
theory Device
  imports Kernel
begin

text \<open>
  The data of the driver: \<^verbatim>\<open>src/device/vfio_pci_private.h\<close> and the fields of the kernel's
  \<^verbatim>\<open>struct pci_dev\<close> that the driver reads. The state of a device is the C structure
  \<^verbatim>\<open>struct vfio_pci_device\<close> as a record over the call trace, with the memory of the user process as a
  further field. Function pointers in \<^verbatim>\<open>struct perm_bits\<close> are the names of the functions they point to.
  Locks have no field: the functions are modelled as they run with their locks held.
\<close>

section \<open>The PCI device\<close>

record pci_resource =
  res_start :: u64
  res_len :: u64
  res_flags :: u64

record pci_dev =
  vendor :: u16
  device_id :: u16
  cfg_size :: nat
  is_virtfn :: bool
  is_pcie :: bool
  pdev_irq :: nat
  hdr_type :: u8
  pci_class :: u32
  msi_cap :: u8
  msix_cap :: u8
  resource :: "nat \<Rightarrow> pci_resource"

abbreviation pci_resource_start :: "pci_dev \<Rightarrow> nat \<Rightarrow> u64" where
  "pci_resource_start d i \<equiv> res_start (resource d i)"

abbreviation pci_resource_len :: "pci_dev \<Rightarrow> nat \<Rightarrow> u64" where
  "pci_resource_len d i \<equiv> res_len (resource d i)"

abbreviation pci_resource_flags :: "pci_dev \<Rightarrow> nat \<Rightarrow> u64" where
  "pci_resource_flags d i \<equiv> res_flags (resource d i)"

section \<open>Pointers\<close>

text \<open>
  A pointer to a heap object that may be \<open>NULL\<close>, may point to an object, or may point to memory that
  has been freed; reading through the last kind, or freeing it again, is undefined.
\<close>

datatype 'a ptr = NULL | Freed | Ptr 'a

section \<open>Permission tables\<close>

text \<open>The functions \<^verbatim>\<open>perm->readfn\<close> and \<^verbatim>\<open>perm->writefn\<close> are ever set to.\<close>

datatype readfn =
  Default_config_read | Direct_config_read | Raw_config_read | Virt_config_read
| Basic_config_read | Msi_config_read

datatype writefn =
  Default_config_write | Raw_config_write | Virt_config_write | Basic_config_write
| Pm_config_write | Vpd_config_write | Exp_config_write | Af_config_write | Msi_config_write

record perm_bits =
  pvirt :: "u8 list"
  pwrite :: "u8 list"
  preadfn :: "readfn option"
  pwritefn :: "writefn option"

text \<open>Capability numbers of the map that stand for no capability: raw and virtual access.\<close>

abbreviation (input) PCI_CAP_ID_INVALID :: u8 where "PCI_CAP_ID_INVALID \<equiv> 0xff"
abbreviation (input) PCI_CAP_ID_INVALID_VIRT :: u8 where "PCI_CAP_ID_INVALID_VIRT \<equiv> 0xfe"

section \<open>Interrupt contexts and I/O eventfds\<close>

text \<open>
  \<open>trigger\<close> is the eventfd context an interrupt is relayed to, \<open>name\<close> whether the name string is
  allocated, \<open>unmask\<close> and \<open>mask\<close> the virqfds, \<open>token\<close> the token of the bypass producer.
\<close>

record vfio_pci_irq_ctx =
  trigger :: "int option"
  unmask_virqfd :: "int option"
  mask_virqfd :: "int option"
  irq_name :: bool
  masked :: bool
  token :: "int option"

definition empty_irq_ctx :: vfio_pci_irq_ctx where
  "empty_irq_ctx = \<lparr>trigger = None, unmask_virqfd = None, mask_virqfd = None, irq_name = False,
     masked = False, token = None\<rparr>"

record vfio_pci_ioeventfd =
  ioev_virqfd :: int
  ioev_addr :: int
  ioev_data :: u64
  ioev_pos :: int
  ioev_bar :: nat
  ioev_count :: nat

section \<open>Regions\<close>

text \<open>
  A device-specific region; the operations of its \<^verbatim>\<open>regops\<close> belong to other drivers' files, so a
  region names its operations by number.
\<close>

record vfio_pci_region =
  region_type :: u32
  subtype :: u32
  region_ops :: nat
  region_size :: u64
  region_flags :: u32

text \<open>A resource that reserves the rest of the page of a BAR smaller than a page.\<close>

record vfio_pci_dummy_resource =
  dummy_start :: u64
  dummy_end :: u64
  dummy_index :: nat

section \<open>The VFIO device\<close>

text \<open>
  \<open>dummy_resources_list\<close> is \<open>None\<close> as long as the list head is zero-filled memory that
  \<^verbatim>\<open>INIT_LIST_HEAD\<close> has not set up; going through such a list is undefined.
\<close>

record vfio_pci_device = kstate +
  pdev :: pci_dev
  barmap :: "nat \<Rightarrow> int option"
  bar_mmap_supported :: "nat \<Rightarrow> bool"
  pci_config_map :: "u8 list"
  vconfig :: "u8 list"
  msi_perm :: "perm_bits ptr"
  ctx :: "vfio_pci_irq_ctx list"
  num_ctx :: nat
  irq_type :: nat
  regions :: "vfio_pci_region list"
  msi_qmax :: u8
  msix_bar :: u8
  msix_size :: u16
  msix_offset :: u32
  rbar :: "u32 list"
  pci_2_3 :: bool
  virq_disabled :: bool
  reset_works :: bool
  extended_caps :: bool
  bardirty :: bool
  has_vga :: bool
  needs_reset :: bool
  nointx :: bool
  pci_saved_state :: "int option"
  reflck :: "int option"
  refcnt :: int
  ioeventfds_nr :: nat
  ioeventfds_list :: "vfio_pci_ioeventfd list"
  err_trigger :: "int option"
  req_trigger :: "int option"
  dummy_resources_list :: "vfio_pci_dummy_resource list option"
  user_mem :: "nat \<Rightarrow> u8"

abbreviation is_intx :: "vfio_pci_device \<Rightarrow> bool" where
  "is_intx s \<equiv> irq_type s = VFIO_PCI_INTX_IRQ_INDEX"

abbreviation is_msi :: "vfio_pci_device \<Rightarrow> bool" where
  "is_msi s \<equiv> irq_type s = VFIO_PCI_MSI_IRQ_INDEX"

abbreviation is_msix :: "vfio_pci_device \<Rightarrow> bool" where
  "is_msix s \<equiv> irq_type s = VFIO_PCI_MSIX_IRQ_INDEX"

abbreviation is_irq_none :: "vfio_pci_device \<Rightarrow> bool" where
  "is_irq_none s \<equiv> \<not> (is_intx s \<or> is_msi s \<or> is_msix s)"

abbreviation irq_is :: "vfio_pci_device \<Rightarrow> nat \<Rightarrow> bool" where
  "irq_is s t \<equiv> irq_type s = t"

section \<open>Kernel calls and the fields of the device\<close>

text \<open>
  A kernel call changes the trace only. The rules below let the simplifier read a field through any
  number of calls without ever unfolding what the kernel answered.
\<close>

lemma kcall_do_fields [simp]:
  fixes s :: vfio_pci_device
  shows
  "pdev (kcall_do K c s) = pdev s" "barmap (kcall_do K c s) = barmap s"
  "pci_config_map (kcall_do K c s) = pci_config_map s" "vconfig (kcall_do K c s) = vconfig s"
  "msi_perm (kcall_do K c s) = msi_perm s" "ctx (kcall_do K c s) = ctx s"
  "num_ctx (kcall_do K c s) = num_ctx s" "irq_type (kcall_do K c s) = irq_type s"
  "msi_qmax (kcall_do K c s) = msi_qmax s" "msix_bar (kcall_do K c s) = msix_bar s"
  "msix_size (kcall_do K c s) = msix_size s" "msix_offset (kcall_do K c s) = msix_offset s"
  "rbar (kcall_do K c s) = rbar s" "pci_2_3 (kcall_do K c s) = pci_2_3 s"
  "virq_disabled (kcall_do K c s) = virq_disabled s"
  "extended_caps (kcall_do K c s) = extended_caps s" "bardirty (kcall_do K c s) = bardirty s"
  "has_vga (kcall_do K c s) = has_vga s" "nointx (kcall_do K c s) = nointx s"
  "ioeventfds_nr (kcall_do K c s) = ioeventfds_nr s"
  "ioeventfds_list (kcall_do K c s) = ioeventfds_list s"
  "err_trigger (kcall_do K c s) = err_trigger s" "req_trigger (kcall_do K c s) = req_trigger s"
  "bar_mmap_supported (kcall_do K c s) = bar_mmap_supported s"
  "regions (kcall_do K c s) = regions s"
  "reset_works (kcall_do K c s) = reset_works s"
  "needs_reset (kcall_do K c s) = needs_reset s"
  "pci_saved_state (kcall_do K c s) = pci_saved_state s"
  "reflck (kcall_do K c s) = reflck s"
  "refcnt (kcall_do K c s) = refcnt s"
  "dummy_resources_list (kcall_do K c s) = dummy_resources_list s"
  "user_mem (kcall_do K c s) = user_mem s"
  by (simp_all add: kcall_simps)

lemma kcall_rc_fields [simp]:
  fixes s :: vfio_pci_device
  shows
  "pdev (snd (kcall_rc K c s)) = pdev s" "barmap (snd (kcall_rc K c s)) = barmap s"
  "pci_config_map (snd (kcall_rc K c s)) = pci_config_map s"
  "vconfig (snd (kcall_rc K c s)) = vconfig s" "msi_perm (snd (kcall_rc K c s)) = msi_perm s"
  "ctx (snd (kcall_rc K c s)) = ctx s" "num_ctx (snd (kcall_rc K c s)) = num_ctx s"
  "irq_type (snd (kcall_rc K c s)) = irq_type s" "msi_qmax (snd (kcall_rc K c s)) = msi_qmax s"
  "msix_bar (snd (kcall_rc K c s)) = msix_bar s" "msix_size (snd (kcall_rc K c s)) = msix_size s"
  "msix_offset (snd (kcall_rc K c s)) = msix_offset s" "rbar (snd (kcall_rc K c s)) = rbar s"
  "pci_2_3 (snd (kcall_rc K c s)) = pci_2_3 s"
  "virq_disabled (snd (kcall_rc K c s)) = virq_disabled s"
  "extended_caps (snd (kcall_rc K c s)) = extended_caps s"
  "bardirty (snd (kcall_rc K c s)) = bardirty s" "has_vga (snd (kcall_rc K c s)) = has_vga s"
  "nointx (snd (kcall_rc K c s)) = nointx s"
  "ioeventfds_nr (snd (kcall_rc K c s)) = ioeventfds_nr s"
  "ioeventfds_list (snd (kcall_rc K c s)) = ioeventfds_list s"
  "err_trigger (snd (kcall_rc K c s)) = err_trigger s"
  "req_trigger (snd (kcall_rc K c s)) = req_trigger s"
  "bar_mmap_supported (snd (kcall_rc K c s)) = bar_mmap_supported s"
  "regions (snd (kcall_rc K c s)) = regions s"
  "reset_works (snd (kcall_rc K c s)) = reset_works s"
  "needs_reset (snd (kcall_rc K c s)) = needs_reset s"
  "pci_saved_state (snd (kcall_rc K c s)) = pci_saved_state s"
  "reflck (snd (kcall_rc K c s)) = reflck s"
  "refcnt (snd (kcall_rc K c s)) = refcnt s"
  "dummy_resources_list (snd (kcall_rc K c s)) = dummy_resources_list s"
  "user_mem (snd (kcall_rc K c s)) = user_mem s"
  by (simp_all add: kcall_simps)

lemma kcall_fields [simp]:
  fixes s :: vfio_pci_device
  shows
  "pdev (snd (kcall K c s)) = pdev s" "barmap (snd (kcall K c s)) = barmap s"
  "pci_config_map (snd (kcall K c s)) = pci_config_map s"
  "vconfig (snd (kcall K c s)) = vconfig s" "msi_perm (snd (kcall K c s)) = msi_perm s"
  "ctx (snd (kcall K c s)) = ctx s" "num_ctx (snd (kcall K c s)) = num_ctx s"
  "irq_type (snd (kcall K c s)) = irq_type s" "msi_qmax (snd (kcall K c s)) = msi_qmax s"
  "msix_bar (snd (kcall K c s)) = msix_bar s" "msix_size (snd (kcall K c s)) = msix_size s"
  "msix_offset (snd (kcall K c s)) = msix_offset s" "rbar (snd (kcall K c s)) = rbar s"
  "pci_2_3 (snd (kcall K c s)) = pci_2_3 s" "virq_disabled (snd (kcall K c s)) = virq_disabled s"
  "extended_caps (snd (kcall K c s)) = extended_caps s"
  "bardirty (snd (kcall K c s)) = bardirty s" "has_vga (snd (kcall K c s)) = has_vga s"
  "nointx (snd (kcall K c s)) = nointx s" "ioeventfds_nr (snd (kcall K c s)) = ioeventfds_nr s"
  "ioeventfds_list (snd (kcall K c s)) = ioeventfds_list s"
  "err_trigger (snd (kcall K c s)) = err_trigger s"
  "req_trigger (snd (kcall K c s)) = req_trigger s" "bar_mmap_supported (snd (kcall K c s)) = bar_mmap_supported s"
  "regions (snd (kcall K c s)) = regions s"
  "reset_works (snd (kcall K c s)) = reset_works s"
  "needs_reset (snd (kcall K c s)) = needs_reset s"
  "pci_saved_state (snd (kcall K c s)) = pci_saved_state s"
  "reflck (snd (kcall K c s)) = reflck s"
  "refcnt (snd (kcall K c s)) = refcnt s"
  "dummy_resources_list (snd (kcall K c s)) = dummy_resources_list s"
  "user_mem (snd (kcall K c s)) = user_mem s"
  by (simp_all add: kcall_simps)

section \<open>Which calls were made\<close>

text \<open>\<open>emits P s s'\<close>: every call made between the states satisfies \<open>P\<close>.\<close>

definition emits :: "(kcall \<Rightarrow> bool) \<Rightarrow> vfio_pci_device \<Rightarrow> vfio_pci_device \<Rightarrow> bool" where
  "emits P s s' \<longleftrightarrow> extends s s' \<and> (\<forall>c \<in> set (calls s s'). P c)"

lemma emits_refl [simp]: "emits P s s"
  by (simp add: emits_def)

lemma emits_trans:
  assumes "emits P s s'" "emits P s' s''"
  shows "emits P s s''"
proof -
  from assms have ext: "extends s s'" "extends s' s''" by (simp_all add: emits_def)
  from assms show ?thesis using calls_trans [OF ext] extends_trans [OF ext] by (auto simp: emits_def)
qed

lemma emits_trace: "trace s' = trace s \<Longrightarrow> emits P s s'"
  by (simp add: emits_def extends_def calls_def new_events_def)

lemma emits_then [simp]:
  assumes "emits P s t" "P c"
  shows "emits P s (kcall_do K c t)" "emits P s (snd (kcall_rc K c t))" "emits P s (snd (kcall K c t))"
proof -
  have "emits P t (kcall_do K c t)" "emits P t (snd (kcall_rc K c t))" "emits P t (snd (kcall K c t))"
    using assms(2) by (simp_all add: emits_def extends_def calls_def new_events_def kcall_simps)
  then show "emits P s (kcall_do K c t)" "emits P s (snd (kcall_rc K c t))"
    "emits P s (snd (kcall K c t))" by (simp_all add: emits_trans [OF assms(1)])
qed

lemma emits_cong: "trace u = trace t \<Longrightarrow> emits P s u = emits P s t"
  by (simp add: emits_def extends_def calls_def new_events_def)

lemma emits_mono: "emits P s s' \<Longrightarrow> (\<And>c. P c \<Longrightarrow> Q c) \<Longrightarrow> emits Q s s'"
  by (auto simp: emits_def)

lemma emits_user_mem [simp]: "emits P s (t\<lparr>user_mem := m\<rparr>) = emits P s t"
  by (rule emits_cong) simp

section \<open>Region offsets\<close>

abbreviation (input) VFIO_PCI_OFFSET_SHIFT :: nat where "VFIO_PCI_OFFSET_SHIFT \<equiv> 40"

definition VFIO_PCI_OFFSET_TO_INDEX :: "int \<Rightarrow> int" where
  "VFIO_PCI_OFFSET_TO_INDEX off = drop_bit VFIO_PCI_OFFSET_SHIFT off"

definition VFIO_PCI_INDEX_TO_OFFSET :: "u64 \<Rightarrow> u64" where
  "VFIO_PCI_INDEX_TO_OFFSET index = push_bit VFIO_PCI_OFFSET_SHIFT index"

definition VFIO_PCI_OFFSET_MASK :: int where
  "VFIO_PCI_OFFSET_MASK = push_bit VFIO_PCI_OFFSET_SHIFT 1 - 1"

text \<open>The region part of a file offset is the offset modulo $2^{40}$, never negative.\<close>

lemma offset_mask_mod: "off AND VFIO_PCI_OFFSET_MASK = off mod 2 ^ VFIO_PCI_OFFSET_SHIFT"
proof -
  have "VFIO_PCI_OFFSET_MASK = mask VFIO_PCI_OFFSET_SHIFT"
    by (simp add: VFIO_PCI_OFFSET_MASK_def mask_eq_exp_minus_1 push_bit_eq_mult)
  then have "off AND VFIO_PCI_OFFSET_MASK = take_bit VFIO_PCI_OFFSET_SHIFT off"
    by (simp only: take_bit_eq_mask)
  then show ?thesis by (simp only: take_bit_eq_mod)
qed

lemma offset_split:
  "off = VFIO_PCI_OFFSET_TO_INDEX off * 2 ^ VFIO_PCI_OFFSET_SHIFT + (off AND VFIO_PCI_OFFSET_MASK)"
  by (simp add: offset_mask_mod VFIO_PCI_OFFSET_TO_INDEX_def drop_bit_eq_div)

end
