(* ===== verification/Intrs.thy ===== *)
theory Intrs
  imports Device
begin

text \<open>
  Interrupt handling: \<^verbatim>\<open>src/device/vfio_pci_intrs.c\<close>. A device relays one kind of interrupt at a time
  (\<open>irq_type\<close>): INTx with one context, MSI or MSI-X with one context per vector, or none. The result
  \<open>None\<close> is undefined behaviour of the C code: an access outside the context array or the ioctl
  data, a signal on a \<open>NULL\<close> eventfd context, or a name string freed twice.

  The data of an ioctl is the byte array the caller copied from the user. A failing allocation and
  every other answer of the kernel is an answer of the parameter \<open>K\<close>.
\<close>

section \<open>Contexts\<close>

definition ctx_upd :: "nat \<Rightarrow> (vfio_pci_irq_ctx \<Rightarrow> vfio_pci_irq_ctx) \<Rightarrow> vfio_pci_device \<Rightarrow> vfio_pci_device"
  where "ctx_upd i f s = s\<lparr>ctx := (ctx s)[i := f (ctx s ! i)]\<rparr>"

lemma ctx_upd_fields [simp]:
  "ctx (ctx_upd i f s) = (ctx s)[i := f (ctx s ! i)]"
  "pdev (ctx_upd i f s) = pdev s" "barmap (ctx_upd i f s) = barmap s"
  "pci_config_map (ctx_upd i f s) = pci_config_map s" "vconfig (ctx_upd i f s) = vconfig s"
  "msi_perm (ctx_upd i f s) = msi_perm s" "num_ctx (ctx_upd i f s) = num_ctx s"
  "irq_type (ctx_upd i f s) = irq_type s" "msi_qmax (ctx_upd i f s) = msi_qmax s"
  "msix_bar (ctx_upd i f s) = msix_bar s" "msix_size (ctx_upd i f s) = msix_size s"
  "msix_offset (ctx_upd i f s) = msix_offset s" "rbar (ctx_upd i f s) = rbar s"
  "pci_2_3 (ctx_upd i f s) = pci_2_3 s" "virq_disabled (ctx_upd i f s) = virq_disabled s"
  "extended_caps (ctx_upd i f s) = extended_caps s" "bardirty (ctx_upd i f s) = bardirty s"
  "has_vga (ctx_upd i f s) = has_vga s" "nointx (ctx_upd i f s) = nointx s"
  "ioeventfds_nr (ctx_upd i f s) = ioeventfds_nr s"
  "ioeventfds_list (ctx_upd i f s) = ioeventfds_list s"
  "err_trigger (ctx_upd i f s) = err_trigger s" "req_trigger (ctx_upd i f s) = req_trigger s"
  "bar_mmap_supported (ctx_upd i f s) = bar_mmap_supported s"
  "regions (ctx_upd i f s) = regions s"
  "reset_works (ctx_upd i f s) = reset_works s"
  "needs_reset (ctx_upd i f s) = needs_reset s"
  "pci_saved_state (ctx_upd i f s) = pci_saved_state s"
  "reflck (ctx_upd i f s) = reflck s"
  "refcnt (ctx_upd i f s) = refcnt s"
  "dummy_resources_list (ctx_upd i f s) = dummy_resources_list s"
  "user_mem (ctx_upd i f s) = user_mem s" "trace (ctx_upd i f s) = trace s"
  by (simp_all add: ctx_upd_def)

definition kfree_name :: "nat \<Rightarrow> vfio_pci_device \<Rightarrow> vfio_pci_device option" where
  "kfree_name i s =
     (if irq_name (ctx s ! i) then Some (ctx_upd i (\<lambda>c. c\<lparr>irq_name := False\<rparr>) s) else None)"

definition eventfd_signal :: "kernel \<Rightarrow> int option \<Rightarrow> vfio_pci_device \<Rightarrow> vfio_pci_device option" where
  "eventfd_signal K t s = map_option (\<lambda>t. kcall_do K (Evt (Eventfd_signal t)) s) t"

text \<open>\<^verbatim>\<open>vfio_virqfd_disable\<close> shuts the virqfd down and clears the pointer to it.\<close>

definition disable_unmask_virqfd :: "kernel \<Rightarrow> nat \<Rightarrow> vfio_pci_device \<Rightarrow> vfio_pci_device option" where
  "disable_unmask_virqfd K i s = do {
     c \<leftarrow> nth_opt (ctx s) i;
     let s = kcall_do K (Evt (Virqfd_disable (unmask_virqfd c))) s;
     Some (ctx_upd i (\<lambda>c. c\<lparr>unmask_virqfd := None\<rparr>) s) }"

definition disable_mask_virqfd :: "kernel \<Rightarrow> nat \<Rightarrow> vfio_pci_device \<Rightarrow> vfio_pci_device option" where
  "disable_mask_virqfd K i s = do {
     c \<leftarrow> nth_opt (ctx s) i;
     let s = kcall_do K (Evt (Virqfd_disable (mask_virqfd c))) s;
     Some (ctx_upd i (\<lambda>c. c\<lparr>mask_virqfd := None\<rparr>) s) }"

section \<open>INTx\<close>

definition vfio_send_intx_eventfd :: "kernel \<Rightarrow> vfio_pci_device \<Rightarrow> vfio_pci_device option" where
  "vfio_send_intx_eventfd K s =
     (if is_intx s \<and> \<not> virq_disabled s
      then do { c \<leftarrow> nth_opt (ctx s) 0; eventfd_signal K (trigger c) s }
      else Some s)"

definition vfio_pci_intx_mask :: "kernel \<Rightarrow> vfio_pci_device \<Rightarrow> vfio_pci_device option" where
  "vfio_pci_intx_mask K s =
     (if \<not> is_intx s then
        Some (if pci_2_3 s then kcall_do K (Irq (Pci_intx False)) s else s)
      else do {
        c \<leftarrow> nth_opt (ctx s) 0;
        if \<not> masked c then do {
          let s = (if pci_2_3 s then kcall_do K (Irq (Pci_intx False)) s
                   else kcall_do K (Irq (Disable_irq_nosync (pdev_irq (pdev s)))) s);
          Some (ctx_upd 0 (\<lambda>c. c\<lparr>masked := True\<rparr>) s)
        } else Some s })"

definition vfio_pci_intx_unmask_handler ::
    "kernel \<Rightarrow> vfio_pci_device \<Rightarrow> (int \<times> vfio_pci_device) option" where
  "vfio_pci_intx_unmask_handler K s =
     (if \<not> is_intx s then
        Some (0, if pci_2_3 s then kcall_do K (Irq (Pci_intx True)) s else s)
      else do {
        c \<leftarrow> nth_opt (ctx s) 0;
        if masked c \<and> \<not> virq_disabled s then do {
          let (ret, s) =
            (if pci_2_3 s then
               (let (rc, s) = kcall_rc K (Irq Check_and_unmask_intx) s in (if rc = 0 then 1 else 0, s))
             else (0, kcall_do K (Irq (Enable_irq (pdev_irq (pdev s)))) s));
          Some (ret, ctx_upd 0 (\<lambda>c. c\<lparr>masked := 0 < ret\<rparr>) s)
        } else Some (0, s) })"

definition vfio_pci_intx_unmask :: "kernel \<Rightarrow> vfio_pci_device \<Rightarrow> vfio_pci_device option" where
  "vfio_pci_intx_unmask K s = do {
     (ret, s) \<leftarrow> vfio_pci_intx_unmask_handler K s;
     if 0 < ret then vfio_send_intx_eventfd K s else Some s }"

text \<open>\<^verbatim>\<open>IRQ_NONE\<close> and \<^verbatim>\<open>IRQ_HANDLED\<close> are the values \<open>False\<close> and \<open>True\<close>.\<close>

definition vfio_intx_handler :: "kernel \<Rightarrow> vfio_pci_device \<Rightarrow> (bool \<times> vfio_pci_device) option" where
  "vfio_intx_handler K s = do {
     (ret, s) \<leftarrow>
       (if \<not> pci_2_3 s then do {
          let s = kcall_do K (Irq (Disable_irq_nosync (pdev_irq (pdev s)))) s;
          _ \<leftarrow> nth_opt (ctx s) 0;
          Some (True, ctx_upd 0 (\<lambda>c. c\<lparr>masked := True\<rparr>) s)
        } else do {
          c \<leftarrow> nth_opt (ctx s) 0;
          if masked c then Some (False, s)
          else (case kcall_rc K (Irq Check_and_mask_intx) s of (rc, s) \<Rightarrow>
            if rc \<noteq> 0 then Some (True, ctx_upd 0 (\<lambda>c. c\<lparr>masked := True\<rparr>) s)
            else Some (False, s)) });
     s \<leftarrow> (if ret then vfio_send_intx_eventfd K s else Some s);
     Some (ret, s) }"

definition vfio_intx_enable :: "kernel \<Rightarrow> vfio_pci_device \<Rightarrow> int \<times> vfio_pci_device" where
  "vfio_intx_enable K s =
     (if \<not> is_irq_none s then (- EINVAL, s)
      else if pdev_irq (pdev s) = 0 then (- ENODEV, s)
      else case kcall_rc K (Mem Alloc) s of (p, s) \<Rightarrow>
        if p = 0 then (- ENOMEM, s\<lparr>ctx := []\<rparr>)
        else
          let s = s\<lparr>ctx := [empty_irq_ctx\<lparr>masked := virq_disabled s\<rparr>], num_ctx := 1\<rparr>;
              s = (if pci_2_3 s then kcall_do K (Irq (Pci_intx (\<not> virq_disabled s))) s else s)
          in (0, s\<lparr>irq_type := VFIO_PCI_INTX_IRQ_INDEX\<rparr>))"

definition vfio_intx_set_signal ::
    "kernel \<Rightarrow> int \<Rightarrow> vfio_pci_device \<Rightarrow> (int \<times> vfio_pci_device) option" where
  "vfio_intx_set_signal K fd s = do {
     let irq = int (pdev_irq (pdev s));
     c \<leftarrow> nth_opt (ctx s) 0;
     s \<leftarrow> (case trigger c of
         None \<Rightarrow> Some s
       | Some t \<Rightarrow> do {
           let s = kcall_do K (Irq (Free_irq irq Cookie_vdev)) s;
           s \<leftarrow> kfree_name 0 s;
           let s = kcall_do K (Evt (Eventfd_ctx_put t)) s;
           Some (ctx_upd 0 (\<lambda>c. c\<lparr>trigger := None\<rparr>) s) });
     if fd < 0 then Some (0, s)
     else case kcall_rc K (Mem Alloc) s of (p, s) \<Rightarrow>
       if p = 0 then Some (- ENOMEM, ctx_upd 0 (\<lambda>c. c\<lparr>irq_name := False\<rparr>) s)
       else do {
         let s = ctx_upd 0 (\<lambda>c. c\<lparr>irq_name := True\<rparr>) s;
         let (t, s) = kcall_rc K (Evt (Eventfd_ctx_fdget fd)) s;
         if t < 0 then do { s \<leftarrow> kfree_name 0 s; Some (t, s) }
         else do {
           let s = ctx_upd 0 (\<lambda>c. c\<lparr>trigger := Some t\<rparr>) s;
           let (ret, s) = kcall_rc K (Irq (Request_irq irq (pci_2_3 s) Cookie_vdev)) s;
           if ret \<noteq> 0 then do {
             let s = ctx_upd 0 (\<lambda>c. c\<lparr>trigger := None\<rparr>) s;
             s \<leftarrow> kfree_name 0 s;
             Some (ret, kcall_do K (Evt (Eventfd_ctx_put t)) s)
           } else do {
             c \<leftarrow> nth_opt (ctx s) 0;
             Some (0, if \<not> pci_2_3 s \<and> masked c
                      then kcall_do K (Irq (Disable_irq_nosync (pdev_irq (pdev s)))) s
                      else s) } } } }"

definition vfio_intx_disable :: "kernel \<Rightarrow> vfio_pci_device \<Rightarrow> vfio_pci_device option" where
  "vfio_intx_disable K s = do {
     s \<leftarrow> disable_unmask_virqfd K 0 s;
     s \<leftarrow> disable_mask_virqfd K 0 s;
     (_, s) \<leftarrow> vfio_intx_set_signal K (- 1) s;
     Some (s\<lparr>irq_type := VFIO_PCI_NUM_IRQS, num_ctx := 0, ctx := []\<rparr>) }"

section \<open>MSI and MSI-X\<close>

definition vfio_msihandler :: "kernel \<Rightarrow> int \<Rightarrow> vfio_pci_device \<Rightarrow> bool \<times> vfio_pci_device" where
  "vfio_msihandler K t s = (True, kcall_do K (Evt (Eventfd_signal t)) s)"

text \<open>
  The number of vectors is the C \<open>int\<close> made from an unsigned sum. \<^verbatim>\<open>kcalloc\<close> refuses a negative
  count, whose size in bytes does not fit \<^verbatim>\<open>size_t\<close>.
\<close>

definition vfio_msi_enable ::
    "kernel \<Rightarrow> int \<Rightarrow> bool \<Rightarrow> vfio_pci_device \<Rightarrow> int \<times> vfio_pci_device" where
  "vfio_msi_enable K nvec msix s =
     (if \<not> is_irq_none s then (- EINVAL, s)
      else if nvec < 0 then (- ENOMEM, s\<lparr>ctx := []\<rparr>)
      else case kcall_rc K (Mem Alloc) s of (p, s) \<Rightarrow>
        if p = 0 then (- ENOMEM, s\<lparr>ctx := []\<rparr>)
        else case kcall_rc K (Irq (Alloc_irq_vectors 1 (nat nvec) msix)) s of (ret, s) \<Rightarrow>
          if ret < nvec then
            (ret, (if 0 < ret then kcall_do K (Irq Free_irq_vectors) s else s)\<lparr>ctx := []\<rparr>)
          else
            let s = s\<lparr>ctx := replicate (nat nvec) empty_irq_ctx, num_ctx := nat nvec,
                      irq_type := (if msix then VFIO_PCI_MSIX_IRQ_INDEX else VFIO_PCI_MSI_IRQ_INDEX)\<rparr>;
                s = (if \<not> msix
                     then s\<lparr>msi_qmax := word_of_int (int (fls K (unat (word_of_int (nvec * 2 - 1) :: u32))) - 1)\<rparr>
                     else s)
            in (0, s))"

definition vfio_msi_set_vector_signal ::
    "kernel \<Rightarrow> int \<Rightarrow> int \<Rightarrow> bool \<Rightarrow> vfio_pci_device \<Rightarrow> (int \<times> vfio_pci_device) option" where
  "vfio_msi_set_vector_signal K vector fd msix s =
     (if vector < 0 \<or> int (num_ctx s) \<le> vector then Some (- EINVAL, s)
      else do {
        let v = nat vector;
        let (irq, s) = kcall_rc K (Irq (Irq_vector v)) s;
        c \<leftarrow> nth_opt (ctx s) v;
        s \<leftarrow> (case trigger c of
            None \<Rightarrow> Some s
          | Some t \<Rightarrow> do {
              let s = kcall_do K (Irq (Free_irq irq (Cookie_eventfd t))) s;
              let s = kcall_do K (Irq (Bypass_unregister (case token c of None \<Rightarrow> 0 | Some u \<Rightarrow> u))) s;
              s \<leftarrow> kfree_name v s;
              let s = kcall_do K (Evt (Eventfd_ctx_put t)) s;
              Some (ctx_upd v (\<lambda>c. c\<lparr>trigger := None\<rparr>) s) });
        if fd < 0 then Some (0, s)
        else case kcall_rc K (Mem Alloc) s of (p, s) \<Rightarrow>
          if p = 0 then Some (- ENOMEM, ctx_upd v (\<lambda>c. c\<lparr>irq_name := False\<rparr>) s)
          else do {
            let s = ctx_upd v (\<lambda>c. c\<lparr>irq_name := True\<rparr>) s;
            let (t, s) = kcall_rc K (Evt (Eventfd_ctx_fdget fd)) s;
            if t < 0 then do { s \<leftarrow> kfree_name v s; Some (t, s) }
            else do {
              let s = (if msix then kcall_do K (Irq (Write_msi_msg irq))
                                      (kcall_do K (Irq (Get_cached_msi_msg irq)) s)
                       else s);
              let (ret, s) = kcall_rc K (Irq (Request_irq irq False (Cookie_eventfd t))) s;
              if ret \<noteq> 0 then do {
                s \<leftarrow> kfree_name v s;
                Some (ret, kcall_do K (Evt (Eventfd_ctx_put t)) s)
              } else do {
                let s = ctx_upd v (\<lambda>c. c\<lparr>token := Some t\<rparr>) s;
                let s = kcall_do K (Irq (Bypass_register t irq)) s;
                Some (0, ctx_upd v (\<lambda>c. c\<lparr>trigger := Some t\<rparr>) s) } } } })"

text \<open>
  The two loops of \<^verbatim>\<open>vfio_msi_set_block\<close>. \<open>fds\<close> is the ioctl data, an array of 32-bit signed file
  descriptors, or \<open>None\<close> for the \<open>NULL\<close> pointer. The first loop stops at the first error and
  returns the vector after the one that failed.
\<close>

definition s32_at :: "u8 list \<Rightarrow> nat \<Rightarrow> int option" where
  "s32_at data i = map_option sint (load data (4 * i) 4)"

fun msi_set_loop ::
    "kernel \<Rightarrow> nat \<Rightarrow> nat \<Rightarrow> int \<Rightarrow> u8 list option \<Rightarrow> bool \<Rightarrow> vfio_pci_device
      \<Rightarrow> (int \<times> int \<times> vfio_pci_device) option" where
  "msi_set_loop K 0 i j fds msix s = Some (0, j, s)"
| "msi_set_loop K (Suc n) i j fds msix s = do {
     fd \<leftarrow> (case fds of None \<Rightarrow> Some (- 1) | Some d \<Rightarrow> s32_at d i);
     (ret, s) \<leftarrow> vfio_msi_set_vector_signal K j fd msix s;
     if ret \<noteq> 0 then Some (ret, j + 1, s)
     else msi_set_loop K n (Suc i) (j + 1) fds msix s }"

fun msi_unset_loop ::
    "kernel \<Rightarrow> nat \<Rightarrow> int \<Rightarrow> bool \<Rightarrow> vfio_pci_device \<Rightarrow> vfio_pci_device option" where
  "msi_unset_loop K 0 j msix s = Some s"
| "msi_unset_loop K (Suc n) j msix s = do {
     (_, s) \<leftarrow> vfio_msi_set_vector_signal K j (- 1) msix s;
     msi_unset_loop K n (j - 1) msix s }"

definition vfio_msi_set_block ::
    "kernel \<Rightarrow> u32 \<Rightarrow> u32 \<Rightarrow> u8 list option \<Rightarrow> bool \<Rightarrow> vfio_pci_device
      \<Rightarrow> (int \<times> vfio_pci_device) option" where
  "vfio_msi_set_block K start count fds msix s =
     (if num_ctx s \<le> unat start \<or> num_ctx s < unat (start + count) then Some (- EINVAL, s)
      else do {
        (ret, j, s) \<leftarrow> msi_set_loop K (unat count) 0 (uint start) fds msix s;
        if ret \<noteq> 0 then do {
          s \<leftarrow> msi_unset_loop K (nat (j - uint start)) (j - 1) msix s;
          Some (ret, s)
        } else Some (ret, s) })"

fun msi_virqfd_loop :: "kernel \<Rightarrow> nat \<Rightarrow> nat \<Rightarrow> vfio_pci_device \<Rightarrow> vfio_pci_device option" where
  "msi_virqfd_loop K 0 i s = Some s"
| "msi_virqfd_loop K (Suc n) i s = do {
     s \<leftarrow> disable_unmask_virqfd K i s;
     s \<leftarrow> disable_mask_virqfd K i s;
     msi_virqfd_loop K n (Suc i) s }"

definition vfio_msi_disable :: "kernel \<Rightarrow> bool \<Rightarrow> vfio_pci_device \<Rightarrow> vfio_pci_device option" where
  "vfio_msi_disable K msix s = do {
     s \<leftarrow> msi_virqfd_loop K (num_ctx s) 0 s;
     (_, s) \<leftarrow> vfio_msi_set_block K 0 (word_of_nat (num_ctx s)) None msix s;
     let s = kcall_do K (Irq Free_irq_vectors) s;
     let s = (if nointx s then kcall_do K (Irq (Pci_intx False)) s else s);
     Some (s\<lparr>irq_type := VFIO_PCI_NUM_IRQS, num_ctx := 0, ctx := []\<rparr>) }"

section \<open>The ioctl\<close>

definition u8_at :: "u8 list \<Rightarrow> nat \<Rightarrow> u8 option" where
  "u8_at data i = nth_opt data i"

definition vfio_pci_set_intx_unmask ::
    "kernel \<Rightarrow> nat \<Rightarrow> u32 \<Rightarrow> u32 \<Rightarrow> u32 \<Rightarrow> u8 list \<Rightarrow> vfio_pci_device \<Rightarrow> (int \<times> vfio_pci_device) option" where
  "vfio_pci_set_intx_unmask K index start count flags data s =
     (if \<not> is_intx s \<or> start \<noteq> 0 \<or> count \<noteq> 1 then Some (- EINVAL, s)
      else if flags AND VFIO_IRQ_SET_DATA_NONE \<noteq> 0 then do {
        s \<leftarrow> vfio_pci_intx_unmask K s;
        Some (0, s)
      } else if flags AND VFIO_IRQ_SET_DATA_BOOL \<noteq> 0 then do {
        unmask \<leftarrow> u8_at data 0;
        s \<leftarrow> (if unmask \<noteq> 0 then vfio_pci_intx_unmask K s else Some s);
        Some (0, s)
      } else if flags AND VFIO_IRQ_SET_DATA_EVENTFD \<noteq> 0 then do {
        fd \<leftarrow> s32_at data 0;
        if 0 \<le> fd then do {
          _ \<leftarrow> nth_opt (ctx s) 0;
          let ((ret, h), s) = kcall K (Evt (Virqfd_enable Virqfd_intx_unmask fd)) s;
          Some (ret, if ret = 0 then ctx_upd 0 (\<lambda>c. c\<lparr>unmask_virqfd := Some (uint h)\<rparr>) s else s)
        } else do {
          s \<leftarrow> disable_unmask_virqfd K 0 s;
          Some (0, s) }
      } else Some (0, s))"

definition vfio_pci_set_intx_mask ::
    "kernel \<Rightarrow> nat \<Rightarrow> u32 \<Rightarrow> u32 \<Rightarrow> u32 \<Rightarrow> u8 list \<Rightarrow> vfio_pci_device \<Rightarrow> (int \<times> vfio_pci_device) option" where
  "vfio_pci_set_intx_mask K index start count flags data s =
     (if \<not> is_intx s \<or> start \<noteq> 0 \<or> count \<noteq> 1 then Some (- EINVAL, s)
      else if flags AND VFIO_IRQ_SET_DATA_NONE \<noteq> 0 then do {
        s \<leftarrow> vfio_pci_intx_mask K s;
        Some (0, s)
      } else if flags AND VFIO_IRQ_SET_DATA_BOOL \<noteq> 0 then do {
        m \<leftarrow> u8_at data 0;
        s \<leftarrow> (if m \<noteq> 0 then vfio_pci_intx_mask K s else Some s);
        Some (0, s)
      } else if flags AND VFIO_IRQ_SET_DATA_EVENTFD \<noteq> 0 then Some (- ENOTTY, s)
      else Some (0, s))"

definition vfio_pci_set_intx_trigger ::
    "kernel \<Rightarrow> nat \<Rightarrow> u32 \<Rightarrow> u32 \<Rightarrow> u32 \<Rightarrow> u8 list \<Rightarrow> vfio_pci_device \<Rightarrow> (int \<times> vfio_pci_device) option" where
  "vfio_pci_set_intx_trigger K index start count flags data s =
     (if is_intx s \<and> count = 0 \<and> flags AND VFIO_IRQ_SET_DATA_NONE \<noteq> 0 then do {
        s \<leftarrow> vfio_intx_disable K s;
        Some (0, s)
      } else if \<not> (is_intx s \<or> is_irq_none s) \<or> start \<noteq> 0 \<or> count \<noteq> 1 then Some (- EINVAL, s)
      else if flags AND VFIO_IRQ_SET_DATA_EVENTFD \<noteq> 0 then do {
        fd \<leftarrow> s32_at data 0;
        if is_intx s then vfio_intx_set_signal K fd s
        else case vfio_intx_enable K s of (ret, s) \<Rightarrow>
          if ret \<noteq> 0 then Some (ret, s)
          else do {
            (ret, s) \<leftarrow> vfio_intx_set_signal K fd s;
            s \<leftarrow> (if ret \<noteq> 0 then vfio_intx_disable K s else Some s);
            Some (ret, s) }
      } else if \<not> is_intx s then Some (- EINVAL, s)
      else if flags AND VFIO_IRQ_SET_DATA_NONE \<noteq> 0 then do {
        s \<leftarrow> vfio_send_intx_eventfd K s;
        Some (0, s)
      } else if flags AND VFIO_IRQ_SET_DATA_BOOL \<noteq> 0 then do {
        t \<leftarrow> u8_at data 0;
        s \<leftarrow> (if t \<noteq> 0 then vfio_send_intx_eventfd K s else Some s);
        Some (0, s)
      } else Some (0, s))"

text \<open>The loopback loop of \<^verbatim>\<open>vfio_pci_set_msi_trigger\<close>, over the vectors given.\<close>

fun msi_loopback ::
    "kernel \<Rightarrow> nat list \<Rightarrow> nat \<Rightarrow> u32 \<Rightarrow> u8 list \<Rightarrow> vfio_pci_device \<Rightarrow> vfio_pci_device option" where
  "msi_loopback K [] start flags data s = Some s"
| "msi_loopback K (i # is) start flags data s = do {
     c \<leftarrow> nth_opt (ctx s) i;
     s \<leftarrow> (if trigger c = None then Some s
           else if flags AND VFIO_IRQ_SET_DATA_NONE \<noteq> 0 then eventfd_signal K (trigger c) s
           else if flags AND VFIO_IRQ_SET_DATA_BOOL \<noteq> 0 then do {
             b \<leftarrow> u8_at data (i - start);
             if b \<noteq> 0 then eventfd_signal K (trigger c) s else Some s
           } else Some s);
     msi_loopback K is start flags data s }"

definition vfio_pci_set_msi_trigger ::
    "kernel \<Rightarrow> nat \<Rightarrow> u32 \<Rightarrow> u32 \<Rightarrow> u32 \<Rightarrow> u8 list \<Rightarrow> vfio_pci_device \<Rightarrow> (int \<times> vfio_pci_device) option" where
  "vfio_pci_set_msi_trigger K index start count flags data s =
     (let msix = (index = VFIO_PCI_MSIX_IRQ_INDEX) in
      if irq_is s index \<and> count = 0 \<and> flags AND VFIO_IRQ_SET_DATA_NONE \<noteq> 0 then do {
        s \<leftarrow> vfio_msi_disable K msix s;
        Some (0, s)
      } else if \<not> (irq_is s index \<or> is_irq_none s) then Some (- EINVAL, s)
      else if flags AND VFIO_IRQ_SET_DATA_EVENTFD \<noteq> 0 then
        (if irq_type s = index then vfio_msi_set_block K start count (Some data) msix s
         else case vfio_msi_enable K (sint (start + count)) msix s of (ret, s) \<Rightarrow>
           if ret \<noteq> 0 then Some (ret, s)
           else do {
             (ret, s) \<leftarrow> vfio_msi_set_block K start count (Some data) msix s;
             s \<leftarrow> (if ret \<noteq> 0 then vfio_msi_disable K msix s else Some s);
             Some (ret, s) })
      else if \<not> irq_is s index \<or> num_ctx s < unat (start + count) then Some (- EINVAL, s)
      else do {
        s \<leftarrow> msi_loopback K [unat start ..< unat (start + count)] (unat start) flags data s;
        Some (0, s) })"

text \<open>The pointer argument \<^verbatim>\<open>ctx\<close> of this function is the field passed in and the field returned.\<close>

definition vfio_pci_set_ctx_trigger_single ::
    "kernel \<Rightarrow> int option \<Rightarrow> u32 \<Rightarrow> u32 \<Rightarrow> u8 list \<Rightarrow> vfio_pci_device
      \<Rightarrow> (int \<times> int option \<times> vfio_pci_device) option" where
  "vfio_pci_set_ctx_trigger_single K c count flags data s =
     (if flags AND VFIO_IRQ_SET_DATA_NONE \<noteq> 0 then
        (case c of
           Some t \<Rightarrow>
             if count \<noteq> 0 then Some (0, c, kcall_do K (Evt (Eventfd_signal t)) s)
             else Some (0, None, kcall_do K (Evt (Eventfd_ctx_put t)) s)
         | None \<Rightarrow> Some (- EINVAL, c, s))
      else if flags AND VFIO_IRQ_SET_DATA_BOOL \<noteq> 0 then
        (if count = 0 then Some (- EINVAL, c, s)
         else do {
           b \<leftarrow> u8_at data 0;
           Some (0, c, case c of
               Some t \<Rightarrow> if b \<noteq> 0 then kcall_do K (Evt (Eventfd_signal t)) s else s
             | None \<Rightarrow> s) })
      else if flags AND VFIO_IRQ_SET_DATA_EVENTFD \<noteq> 0 then
        (if count = 0 then Some (- EINVAL, c, s)
         else do {
           fd \<leftarrow> s32_at data 0;
           if fd = - 1 then
             Some (0, None, case c of Some t \<Rightarrow> kcall_do K (Evt (Eventfd_ctx_put t)) s | None \<Rightarrow> s)
           else if 0 \<le> fd then
             (case kcall_rc K (Evt (Eventfd_ctx_fdget fd)) s of (e, s) \<Rightarrow>
                if e < 0 then Some (e, c, s)
                else Some (0, Some e,
                  case c of Some t \<Rightarrow> kcall_do K (Evt (Eventfd_ctx_put t)) s | None \<Rightarrow> s))
           else Some (0, c, s) })
      else Some (- EINVAL, c, s))"

definition vfio_pci_set_err_trigger ::
    "kernel \<Rightarrow> nat \<Rightarrow> u32 \<Rightarrow> u32 \<Rightarrow> u32 \<Rightarrow> u8 list \<Rightarrow> vfio_pci_device \<Rightarrow> (int \<times> vfio_pci_device) option" where
  "vfio_pci_set_err_trigger K index start count flags data s =
     (if index \<noteq> VFIO_PCI_ERR_IRQ_INDEX \<or> start \<noteq> 0 \<or> 1 < count then Some (- EINVAL, s)
      else do {
        (ret, c, s) \<leftarrow> vfio_pci_set_ctx_trigger_single K (err_trigger s) count flags data s;
        Some (ret, s\<lparr>err_trigger := c\<rparr>) })"

definition vfio_pci_set_req_trigger ::
    "kernel \<Rightarrow> nat \<Rightarrow> u32 \<Rightarrow> u32 \<Rightarrow> u32 \<Rightarrow> u8 list \<Rightarrow> vfio_pci_device \<Rightarrow> (int \<times> vfio_pci_device) option" where
  "vfio_pci_set_req_trigger K index start count flags data s =
     (if index \<noteq> VFIO_PCI_REQ_IRQ_INDEX \<or> start \<noteq> 0 \<or> 1 < count then Some (- EINVAL, s)
      else do {
        (ret, c, s) \<leftarrow> vfio_pci_set_ctx_trigger_single K (req_trigger s) count flags data s;
        Some (ret, s\<lparr>req_trigger := c\<rparr>) })"

text \<open>The function pointer \<^verbatim>\<open>func\<close> that the ioctl selects, \<open>None\<close> for \<open>NULL\<close>.\<close>

datatype irq_func = Set_intx_mask | Set_intx_unmask | Set_intx_trigger | Set_msi_trigger
  | Set_err_trigger | Set_req_trigger

definition irq_ioctl_func :: "u32 \<Rightarrow> nat \<Rightarrow> vfio_pci_device \<Rightarrow> irq_func option" where
  "irq_ioctl_func flags index s =
     (let action = flags AND VFIO_IRQ_SET_ACTION_TYPE_MASK in
      if index = VFIO_PCI_INTX_IRQ_INDEX then
        (if action = VFIO_IRQ_SET_ACTION_MASK then Some Set_intx_mask
         else if action = VFIO_IRQ_SET_ACTION_UNMASK then Some Set_intx_unmask
         else if action = VFIO_IRQ_SET_ACTION_TRIGGER then Some Set_intx_trigger
         else None)
      else if index = VFIO_PCI_MSI_IRQ_INDEX \<or> index = VFIO_PCI_MSIX_IRQ_INDEX then
        (if action = VFIO_IRQ_SET_ACTION_TRIGGER then Some Set_msi_trigger else None)
      else if index = VFIO_PCI_ERR_IRQ_INDEX then
        (if action = VFIO_IRQ_SET_ACTION_TRIGGER \<and> is_pcie (pdev s) then Some Set_err_trigger
         else None)
      else if index = VFIO_PCI_REQ_IRQ_INDEX then
        (if action = VFIO_IRQ_SET_ACTION_TRIGGER then Some Set_req_trigger else None)
      else None)"

definition vfio_pci_set_irqs_ioctl ::
    "kernel \<Rightarrow> u32 \<Rightarrow> nat \<Rightarrow> u32 \<Rightarrow> u32 \<Rightarrow> u8 list \<Rightarrow> vfio_pci_device \<Rightarrow> (int \<times> vfio_pci_device) option" where
  "vfio_pci_set_irqs_ioctl K flags index start count data s =
     (case irq_ioctl_func flags index s of
        None \<Rightarrow> Some (- ENOTTY, s)
      | Some Set_intx_mask \<Rightarrow> vfio_pci_set_intx_mask K index start count flags data s
      | Some Set_intx_unmask \<Rightarrow> vfio_pci_set_intx_unmask K index start count flags data s
      | Some Set_intx_trigger \<Rightarrow> vfio_pci_set_intx_trigger K index start count flags data s
      | Some Set_msi_trigger \<Rightarrow> vfio_pci_set_msi_trigger K index start count flags data s
      | Some Set_err_trigger \<Rightarrow> vfio_pci_set_err_trigger K index start count flags data s
      | Some Set_req_trigger \<Rightarrow> vfio_pci_set_req_trigger K index start count flags data s)"

end
