(* ===== verification/Intrs_Inv.thy ===== *)
theory Intrs_Inv
  imports Intrs
begin

text \<open>
  What the interrupt code keeps true. \<open>irq_inv\<close> ties the context array to the kind of interrupt;
  \<open>balanced\<close> is the resource account: for every eventfd context the references taken
  (\<^verbatim>\<open>eventfd_ctx_fdget\<close>) minus those dropped (\<^verbatim>\<open>eventfd_ctx_put\<close>) are the places that hold it, and for
  every cookie the interrupt lines requested minus those freed are the armed contexts. Both are
  sums over the trace of kernel calls.
\<close>

section \<open>Invariant and account\<close>

definition ctx_ok :: "vfio_pci_irq_ctx \<Rightarrow> bool" where
  "ctx_ok c \<longleftrightarrow> (irq_name c \<longleftrightarrow> trigger c \<noteq> None)"

definition irq_inv :: "vfio_pci_device \<Rightarrow> bool" where
  "irq_inv s \<longleftrightarrow>
     irq_type s \<in> {VFIO_PCI_INTX_IRQ_INDEX, VFIO_PCI_MSI_IRQ_INDEX, VFIO_PCI_MSIX_IRQ_INDEX,
                   VFIO_PCI_NUM_IRQS} \<and>
     length (ctx s) = num_ctx s \<and> num_ctx s < 2 ^ 31 \<and>
     (is_intx s \<longrightarrow> num_ctx s = 1) \<and> (is_irq_none s \<longrightarrow> num_ctx s = 0) \<and>
     (\<forall>c \<in> set (ctx s). ctx_ok c)"

fun ref_delta :: "int \<Rightarrow> kevent \<Rightarrow> int" where
  "ref_delta t (Evt (Eventfd_ctx_fdget fd), rc, v) = of_bool (0 \<le> rc \<and> rc = t)"
| "ref_delta t (Evt (Eventfd_ctx_put u), r) = - of_bool (u = t)"
| "ref_delta t _ = 0"

fun line_delta :: "irq_cookie \<Rightarrow> kevent \<Rightarrow> int" where
  "line_delta k (Irq (Request_irq irq shared k'), rc, v) = of_bool (rc = 0 \<and> k' = k)"
| "line_delta k (Irq (Free_irq irq k'), r) = - of_bool (k' = k)"
| "line_delta k _ = 0"

definition refs :: "int \<Rightarrow> kevent list \<Rightarrow> int" where
  "refs t tr = (\<Sum>e\<leftarrow>tr. ref_delta t e)"

definition lines :: "irq_cookie \<Rightarrow> kevent list \<Rightarrow> int" where
  "lines k tr = (\<Sum>e\<leftarrow>tr. line_delta k e)"

definition ctx_refs :: "int \<Rightarrow> vfio_pci_irq_ctx list \<Rightarrow> int" where
  "ctx_refs t cs = (\<Sum>c\<leftarrow>cs. of_bool (trigger c = Some t))"

definition armed :: "vfio_pci_irq_ctx list \<Rightarrow> int" where
  "armed cs = (\<Sum>c\<leftarrow>cs. of_bool (trigger c \<noteq> None))"

definition held_refs :: "int \<Rightarrow> vfio_pci_device \<Rightarrow> int" where
  "held_refs t s = ctx_refs t (ctx s) + of_bool (err_trigger s = Some t) + of_bool (req_trigger s = Some t)"

definition held_lines :: "irq_cookie \<Rightarrow> vfio_pci_device \<Rightarrow> int" where
  "held_lines k s =
     (case k of
        Cookie_vdev \<Rightarrow> if is_intx s then armed (ctx s) else 0
      | Cookie_eventfd t \<Rightarrow> if is_intx s then 0 else ctx_refs t (ctx s))"

definition balanced :: "vfio_pci_device \<Rightarrow> bool" where
  "balanced s \<longleftrightarrow> (\<forall>t. refs t (trace s) = held_refs t s) \<and> (\<forall>k. lines k (trace s) = held_lines k s)"

section \<open>The account of single calls and updates\<close>

lemma refs_Cons [simp]: "refs t (e # tr) = ref_delta t e + refs t tr"
  by (simp add: refs_def)

lemma lines_Cons [simp]: "lines k (e # tr) = line_delta k e + lines k tr"
  by (simp add: lines_def)

definition quiet_call :: "kcall \<Rightarrow> bool" where
  "quiet_call c \<longleftrightarrow> (\<forall>t r. ref_delta t (c, r) = 0) \<and> (\<forall>k r. line_delta k (c, r) = 0)"

lemma quiet_calls [simp]:
  "quiet_call (Irq (Pci_intx b))" "quiet_call (Irq (Disable_irq_nosync n))"
  "quiet_call (Irq (Enable_irq n))" "quiet_call (Irq Check_and_mask_intx)"
  "quiet_call (Irq Check_and_unmask_intx)" "quiet_call (Irq (Alloc_irq_vectors m n b))"
  "quiet_call (Irq Free_irq_vectors)" "quiet_call (Irq (Irq_vector n))"
  "quiet_call (Irq (Get_cached_msi_msg i))" "quiet_call (Irq (Write_msi_msg i))"
  "quiet_call (Irq (Bypass_register t i))" "quiet_call (Irq (Bypass_unregister t))"
  "quiet_call (Evt (Eventfd_signal t))" "quiet_call (Evt (Virqfd_enable vk t))"
  "quiet_call (Evt (Virqfd_disable v))" "quiet_call (Mem mc)"
  by (simp_all add: quiet_call_def)

lemma quiet_callD: "quiet_call c \<Longrightarrow> ref_delta t (c, r) = 0" "quiet_call c \<Longrightarrow> line_delta k (c, r) = 0"
  unfolding quiet_call_def by blast+

lemma account_quiet [simp]:
  assumes "quiet_call c"
  shows "refs t (trace (kcall_do K c s)) = refs t (trace s)"
    "lines k (trace (kcall_do K c s)) = lines k (trace s)"
    "refs t (trace (snd (kcall_rc K c s))) = refs t (trace s)"
    "lines k (trace (snd (kcall_rc K c s))) = lines k (trace s)"
    "refs t (trace (snd (kcall K c s))) = refs t (trace s)"
    "lines k (trace (snd (kcall K c s))) = lines k (trace s)"
  using quiet_callD [OF assms] by (simp_all add: kcall_simps)

lemma account_fdget [simp]:
  "refs t (trace (snd (kcall_rc K (Evt (Eventfd_ctx_fdget fd)) s))) =
     of_bool (0 \<le> fst (kcall_rc K (Evt (Eventfd_ctx_fdget fd)) s) \<and>
              fst (kcall_rc K (Evt (Eventfd_ctx_fdget fd)) s) = t) + refs t (trace s)"
  "lines k (trace (snd (kcall_rc K (Evt (Eventfd_ctx_fdget fd)) s))) = lines k (trace s)"
  by (cases "respond K (trace s) (Evt (Eventfd_ctx_fdget fd))"; simp add: kcall_simps)+

lemma account_put [simp]:
  "refs t (trace (kcall_do K (Evt (Eventfd_ctx_put u)) s)) = refs t (trace s) - of_bool (u = t)"
  "lines k (trace (kcall_do K (Evt (Eventfd_ctx_put u)) s)) = lines k (trace s)"
  by (simp_all add: kcall_simps)

lemma account_request [simp]:
  "refs t (trace (snd (kcall_rc K (Irq (Request_irq i sh c)) s))) = refs t (trace s)"
  "lines k (trace (snd (kcall_rc K (Irq (Request_irq i sh c)) s))) =
     of_bool (fst (kcall_rc K (Irq (Request_irq i sh c)) s) = 0 \<and> c = k) + lines k (trace s)"
  by (cases "respond K (trace s) (Irq (Request_irq i sh c))"; simp add: kcall_simps)+

lemma account_free [simp]:
  "refs t (trace (kcall_do K (Irq (Free_irq i c)) s)) = refs t (trace s)"
  "lines k (trace (kcall_do K (Irq (Free_irq i c)) s)) = lines k (trace s) - of_bool (c = k)"
  by (simp_all add: kcall_simps)

lemma ctx_refs_simps [simp]:
  "ctx_refs t [] = 0" "ctx_refs t (c # cs) = of_bool (trigger c = Some t) + ctx_refs t cs"
  by (simp_all add: ctx_refs_def)

lemma armed_simps [simp]:
  "armed [] = 0" "armed (c # cs) = of_bool (trigger c \<noteq> None) + armed cs"
  by (simp_all add: armed_def)

lemma ctx_refs_update:
  "i < length cs \<Longrightarrow>
     ctx_refs t (cs[i := c]) = ctx_refs t cs - of_bool (trigger (cs ! i) = Some t) + of_bool (trigger c = Some t)"
  by (simp add: ctx_refs_def sum_list_update_int)

lemma ctx_refs_replicate [simp]: "ctx_refs t (replicate n empty_irq_ctx) = 0"
  by (induction n) (auto simp: empty_irq_ctx_def)

lemma ctx_refs_unarmed: "\<forall>c \<in> set cs. trigger c = None \<Longrightarrow> ctx_refs t cs = 0"
  by (induction cs) auto

lemma empty_irq_ctx_simps [simp]:
  "trigger empty_irq_ctx = None" "irq_name empty_irq_ctx = False" "ctx_ok empty_irq_ctx"
  by (simp_all add: empty_irq_ctx_def ctx_ok_def)

lemma intx_ctx: "irq_inv s \<Longrightarrow> is_intx s \<Longrightarrow> \<exists>c. ctx s = [c] \<and> ctx_ok c \<and> num_ctx s = 1"
  by (auto simp: irq_inv_def length_Suc_conv)

section \<open>INTx\<close>

lemma held_lines_intx: "is_intx s \<Longrightarrow> held_lines k s = (if k = Cookie_vdev then armed (ctx s) else 0)"
  by (cases k) (simp_all add: held_lines_def)

lemma held_lines_msi:
  "\<not> is_intx s \<Longrightarrow> held_lines k s = (case k of Cookie_vdev \<Rightarrow> 0 | Cookie_eventfd t \<Rightarrow> ctx_refs t (ctx s))"
  by (cases k) (simp_all add: held_lines_def)

lemmas irq_simps = case_prod_unfold kfree_name_def nth_opt_def Let_def

lemma intx_set_signal_post:
  assumes inv: "irq_inv s" and intx: "is_intx s" and ret: "vfio_intx_set_signal K fd s = Some (r, s')"
  shows "irq_inv s' \<and> is_intx s'" and "balanced s \<Longrightarrow> balanced s'"
    and "fd < 0 \<Longrightarrow> armed (ctx s') = 0" and "0 \<le> fd \<Longrightarrow> r = 0 \<Longrightarrow> armed (ctx s') = 1"
proof -
  obtain c where c: "ctx s = [c]" "ctx_ok c" "num_ctx s = 1" using intx_ctx [OF inv intx] by auto
  note defs = vfio_intx_set_signal_def irq_simps irq_inv_def ctx_ok_def
  show "irq_inv s' \<and> is_intx s'" using inv intx c ret
    by (cases "trigger c") (auto simp: defs split: if_splits)
  show "fd < 0 \<Longrightarrow> armed (ctx s') = 0" using inv intx c ret
    by (cases "trigger c") (auto simp: defs split: if_splits)
  show "0 \<le> fd \<Longrightarrow> r = 0 \<Longrightarrow> armed (ctx s') = 1" using inv intx c ret
    by (cases "trigger c") (auto simp: defs split: if_splits)
  show "balanced s \<Longrightarrow> balanced s'" using inv intx c ret
    by (cases "trigger c")
      (auto simp: defs balanced_def held_refs_def held_lines_intx split: if_splits)
qed

lemma intx_set_signal_defined:
  assumes inv: "irq_inv s" and intx: "is_intx s"
  shows "\<exists>r s'. vfio_intx_set_signal K fd s = Some (r, s')"
proof -
  obtain c where c: "ctx s = [c]" "ctx_ok c" "num_ctx s = 1" using intx_ctx [OF inv intx] by auto
  then show ?thesis
    by (cases "trigger c") (auto simp: vfio_intx_set_signal_def irq_simps ctx_ok_def)
qed

text \<open>
  The relay functions change the trace and the \<open>masked\<close> flag only. \<open>quiet s s'\<close> says that much:
  the account and the invariant do not see the difference.
\<close>

definition quiet :: "vfio_pci_device \<Rightarrow> vfio_pci_device \<Rightarrow> bool" where
  "quiet s s' \<longleftrightarrow>
     irq_type s' = irq_type s \<and> num_ctx s' = num_ctx s \<and>
     map trigger (ctx s') = map trigger (ctx s) \<and> map irq_name (ctx s') = map irq_name (ctx s) \<and>
     err_trigger s' = err_trigger s \<and> req_trigger s' = req_trigger s \<and>
     (\<forall>t. refs t (trace s') = refs t (trace s)) \<and> (\<forall>k. lines k (trace s') = lines k (trace s))"

lemma quiet_refl [simp]: "quiet s s"
  by (simp add: quiet_def)

lemma quiet_trans: "quiet s s' \<Longrightarrow> quiet s' s'' \<Longrightarrow> quiet s s''"
  by (simp add: quiet_def)

lemma ctx_refs_map: "ctx_refs t cs = (\<Sum>x\<leftarrow>map trigger cs. of_bool (x = Some t))"
  by (simp add: ctx_refs_def o_def)

lemma armed_map: "armed cs = (\<Sum>x\<leftarrow>map trigger cs. of_bool (x \<noteq> None))"
  by (simp add: armed_def o_def)

lemma ctx_ok_map:
  "(\<forall>c \<in> set cs. ctx_ok c) \<longleftrightarrow> map irq_name cs = map (\<lambda>x. x \<noteq> None) (map trigger cs)"
  by (simp add: ctx_ok_def)

lemma quiet_irq_inv:
  assumes "quiet s s'" "irq_inv s"
  shows "irq_inv s'"
proof -
  have "length (ctx s') = length (ctx s)" using assms(1) by (auto simp: quiet_def dest: map_eq_imp_length_eq)
  with assms show ?thesis by (simp add: irq_inv_def quiet_def ctx_ok_map)
qed

lemma quiet_held:
  assumes "quiet s s'"
  shows "held_refs t s' = held_refs t s" and "held_lines k s' = held_lines k s"
proof -
  from assms have "ctx_refs u (ctx s') = ctx_refs u (ctx s)" and "armed (ctx s') = armed (ctx s)" for u
    unfolding ctx_refs_map armed_map quiet_def by metis+
  with assms show "held_refs t s' = held_refs t s" and "held_lines k s' = held_lines k s"
    by (cases k; simp add: held_refs_def held_lines_def quiet_def)+
qed

lemma quiet_balanced: "quiet s s' \<Longrightarrow> balanced s \<Longrightarrow> balanced s'"
  by (simp add: balanced_def quiet_held) (simp add: quiet_def)

lemma quiet_armed: "quiet s s' \<Longrightarrow> armed (ctx s') = armed (ctx s)"
  unfolding armed_map quiet_def by metis

lemma quiet_ctx_upd:
  assumes "\<And>c. trigger (f c) = trigger c" "\<And>c. irq_name (f c) = irq_name c"
  shows "quiet s (ctx_upd i f s)"
proof (cases "i < length (ctx s)")
  case True
  with assms show ?thesis
    by (simp add: quiet_def ctx_upd_def map_update list_update_same_conv)
next
  case False
  then show ?thesis by (simp add: quiet_def ctx_upd_def list_update_beyond)
qed

lemma quiet_kcall: "quiet_call c \<Longrightarrow> quiet s (kcall_do K c s)"
  by (simp add: quiet_def)

lemma quiet_kcall_rc: "quiet_call c \<Longrightarrow> quiet s (snd (kcall_rc K c s))"
  by (simp add: quiet_def)

lemma quiet_kcall_full: "quiet_call c \<Longrightarrow> quiet s (snd (kcall K c s))"
  by (simp add: quiet_def)

lemmas quiet_intros = quiet_refl quiet_kcall quiet_kcall_rc quiet_kcall_full quiet_ctx_upd

lemma quiet_send: "vfio_send_intx_eventfd K s = Some s' \<Longrightarrow> quiet s s'"
  by (auto simp: vfio_send_intx_eventfd_def eventfd_signal_def bind_eq_Some_conv quiet_kcall
      split: if_splits)

lemma quiet_mask: "vfio_pci_intx_mask K s = Some s' \<Longrightarrow> quiet s s'"
  by (auto simp: vfio_pci_intx_mask_def bind_eq_Some_conv Let_def
      intro!: quiet_trans [OF quiet_kcall quiet_ctx_upd] quiet_kcall split: if_splits)

lemma quiet_unmask_handler: "vfio_pci_intx_unmask_handler K s = Some (r, s') \<Longrightarrow> quiet s s'"
  by (auto simp: vfio_pci_intx_unmask_handler_def bind_eq_Some_conv Let_def case_prod_unfold
      intro!: quiet_trans [OF quiet_kcall quiet_ctx_upd] quiet_trans [OF quiet_kcall_rc quiet_ctx_upd]
        quiet_kcall split: if_splits)

lemma quiet_unmask: "vfio_pci_intx_unmask K s = Some s' \<Longrightarrow> quiet s s'"
  by (auto simp: vfio_pci_intx_unmask_def bind_eq_Some_conv split: if_splits
      dest: quiet_unmask_handler quiet_send intro: quiet_trans)

lemma quiet_handler: "vfio_intx_handler K s = Some (r, s') \<Longrightarrow> quiet s s'"
  by (auto simp: vfio_intx_handler_def bind_eq_Some_conv Let_def case_prod_unfold
      intro!: quiet_trans [OF quiet_kcall quiet_ctx_upd] quiet_trans [OF quiet_kcall_rc quiet_ctx_upd]
        quiet_kcall_rc
      dest!: quiet_send elim!: quiet_trans [rotated] split: if_splits)

lemma quiet_disable_unmask: "disable_unmask_virqfd K i s = Some s' \<Longrightarrow> quiet s s'"
  by (auto simp: disable_unmask_virqfd_def bind_eq_Some_conv
      intro!: quiet_trans [OF quiet_kcall quiet_ctx_upd])

lemma quiet_disable_mask: "disable_mask_virqfd K i s = Some s' \<Longrightarrow> quiet s s'"
  by (auto simp: disable_mask_virqfd_def bind_eq_Some_conv
      intro!: quiet_trans [OF quiet_kcall quiet_ctx_upd])

end
