(* ===== verification/Intrs_Safe.thy ===== *)
theory Intrs_Safe
  imports Intrs_Inv
begin

text \<open>
  The operations of the interrupt code against the invariant and the account of \<^verbatim>\<open>Intrs_Inv\<close>: every
  handler, and the ioctl that dispatches to them, keeps both, and none runs into undefined behaviour
  as long as an INTx context is armed.
\<close>

section \<open>INTx life cycle\<close>

lemma intx_enable_post:
  assumes inv: "irq_inv s" and ret: "vfio_intx_enable K s = (r, s')"
  shows "irq_inv s'" and "balanced s \<Longrightarrow> balanced s'" and "r = 0 \<Longrightarrow> is_intx s'"
    and "r \<noteq> 0 \<Longrightarrow> irq_type s' = irq_type s"
  using inv ret
  by (auto simp: vfio_intx_enable_def irq_simps irq_inv_def balanced_def held_refs_def ctx_ok_def
      held_lines_def split: if_splits irq_cookie.splits)

lemma irq_inv_close:
  "irq_inv s \<Longrightarrow> irq_inv (s\<lparr>irq_type := VFIO_PCI_NUM_IRQS, num_ctx := 0, ctx := []\<rparr>)"
  by (simp add: irq_inv_def)

lemma armed_0: "armed cs = 0 \<longleftrightarrow> (\<forall>c \<in> set cs. trigger c = None)"
proof (induction cs)
  case (Cons c cs)
  have "0 \<le> armed cs" by (induction cs) auto
  with Cons show ?case by (cases "trigger c") auto
qed simp

lemma balanced_close:
  assumes "balanced s" "armed (ctx s) = 0"
  shows "balanced (s\<lparr>irq_type := VFIO_PCI_NUM_IRQS, num_ctx := 0, ctx := []\<rparr>)"
proof -
  from assms(2) have "ctx_refs t (ctx s) = 0" for t by (simp add: armed_0 ctx_refs_unarmed)
  with assms show ?thesis
    by (auto simp: balanced_def held_refs_def held_lines_def split: irq_cookie.splits)
qed

lemma intx_disable_post:
  assumes inv: "irq_inv s" and intx: "is_intx s" and ret: "vfio_intx_disable K s = Some s'"
  shows "irq_inv s'" and "balanced s \<Longrightarrow> balanced s'" and "is_irq_none s'"
proof -
  from ret obtain a b r c where steps: "disable_unmask_virqfd K 0 s = Some a"
    "disable_mask_virqfd K 0 a = Some b" "vfio_intx_set_signal K (- 1) b = Some (r, c)"
    and s': "s' = c\<lparr>irq_type := VFIO_PCI_NUM_IRQS, num_ctx := 0, ctx := []\<rparr>"
    by (auto simp: vfio_intx_disable_def bind_eq_Some_conv)
  from steps(1,2) have q: "quiet s b" by (blast intro: quiet_trans quiet_disable_unmask quiet_disable_mask)
  then have b: "irq_inv b" "is_intx b" using inv intx by (auto intro: quiet_irq_inv simp: quiet_def)
  note post = intx_set_signal_post [OF b steps(3)]
  show "irq_inv s'" unfolding s' by (rule irq_inv_close) (use post(1) in simp)
  show "balanced s \<Longrightarrow> balanced s'" unfolding s'
    by (intro balanced_close post(2) quiet_balanced [OF q]) (use post(3) in simp_all)
  show "is_irq_none s'" unfolding s' by simp
qed

lemma intx_disable_defined:
  assumes inv: "irq_inv s" and intx: "is_intx s"
  shows "\<exists>s'. vfio_intx_disable K s = Some s'"
proof -
  obtain c where c: "ctx s = [c]" using intx_ctx [OF inv intx] by auto
  then obtain a where a: "disable_unmask_virqfd K 0 s = Some a" "ctx a = [c\<lparr>unmask_virqfd := None\<rparr>]"
    by (auto simp: disable_unmask_virqfd_def nth_opt_def)
  then obtain b where b: "disable_mask_virqfd K 0 a = Some b"
    by (auto simp: disable_mask_virqfd_def nth_opt_def)
  have "quiet s b" by (blast intro: quiet_trans quiet_disable_unmask quiet_disable_mask a b)
  then have "irq_inv b" "is_intx b" using inv intx by (auto intro: quiet_irq_inv simp: quiet_def)
  then obtain r e where "vfio_intx_set_signal K (- 1) b = Some (r, e)"
    using intx_set_signal_defined by blast
  with a b show ?thesis by (auto simp: vfio_intx_disable_def)
qed

section \<open>One MSI vector\<close>

text \<open>
  \<open>slot_step v s s'\<close>: between the states only the context of vector \<open>v\<close> changed, and the account
  moved by what that slot held before and holds after.
\<close>

definition slot_step :: "nat \<Rightarrow> vfio_pci_device \<Rightarrow> vfio_pci_device \<Rightarrow> bool" where
  "slot_step v s s' \<longleftrightarrow>
     ctx s' = (ctx s)[v := ctx s' ! v] \<and> ctx_ok (ctx s' ! v) \<and>
     (\<forall>t. refs t (trace s') = refs t (trace s)
        - of_bool (trigger (ctx s ! v) = Some t) + of_bool (trigger (ctx s' ! v) = Some t)) \<and>
     (\<forall>t. lines (Cookie_eventfd t) (trace s') = lines (Cookie_eventfd t) (trace s)
        - of_bool (trigger (ctx s ! v) = Some t) + of_bool (trigger (ctx s' ! v) = Some t)) \<and>
     lines Cookie_vdev (trace s') = lines Cookie_vdev (trace s) \<and>
     irq_type s' = irq_type s \<and> num_ctx s' = num_ctx s \<and>
     err_trigger s' = err_trigger s \<and> req_trigger s' = req_trigger s"

lemma slot_step_inv:
  assumes "slot_step v s s'" "irq_inv s"
  shows "irq_inv s'"
proof -
  from assms(1) have c: "ctx s' = (ctx s)[v := ctx s' ! v]" "ctx_ok (ctx s' ! v)"
    by (simp_all add: slot_step_def)
  then have "length (ctx s') = length (ctx s)" by (metis length_list_update)
  moreover from c assms(2) have "\<forall>c \<in> set (ctx s'). ctx_ok c"
    by (metis irq_inv_def in_set_conv_nth length_list_update nth_list_update_eq nth_list_update_neq)
  ultimately show ?thesis using assms by (simp add: slot_step_def irq_inv_def)
qed

lemma slot_step_balanced:
  assumes st: "slot_step v s s'" and v: "v < length (ctx s)" and "\<not> is_intx s" "balanced s"
  shows "balanced s'"
proof -
  from st have "ctx s' = (ctx s)[v := ctx s' ! v]" by (simp add: slot_step_def)
  from ctx_refs_update [OF v, where c = "ctx s' ! v"] this
  have "ctx_refs t (ctx s') = ctx_refs t (ctx s) - of_bool (trigger (ctx s ! v) = Some t)
      + of_bool (trigger (ctx s' ! v) = Some t)" for t by simp
  with assms show ?thesis
    by (auto simp: slot_step_def balanced_def held_refs_def held_lines_msi split: irq_cookie.splits)
qed

lemma set_vector_signal_post:
  assumes inv: "irq_inv s" and ret: "vfio_msi_set_vector_signal K vector fd msix s = Some (r, s')"
    and bound: "0 \<le> vector" "vector < int (num_ctx s)"
  shows "slot_step (nat vector) s s'"
    and "fd < 0 \<Longrightarrow> r = 0 \<and> trigger (ctx s' ! nat vector) = None"
    and "0 \<le> fd \<Longrightarrow> r = 0 \<Longrightarrow> trigger (ctx s' ! nat vector) \<noteq> None"
    and "r \<noteq> 0 \<Longrightarrow> trigger (ctx s' ! nat vector) = None"
proof -
  define v where "v = nat vector"
  have v: "v < length (ctx s)" using bound inv by (auto simp: v_def irq_inv_def)
  then have ok: "ctx_ok (ctx s ! v)" using inv by (auto simp: irq_inv_def)
  note defs = vfio_msi_set_vector_signal_def v_def [symmetric] irq_simps
  have "slot_step v s s'" using ret bound v ok unfolding slot_step_def ctx_ok_def
    by (cases "trigger (ctx s ! v)") (auto simp: defs split: if_splits)
  then show "slot_step (nat vector) s s'" by (simp add: v_def)
  show "fd < 0 \<Longrightarrow> r = 0 \<and> trigger (ctx s' ! nat vector) = None" using ret bound v ok
    unfolding ctx_ok_def
    by (cases "trigger (ctx s ! v)") (auto simp: defs split: if_splits)
  show "0 \<le> fd \<Longrightarrow> r = 0 \<Longrightarrow> trigger (ctx s' ! nat vector) \<noteq> None" using ret bound v ok
    unfolding ctx_ok_def
    by (cases "trigger (ctx s ! v)") (auto simp: defs split: if_splits)
  show "r \<noteq> 0 \<Longrightarrow> trigger (ctx s' ! nat vector) = None" using ret bound v ok
    unfolding ctx_ok_def
    by (cases "trigger (ctx s ! v)") (auto simp: defs split: if_splits)
qed

lemma set_vector_signal_defined:
  assumes inv: "irq_inv s"
  shows "\<exists>r s'. vfio_msi_set_vector_signal K vector fd msix s = Some (r, s')"
proof (cases "vector < 0 \<or> int (num_ctx s) \<le> vector")
  case True
  then show ?thesis by (auto simp: vfio_msi_set_vector_signal_def)
next
  case False
  define v where "v = nat vector"
  have v: "v < length (ctx s)" using False inv by (auto simp: v_def irq_inv_def)
  then have ok: "ctx_ok (ctx s ! v)" using inv by (auto simp: irq_inv_def)
  show ?thesis using False v ok unfolding ctx_ok_def
    by (cases "trigger (ctx s ! v)")
      (auto simp: vfio_msi_set_vector_signal_def v_def [symmetric] irq_simps)
qed

lemma set_vector_signal_out_of_range:
  "vector < 0 \<or> int (num_ctx s) \<le> vector \<Longrightarrow>
     vfio_msi_set_vector_signal K vector fd msix s = Some (- EINVAL, s)"
  by (auto simp: vfio_msi_set_vector_signal_def)

section \<open>Blocks of vectors\<close>

text \<open>The invariant and the account together, and a device that is not using INTx.\<close>

definition irq_ok :: "vfio_pci_device \<Rightarrow> bool" where
  "irq_ok s \<longleftrightarrow> irq_inv s \<and> balanced s"

text \<open>
  \<open>msi_step V s s'\<close>: invariant and account are kept and only the contexts of vectors in \<open>V\<close> changed.
\<close>

definition msi_step :: "nat set \<Rightarrow> vfio_pci_device \<Rightarrow> vfio_pci_device \<Rightarrow> bool" where
  "msi_step V s s' \<longleftrightarrow>
     irq_ok s' \<and> irq_type s' = irq_type s \<and> num_ctx s' = num_ctx s \<and>
     (\<forall>v. v \<notin> V \<longrightarrow> v < num_ctx s \<longrightarrow> ctx s' ! v = ctx s ! v)"

lemma msi_step_refl: "irq_ok s \<Longrightarrow> msi_step V s s"
  by (simp add: msi_step_def)

lemma msi_step_trans: "msi_step V s s' \<Longrightarrow> msi_step W s' s'' \<Longrightarrow> msi_step (V \<union> W) s s''"
  by (simp add: msi_step_def)

lemma msi_step_mono: "msi_step V s s' \<Longrightarrow> V \<subseteq> W \<Longrightarrow> msi_step W s s'"
  by (auto simp: msi_step_def)

lemma set_vector_signal_step:
  assumes ok: "irq_ok s" "\<not> is_intx s"
    and ret: "vfio_msi_set_vector_signal K vector fd msix s = Some (r, s')"
  shows "msi_step {nat vector} s s'"
proof (cases "vector < 0 \<or> int (num_ctx s) \<le> vector")
  case True
  with ok ret show ?thesis by (simp add: set_vector_signal_out_of_range msi_step_refl)
next
  case False
  then have bound: "0 \<le> vector" "vector < int (num_ctx s)" by auto
  have inv: "irq_inv s" using ok by (simp add: irq_ok_def)
  have st: "slot_step (nat vector) s s'" by (rule set_vector_signal_post(1) [OF inv ret bound])
  have "nat vector < length (ctx s)" using inv bound by (auto simp: irq_inv_def)
  with st ok have "irq_ok s'" by (auto simp: irq_ok_def intro: slot_step_inv slot_step_balanced)
  moreover have "ctx s' ! v = ctx s ! v" if "v \<noteq> nat vector" for v
    using st that unfolding slot_step_def by (metis nth_list_update_neq)
  ultimately show ?thesis using st by (simp add: msi_step_def slot_step_def)
qed

definition fd_at :: "u8 list option \<Rightarrow> nat \<Rightarrow> int option" where
  "fd_at fds i = (case fds of None \<Rightarrow> Some (- 1) | Some d \<Rightarrow> s32_at d i)"

definition is_armed :: "vfio_pci_device \<Rightarrow> nat \<Rightarrow> bool" where
  "is_armed s v \<longleftrightarrow> trigger (ctx s ! v) \<noteq> None"

text \<open>
  The setting loop either arms every vector whose descriptor is not negative, or stops at the
  vector \<open>k\<close> that failed, which it leaves unarmed.
\<close>

lemma msi_set_loop_post:
  assumes "irq_ok s" "\<not> is_intx s" "msi_set_loop K n i (int j) fds msix s = Some (r, j', s')"
  shows "msi_step {j ..< nat j'} s s' \<and> int j \<le> j' \<and>
    (r = 0 \<longrightarrow> j' = int (j + n) \<and>
       (j + n \<le> num_ctx s \<longrightarrow>
         (\<forall>m < n. \<exists>fd. fd_at fds (i + m) = Some fd \<and> (is_armed s' (j + m) \<longleftrightarrow> 0 \<le> fd)))) \<and>
    (r \<noteq> 0 \<longrightarrow> int j < j' \<and> j' \<le> int (j + n))"
  using assms
proof (induction n arbitrary: i j s)
  case 0
  then show ?case by (simp add: msi_step_refl)
next
  case (Suc n)
  from Suc.prems(3) obtain fd q t where fd: "fd_at fds i = Some fd"
    and sv: "vfio_msi_set_vector_signal K (int j) fd msix s = Some (q, t)"
    and rest: "(if q \<noteq> 0 then Some (q, int j + 1, t)
                else msi_set_loop K n (Suc i) (int j + 1) fds msix t) = Some (r, j', s')"
    by (auto simp: bind_eq_Some_conv fd_at_def)
  have step: "msi_step {j} s t" using set_vector_signal_step [OF Suc.prems(1,2) sv] by simp
  show ?case
  proof (cases "q = 0")
    case False
    with rest have "r = q" "j' = int j + 1" "s' = t" by auto
    moreover have "msi_step {j ..< nat (int j + 1)} s t"
      by (rule msi_step_mono [OF step]) (auto simp: nat_add_distrib)
    ultimately show ?thesis using False by simp
  next
    case True
    with rest have rest: "msi_set_loop K n (Suc i) (int (Suc j)) fds msix t = Some (r, j', s')"
      by (simp add: add.commute)
    have t: "irq_ok t" "\<not> is_intx t" using step Suc.prems(2) by (auto simp: msi_step_def)
    note IH = Suc.IH [OF t rest]
    have frame: "msi_step {j ..< nat j'} s s'"
      by (rule msi_step_mono [OF msi_step_trans [OF step]]) (use IH in auto)
    have first: "is_armed s' j \<longleftrightarrow> 0 \<le> fd" if "j < num_ctx s"
    proof -
      have "irq_inv s" using Suc.prems(1) by (simp add: irq_ok_def)
      with sv that True have "is_armed t j \<longleftrightarrow> 0 \<le> fd"
        using set_vector_signal_post(2,3) [of s K "int j" fd msix q t]
        by (cases "fd < 0") (auto simp: is_armed_def)
      moreover have "ctx s' ! j = ctx t ! j" using IH that step by (auto simp: msi_step_def)
      ultimately show ?thesis by (simp add: is_armed_def)
    qed
    have "\<exists>fd. fd_at fds (i + m) = Some fd \<and> (is_armed s' (j + m) \<longleftrightarrow> 0 \<le> fd)"
      if "r = 0" "j + Suc n \<le> num_ctx s" "m < Suc n" for m
    proof (cases m)
      case 0
      with first fd that show ?thesis by auto
    next
      case (Suc m')
      with that IH step show ?thesis by (auto simp: msi_step_def)
    qed
    with IH frame show ?thesis by auto
  qed
qed

text \<open>Without descriptors (\<^verbatim>\<open>fds == NULL\<close>) every vector in range is disarmed and nothing can fail.\<close>

lemma msi_set_loop_NULL:
  assumes "irq_ok s" "\<not> is_intx s" "msi_set_loop K n i (int j) None msix s = Some (r, j', s')"
    "j + n \<le> num_ctx s"
  shows "r = 0"
  using assms
proof (induction n arbitrary: i j s)
  case (Suc n)
  from Suc.prems(3) obtain q t where
    sv: "vfio_msi_set_vector_signal K (int j) (- 1) msix s = Some (q, t)"
    and rest: "(if q \<noteq> 0 then Some (q, int j + 1, t)
                else msi_set_loop K n (Suc i) (int j + 1) None msix t) = Some (r, j', s')"
    by (auto simp: bind_eq_Some_conv)
  have "q = 0"
    using set_vector_signal_post(2) [OF _ sv] Suc.prems by (auto simp: irq_ok_def)
  have "msi_step {j} s t" using set_vector_signal_step [OF Suc.prems(1,2) sv] by simp
  then have "irq_ok t" "\<not> is_intx t" "num_ctx t = num_ctx s" using Suc.prems(2) by (auto simp: msi_step_def)
  with Suc.IH [of t "Suc i" "Suc j"] rest \<open>q = 0\<close> Suc.prems(4) show ?case by (simp add: add.commute)
qed simp

lemma msi_unset_loop_post:
  assumes "irq_ok s" "\<not> is_intx s" "msi_unset_loop K n (int j + int n - 1) msix s = Some s'"
  shows "msi_step {j ..< j + n} s s' \<and> (\<forall>v. j \<le> v \<longrightarrow> v < j + n \<longrightarrow> v < num_ctx s \<longrightarrow> \<not> is_armed s' v)"
  using assms
proof (induction n arbitrary: s)
  case 0
  then show ?case by (simp add: msi_step_refl)
next
  case (Suc n)
  from Suc.prems(3) obtain q t where
    sv: "vfio_msi_set_vector_signal K (int (j + n)) (- 1) msix s = Some (q, t)"
    and rest: "msi_unset_loop K n (int j + int n - 1) msix t = Some s'"
    by (auto simp: bind_eq_Some_conv algebra_simps)
  have step: "msi_step {j + n} s t"
    using set_vector_signal_step [OF Suc.prems(1,2) sv] by (simp only: nat_int)
  then have t: "irq_ok t" "\<not> is_intx t" "num_ctx t = num_ctx s" using Suc.prems(2) by (auto simp: msi_step_def)
  note IH = Suc.IH [OF t(1,2) rest]
  have frame: "msi_step {j ..< j + Suc n} s s'"
    by (rule msi_step_mono [OF msi_step_trans [OF step]]) (use IH in auto)
  have "irq_inv s" using Suc.prems(1) by (simp add: irq_ok_def)
  with sv have last: "\<not> is_armed t (j + n)" if "j + n < num_ctx s"
    using set_vector_signal_post(2) [of s K "int (j + n)" "- 1" msix q t] that
    unfolding nat_int by (simp add: is_armed_def)
  have "\<not> is_armed s' v" if "j \<le> v" "v < j + Suc n" "v < num_ctx s" for v
  proof (cases "v = j + n")
    case True
    with IH last that t(3) show ?thesis by (auto simp: msi_step_def is_armed_def)
  next
    case False
    with IH that t(3) show ?thesis by auto
  qed
  with frame show ?case by blast
qed

lemma msi_set_loop_defined:
  assumes "irq_ok s" "\<not> is_intx s" "\<forall>m. i \<le> m \<longrightarrow> m < i + n \<longrightarrow> fd_at fds m \<noteq> None"
  shows "\<exists>x. msi_set_loop K n i (int j) fds msix s = Some x"
  using assms
proof (induction n arbitrary: i j s)
  case 0
  then show ?case by simp
next
  case (Suc n)
  from Suc.prems(3) obtain fd where fd: "fd_at fds i = Some fd" by fastforce
  obtain q t where sv: "vfio_msi_set_vector_signal K (int j) fd msix s = Some (q, t)"
    using set_vector_signal_defined Suc.prems(1) by (metis irq_ok_def)
  have "msi_step {j} s t" using set_vector_signal_step [OF Suc.prems(1,2) sv] by simp
  then have "irq_ok t" "\<not> is_intx t" using Suc.prems(2) by (auto simp: msi_step_def)
  from Suc.IH [OF this, of "Suc i" "Suc j"] Suc.prems(3)
  have "\<exists>x. msi_set_loop K n (Suc i) (1 + int j) fds msix t = Some x" by auto
  with fd sv show ?case by (auto simp: fd_at_def add.commute)
qed

lemma msi_unset_loop_defined:
  assumes "irq_ok s" "\<not> is_intx s"
  shows "\<exists>s'. msi_unset_loop K n j msix s = Some s'"
  using assms
proof (induction n arbitrary: j s)
  case (Suc n)
  obtain q t where sv: "vfio_msi_set_vector_signal K j (- 1) msix s = Some (q, t)"
    using set_vector_signal_defined Suc.prems(1) by (metis irq_ok_def)
  from set_vector_signal_step [OF Suc.prems sv]
  have "irq_ok t" "\<not> is_intx t" using Suc.prems(2) by (auto simp: msi_step_def)
  then obtain s' where "msi_unset_loop K n (j - 1) msix t = Some s'" using Suc.IH by blast
  with sv show ?case by auto
qed simp

text \<open>
  A block is set all or nothing: on success every vector is armed exactly if its descriptor is not
  negative; on an error past the range check the vectors up to the failing one are unarmed again.
\<close>

lemma set_block_post:
  assumes ok: "irq_ok s" "\<not> is_intx s"
    and ret: "vfio_msi_set_block K start count fds msix s = Some (r, s')"
  shows "msi_step {unat start ..< unat start + unat count} s s'"
    and "r = 0 \<Longrightarrow> unat start + unat count < 2 ^ 32 \<Longrightarrow>
      \<forall>m < unat count. \<exists>fd. fd_at fds m = Some fd \<and> (is_armed s' (unat start + m) \<longleftrightarrow> 0 \<le> fd)"
    and "r \<noteq> 0 \<Longrightarrow> unat start < num_ctx s \<Longrightarrow> unat (start + count) \<le> num_ctx s \<Longrightarrow>
      \<exists>k < unat count. msi_step {unat start .. unat start + k} s s' \<and>
        (\<forall>v \<in> {unat start .. unat start + k}. v < num_ctx s \<longrightarrow> \<not> is_armed s' v)"
proof -
  define b where "b = unat start"
  have u: "uint start = int b" by (simp add: b_def)
  have "msi_step {b ..< b + unat count} s s' \<and>
    (r = 0 \<longrightarrow> b + unat count < 2 ^ 32 \<longrightarrow>
      (\<forall>m < unat count. \<exists>fd. fd_at fds m = Some fd \<and> (is_armed s' (b + m) \<longleftrightarrow> 0 \<le> fd))) \<and>
    (r \<noteq> 0 \<longrightarrow> b < num_ctx s \<longrightarrow> unat (start + count) \<le> num_ctx s \<longrightarrow>
      (\<exists>k < unat count. msi_step {b .. b + k} s s' \<and>
        (\<forall>v \<in> {b .. b + k}. v < num_ctx s \<longrightarrow> \<not> is_armed s' v)))"
  proof (cases "num_ctx s \<le> b \<or> num_ctx s < unat (start + count)")
    case True
    with ret ok show ?thesis
      by (auto simp: vfio_msi_set_block_def b_def [symmetric] msi_step_refl)
  next
    case False
    with ret obtain q j t where
      loop: "msi_set_loop K (unat count) 0 (int b) fds msix s = Some (q, j, t)"
      and tail: "(if q \<noteq> 0 then Option.bind (msi_unset_loop K (nat (j - int b)) (j - 1) msix t)
                   (\<lambda>s. Some (q, s)) else Some (q, t)) = Some (r, s')"
      by (auto simp: vfio_msi_set_block_def u b_def [symmetric] bind_eq_Some_conv split: if_splits)
    note post = msi_set_loop_post [OF ok loop]
    show ?thesis
    proof (cases "q = 0")
      case True
      with tail have "r = 0" "s' = t" by auto
      moreover have "unat (start + count) = b + unat count" if "b + unat count < 2 ^ 32"
        using that by (simp add: b_def unat_word_ariths)
      ultimately show ?thesis using post True False by (auto simp: nat_add_distrib)
    next
      case False
      with tail obtain r' where
        un: "msi_unset_loop K (nat (j - int b)) (j - 1) msix t = Some s'" and r: "r = q"
        by (auto simp: bind_eq_Some_conv)
      from post False have j: "int b < j" "j \<le> int (b + unat count)" by auto
      define k where "k = nat (j - int b) - 1"
      have n: "nat (j - int b) = Suc k" "j - 1 = int b + int (Suc k) - 1" "nat j = b + Suc k"
        "k < unat count" using j unfolding k_def by linarith+
      have t: "irq_ok t" "\<not> is_intx t" using post ok by (auto simp: msi_step_def)
      note un = msi_unset_loop_post [OF t, of K "Suc k" b, OF un [unfolded n]]
      have "msi_step ({b ..< b + Suc k} \<union> {b ..< b + Suc k}) s s'"
        by (rule msi_step_trans [of _ s t]) (use post un n in auto)
      then have "msi_step {b .. b + k} s s'" by (rule msi_step_mono) auto
      moreover have "\<forall>v \<in> {b .. b + k}. v < num_ctx s \<longrightarrow> \<not> is_armed s' v"
        using un post by (auto simp: msi_step_def)
      moreover from \<open>msi_step {b .. b + k} s s'\<close> have "msi_step {b ..< b + unat count} s s'"
        by (rule msi_step_mono) (use n in auto)
      ultimately show ?thesis using r False n by auto
    qed
  qed
  then show "msi_step {unat start ..< unat start + unat count} s s'"
    and "r = 0 \<Longrightarrow> unat start + unat count < 2 ^ 32 \<Longrightarrow>
      \<forall>m < unat count. \<exists>fd. fd_at fds m = Some fd \<and> (is_armed s' (unat start + m) \<longleftrightarrow> 0 \<le> fd)"
    and "r \<noteq> 0 \<Longrightarrow> unat start < num_ctx s \<Longrightarrow> unat (start + count) \<le> num_ctx s \<Longrightarrow>
      \<exists>k < unat count. msi_step {unat start .. unat start + k} s s' \<and>
        (\<forall>v \<in> {unat start .. unat start + k}. v < num_ctx s \<longrightarrow> \<not> is_armed s' v)"
    unfolding b_def by blast+
qed

lemma s32_at_None: "s32_at d i = None \<longleftrightarrow> length d < 4 * i + 4"
  by (simp add: s32_at_def)

lemma fd_at_None: "fd_at fds m = None \<longleftrightarrow> (\<exists>d. fds = Some d \<and> length d < 4 * m + 4)"
  by (cases fds) (simp_all add: fd_at_def s32_at_None)

lemma set_block_defined:
  assumes ok: "irq_ok s" "\<not> is_intx s" and data: "\<forall>d. fds = Some d \<longrightarrow> 4 * unat count \<le> length d"
  shows "\<exists>r s'. vfio_msi_set_block K start count fds msix s = Some (r, s')"
proof -
  have "\<forall>m. 0 \<le> m \<longrightarrow> m < 0 + unat count \<longrightarrow> fd_at fds m \<noteq> None"
    using data by (auto simp: fd_at_None)
  from msi_set_loop_defined [OF ok this, of K "unat start" msix] obtain q j t where
    loop: "msi_set_loop K (unat count) 0 (int (unat start)) fds msix s = Some (q, j, t)"
    by (auto simp del: of_nat_unat)
  then have "irq_ok t" "\<not> is_intx t"
    using msi_set_loop_post [OF ok loop] ok by (auto simp: msi_step_def)
  then obtain u where "msi_unset_loop K (nat (j - uint start)) (j - 1) msix t = Some u"
    using msi_unset_loop_defined by blast
  with loop show ?thesis by (cases "q = 0") (auto simp: vfio_msi_set_block_def)
qed

section \<open>MSI life cycle\<close>

lemma msi_virqfd_loop_post: "msi_virqfd_loop K n i s = Some s' \<Longrightarrow> quiet s s'"
proof (induction n arbitrary: i s)
  case (Suc n)
  then show ?case
    by (auto simp: bind_eq_Some_conv) (metis quiet_trans quiet_disable_unmask quiet_disable_mask)
qed simp

lemma msi_virqfd_loop_defined: "i + n \<le> length (ctx s) \<Longrightarrow> \<exists>s'. msi_virqfd_loop K n i s = Some s'"
proof (induction n arbitrary: i s)
  case (Suc n)
  then obtain a where a: "disable_unmask_virqfd K i s = Some a" "length (ctx a) = length (ctx s)"
    by (auto simp: disable_unmask_virqfd_def nth_opt_def)
  with Suc.prems obtain b where b: "disable_mask_virqfd K i a = Some b" "length (ctx b) = length (ctx s)"
    by (auto simp: disable_mask_virqfd_def nth_opt_def)
  with a Suc show ?case by auto
qed simp

lemma quiet_ok: "quiet s s' \<Longrightarrow> irq_ok s \<Longrightarrow> irq_ok s'"
  by (auto simp: irq_ok_def intro: quiet_irq_inv quiet_balanced)

lemma msi_disable_post:
  assumes ok: "irq_ok s" "\<not> is_intx s" and ret: "vfio_msi_disable K msix s = Some s'"
  shows "irq_ok s'" and "is_irq_none s'" and "ctx s' = []"
proof -
  from ret obtain a r b where vl: "msi_virqfd_loop K (num_ctx s) 0 s = Some a"
    and sb: "vfio_msi_set_block K 0 (word_of_nat (num_ctx a)) None msix a = Some (r, b)"
    and s': "s' = (let c = kcall_do K (Irq Free_irq_vectors) b;
                       c = (if nointx c then kcall_do K (Irq (Pci_intx False)) c else c)
                   in c\<lparr>irq_type := VFIO_PCI_NUM_IRQS, num_ctx := 0, ctx := []\<rparr>)"
    by (auto simp: vfio_msi_disable_def bind_eq_Some_conv Let_def)
  have q: "quiet s a" using vl by (rule msi_virqfd_loop_post)
  then have a: "irq_ok a" "\<not> is_intx a" "num_ctx a = num_ctx s"
    using ok quiet_ok by (auto simp: quiet_def)
  note sb = sb [unfolded a(3)]
  note post = set_block_post [OF a(1,2) sb]
  have bound: "num_ctx s < 2 ^ 31" "length (ctx s) = num_ctx s" using ok by (simp_all add: irq_ok_def irq_inv_def)
  then have count: "unat (word_of_nat (num_ctx s) :: u32) = num_ctx s" by (simp add: unat_of_nat)
  have b: "irq_ok b" "num_ctx b = num_ctx s" using post(1) a by (simp_all add: msi_step_def)
  have "\<not> is_armed b v" if "v < num_ctx s" for v
  proof (cases "r = 0")
    case True
    with post(2) count bound that have "\<exists>fd. fd_at None v = Some fd \<and> (is_armed b v \<longleftrightarrow> 0 \<le> fd)" by auto
    then show ?thesis by (simp add: fd_at_def)
  next
    case False
    from sb False a count that bound
    obtain q j t where loop: "msi_set_loop K (num_ctx s) 0 (int 0) None msix a = Some (q, j, t)"
      by (auto simp: vfio_msi_set_block_def bind_eq_Some_conv)
    have "q = 0" by (rule msi_set_loop_NULL [OF a(1,2) loop]) (simp add: a)
    with sb loop count a that False show ?thesis by (auto simp: vfio_msi_set_block_def)
  qed
  then have "armed (ctx b) = 0" using b bound
    by (auto simp: armed_0 is_armed_def irq_ok_def irq_inv_def in_set_conv_nth)
  moreover define c where "c = (let c = kcall_do K (Irq Free_irq_vectors) b in
      if nointx c then kcall_do K (Irq (Pci_intx False)) c else c)"
  ultimately have c: "irq_ok c" "armed (ctx c) = 0"
    using b quiet_ok [of b c] by (auto simp: quiet_def Let_def)
  have "s' = c\<lparr>irq_type := VFIO_PCI_NUM_IRQS, num_ctx := 0, ctx := []\<rparr>" by (simp add: s' c_def Let_def)
  with c show "irq_ok s'" "is_irq_none s'" "ctx s' = []"
    by (auto simp: irq_ok_def intro: irq_inv_close balanced_close)
qed

lemma msi_disable_defined:
  assumes ok: "irq_ok s" "\<not> is_intx s"
  shows "\<exists>s'. vfio_msi_disable K msix s = Some s'"
proof -
  have "length (ctx s) = num_ctx s" using ok by (simp add: irq_ok_def irq_inv_def)
  then obtain a where a: "msi_virqfd_loop K (num_ctx s) 0 s = Some a"
    using msi_virqfd_loop_defined [of 0 "num_ctx s" s] by auto
  then have "quiet s a" by (rule msi_virqfd_loop_post)
  then have "irq_ok a" "\<not> is_intx a" using ok quiet_ok by (auto simp: quiet_def)
  from set_block_defined [OF this, of None "word_of_nat (num_ctx a)" K 0 msix]
  obtain r b where "vfio_msi_set_block K 0 (word_of_nat (num_ctx a)) None msix a = Some (r, b)" by auto
  with a show ?thesis by (auto simp: vfio_msi_disable_def Let_def)
qed

lemma msi_enable_post:
  assumes ok: "irq_ok s" and nvec: "nvec < 2 ^ 31" and ret: "vfio_msi_enable K nvec msix s = (r, s')"
  shows "irq_ok s'" and "\<not> is_intx s \<Longrightarrow> \<not> is_intx s'"
proof -
  show "irq_ok s'" using ok nvec ret
    by (auto simp: vfio_msi_enable_def irq_simps irq_ok_def irq_inv_def balanced_def held_refs_def
        held_lines_def split: if_splits irq_cookie.splits)
  show "\<not> is_intx s \<Longrightarrow> \<not> is_intx s'"
    using ret by (auto simp: vfio_msi_enable_def irq_simps split: if_splits)
qed

lemma quiet_signal: "eventfd_signal K t s = Some s' \<Longrightarrow> quiet s s'"
  by (auto simp: eventfd_signal_def quiet_kcall)

lemma msi_loopback_quiet: "msi_loopback K is start flags data s = Some s' \<Longrightarrow> quiet s s'"
proof (induction "is" arbitrary: s)
  case (Cons i "is")
  then show ?case
    by (auto simp: bind_eq_Some_conv split: if_splits intro: quiet_trans quiet_signal)
qed simp

section \<open>The ioctl\<close>

lemma set_intx_unmask_post:
  assumes ok: "irq_ok s" and ret: "vfio_pci_set_intx_unmask K index start count flags data s = Some (r, s')"
  shows "irq_ok s'"
proof -
  have "quiet s s'" using ret
    by (auto simp: vfio_pci_set_intx_unmask_def bind_eq_Some_conv Let_def case_prod_unfold quiet_kcall_full
        dest: quiet_unmask quiet_disable_unmask intro!: quiet_trans [OF _ quiet_ctx_upd] split: if_splits)
  then show ?thesis using ok by (rule quiet_ok)
qed

lemma set_intx_mask_post:
  assumes ok: "irq_ok s" and ret: "vfio_pci_set_intx_mask K index start count flags data s = Some (r, s')"
  shows "irq_ok s'"
proof -
  have "quiet s s'" using ret
    by (auto simp: vfio_pci_set_intx_mask_def bind_eq_Some_conv dest: quiet_mask split: if_splits)
  then show ?thesis using ok by (rule quiet_ok)
qed

lemma set_intx_trigger_post:
  assumes ok: "irq_ok s" and ret: "vfio_pci_set_intx_trigger K index start count flags data s = Some (r, s')"
  shows "irq_ok s'"
proof -
  have disable: "irq_ok b" if "vfio_intx_disable K a = Some b" "irq_ok a" "is_intx a" for a b
    using that intx_disable_post(1,2) [OF _ that(3,1)] by (simp add: irq_ok_def)
  have signal: "irq_ok b \<and> is_intx b" if "vfio_intx_set_signal K fd a = Some (q, b)" "irq_ok a" "is_intx a"
    for a b q fd using that intx_set_signal_post(1,2) [OF _ that(3,1)] by (simp add: irq_ok_def)
  have enable: "irq_ok b \<and> (q = 0 \<longrightarrow> is_intx b)" if "vfio_intx_enable K a = (q, b)" "irq_ok a"
    for a b q using that intx_enable_post(1-3) [OF _ that(1)] by (simp add: irq_ok_def)
  note defs = vfio_pci_set_intx_trigger_def
  show ?thesis
  proof (cases "is_intx s \<and> count = 0 \<and> flags AND VFIO_IRQ_SET_DATA_NONE \<noteq> 0")
    case True
    with ret have "vfio_intx_disable K s = Some s'" by (simp add: defs bind_eq_Some_conv)
    with True ok disable show ?thesis by blast
  next
    case a: False
    show ?thesis
    proof (cases "\<not> (is_intx s \<or> is_irq_none s) \<or> start \<noteq> 0 \<or> count \<noteq> 1")
      case True
      with a ret ok show ?thesis by (simp add: defs split: if_splits)
    next
      case b: False
      show ?thesis
      proof (cases "flags AND VFIO_IRQ_SET_DATA_EVENTFD = 0")
        case True
        with a b ret have "s' = s \<or> vfio_send_intx_eventfd K s = Some s'"
          by (simp add: defs bind_eq_Some_conv split: if_splits) blast+
        then show ?thesis using ok quiet_send quiet_ok by blast
      next
        case c: False
        show ?thesis
        proof (cases "is_intx s")
          case True
          with a b c ret obtain fd where "vfio_intx_set_signal K fd s = Some (r, s')"
            by (simp add: defs bind_eq_Some_conv split: if_splits) blast
          with True ok signal show ?thesis by blast
        next
          case False
          obtain q e where e: "vfio_intx_enable K s = (q, e)" by fastforce
          show ?thesis
          proof (cases "q = 0")
            case True
            with a b c False e ret obtain fd f where "vfio_intx_set_signal K fd e = Some (r, f)"
              "(if r \<noteq> 0 then vfio_intx_disable K f else Some f) = Some s'"
              by (simp add: defs bind_eq_Some_conv split: if_splits) (auto split: if_splits)
            moreover from this(1) have "irq_ok f \<and> is_intx f" using enable [OF e ok] True signal by blast
            ultimately show ?thesis using disable by (auto split: if_splits)
          next
            case False
            with a b c \<open>\<not> is_intx s\<close> e ret have "s' = e"
              by (simp add: defs bind_eq_Some_conv split: if_splits)
            with enable [OF e ok] show ?thesis by simp
          qed
        qed
      qed
    qed
  qed
qed

lemma set_msi_trigger_post:
  assumes ok: "irq_ok s" and index: "index \<in> {VFIO_PCI_MSI_IRQ_INDEX, VFIO_PCI_MSIX_IRQ_INDEX}"
    and ret: "vfio_pci_set_msi_trigger K index start count flags data s = Some (r, s')"
  shows "irq_ok s'" and "\<not> is_intx s \<Longrightarrow> \<not> is_intx s'"
proof -
  define msix where "msix = (index = VFIO_PCI_MSIX_IRQ_INDEX)"
  note defs = vfio_pci_set_msi_trigger_def Let_def msix_def [symmetric] bind_eq_Some_conv
  have "irq_ok s' \<and> (\<not> is_intx s \<longrightarrow> \<not> is_intx s')"
  proof (cases "irq_is s index \<or> is_irq_none s")
    case False
    with ret ok show ?thesis by (simp add: defs split: if_splits)
  next
    case True
    then have nx: "\<not> is_intx s" using index by auto
    have sb: "irq_ok b \<and> \<not> is_intx b"
      if "vfio_msi_set_block K start count (Some data) msix a = Some (q, b)" "irq_ok a" "\<not> is_intx a"
      for a b q using set_block_post(1) [OF that(2,3,1)] that(3) by (simp add: msi_step_def)
    show ?thesis
    proof (cases "irq_is s index \<and> count = 0 \<and> flags AND VFIO_IRQ_SET_DATA_NONE \<noteq> 0")
      case True
      with ret have "vfio_msi_disable K msix s = Some s'" by (simp add: defs)
      then show ?thesis using msi_disable_post [OF ok nx] by auto
    next
      case a: False
      show ?thesis
      proof (cases "flags AND VFIO_IRQ_SET_DATA_EVENTFD = 0")
        case c: True
        with True a ret have "s' = s \<or> (\<exists>is. msi_loopback K is (unat start) flags data s = Some s')"
          by (simp add: defs split: if_splits) blast
        then have "quiet s s'" using msi_loopback_quiet by auto
        then show ?thesis using ok quiet_ok by (auto simp: quiet_def)
      next
        case c: False
        obtain q e where e: "vfio_msi_enable K (sint (start + count)) msix s = (q, e)" by fastforce
        have "sint (start + count) < 2 ^ 31" using sint_lt [of "start + count"] by simp
        then have eok: "irq_ok e" "\<not> is_intx e" using msi_enable_post [OF ok _ e] nx by auto
        from True a c e ret consider
          q' where "vfio_msi_set_block K start count (Some data) msix s = Some (q', s')"
          | "s' = e"
          | q' f where "vfio_msi_set_block K start count (Some data) msix e = Some (q', f)"
              "s' = f \<or> vfio_msi_disable K msix f = Some s'"
          by (simp add: defs split: if_splits) (auto split: if_splits)
        then show ?thesis
        proof cases
          case (3 q' f)
          then show ?thesis using sb eok msi_disable_post [of f K msix s'] by (metis zero_neq_numeral)
        qed (use sb ok nx eok in blast)+
      qed
    qed
  qed
  then show "irq_ok s'" and "\<not> is_intx s \<Longrightarrow> \<not> is_intx s'" by blast+
qed

text \<open>
  What a single trigger ends up as: untouched, or dropped (\<open>DATA_NONE\<close> with no count, descriptor
  \<open>-1\<close>), or replaced by the context of a new descriptor, the old one dropped.
\<close>

lemma ctx_trigger_single_cases:
  assumes "vfio_pci_set_ctx_trigger_single K c count flags data s = Some (r, c', s')"
  shows "c' = c \<and> s' = s \<or>
    (\<exists>t. c' = c \<and> c = Some t \<and> s' = kcall_do K (Evt (Eventfd_signal t)) s) \<or>
    c' = None \<and> s' = (case c of Some t \<Rightarrow> kcall_do K (Evt (Eventfd_ctx_put t)) s | None \<Rightarrow> s) \<or>
    (\<exists>fd e t. kcall_rc K (Evt (Eventfd_ctx_fdget fd)) s = (e, t) \<and>
       (if e < 0 then c' = c \<and> s' = t
        else c' = Some e \<and>
          s' = (case c of Some u \<Rightarrow> kcall_do K (Evt (Eventfd_ctx_put u)) t | None \<Rightarrow> t)))"
proof (cases "flags AND VFIO_IRQ_SET_DATA_NONE = 0")
  case False
  with assms show ?thesis
    by (cases c) (auto simp: vfio_pci_set_ctx_trigger_single_def split: if_splits)
next
  case none: True
  show ?thesis
  proof (cases "flags AND VFIO_IRQ_SET_DATA_BOOL = 0")
    case False
    with none assms show ?thesis
      by (cases c) (auto simp: vfio_pci_set_ctx_trigger_single_def bind_eq_Some_conv split: if_splits)
  next
    case True
    show ?thesis
    proof (cases "flags AND VFIO_IRQ_SET_DATA_EVENTFD = 0 \<or> count = 0")
      case True
      with none \<open>flags AND VFIO_IRQ_SET_DATA_BOOL = 0\<close> assms show ?thesis
        by (auto simp: vfio_pci_set_ctx_trigger_single_def split: if_splits)
    next
      case False
      with none True assms obtain fd where fd: "s32_at data 0 = Some fd"
        and eq: "(if fd = - 1 then
             Some (0, None, case c of Some t \<Rightarrow> kcall_do K (Evt (Eventfd_ctx_put t)) s | None \<Rightarrow> s)
           else if 0 \<le> fd then
             (case kcall_rc K (Evt (Eventfd_ctx_fdget fd)) s of (e, s) \<Rightarrow>
                if e < 0 then Some (e, c, s)
                else Some (0, Some e,
                  case c of Some t \<Rightarrow> kcall_do K (Evt (Eventfd_ctx_put t)) s | None \<Rightarrow> s))
           else Some (0, c, s)) = Some (r, c', s')"
        by (auto simp: vfio_pci_set_ctx_trigger_single_def bind_eq_Some_conv)
      show ?thesis
        using eq by (cases "kcall_rc K (Evt (Eventfd_ctx_fdget fd)) s") (auto split: if_splits)
    qed
  qed
qed

lemma ctx_trigger_single_post:
  assumes "vfio_pci_set_ctx_trigger_single K c count flags data s = Some (r, c', s')"
  shows "refs t (trace s') = refs t (trace s) - of_bool (c = Some t) + of_bool (c' = Some t)"
    and "lines k (trace s') = lines k (trace s)"
    and "ctx s' = ctx s" "num_ctx s' = num_ctx s" "irq_type s' = irq_type s"
    and "err_trigger s' = err_trigger s" "req_trigger s' = req_trigger s"
proof -
  have "refs t (trace s') = refs t (trace s) - of_bool (c = Some t) + of_bool (c' = Some t) \<and>
    lines k (trace s') = lines k (trace s) \<and> ctx s' = ctx s \<and> num_ctx s' = num_ctx s \<and>
    irq_type s' = irq_type s \<and> err_trigger s' = err_trigger s \<and> req_trigger s' = req_trigger s"
    using ctx_trigger_single_cases [OF assms]
  proof (elim disjE exE conjE)
    fix fd e u
    assume call: "kcall_rc K (Evt (Eventfd_ctx_fdget fd)) s = (e, u)"
      and res: "if e < 0 then c' = c \<and> s' = u
        else c' = Some e \<and>
          s' = (case c of Some v \<Rightarrow> kcall_do K (Evt (Eventfd_ctx_put v)) u | None \<Rightarrow> u)"
    have "e = fst (kcall_rc K (Evt (Eventfd_ctx_fdget fd)) s)"
      "u = snd (kcall_rc K (Evt (Eventfd_ctx_fdget fd)) s)" using call by simp_all
    with res show ?thesis by (cases c) (simp_all split: if_splits)
  qed (cases c; simp)+
  then show "refs t (trace s') = refs t (trace s) - of_bool (c = Some t) + of_bool (c' = Some t)"
    and "lines k (trace s') = lines k (trace s)"
    and "ctx s' = ctx s" "num_ctx s' = num_ctx s" "irq_type s' = irq_type s"
    and "err_trigger s' = err_trigger s" "req_trigger s' = req_trigger s"
    by simp_all
qed

lemma set_err_trigger_post:
  assumes ok: "irq_ok s" and ret: "vfio_pci_set_err_trigger K index start count flags data s = Some (r, s')"
  shows "irq_ok s'"
proof (cases "s' = s")
  case False
  with ret obtain c t where
    single: "vfio_pci_set_ctx_trigger_single K (err_trigger s) count flags data s = Some (r, c, t)"
    and "s' = t\<lparr>err_trigger := c\<rparr>"
    by (auto simp: vfio_pci_set_err_trigger_def bind_eq_Some_conv split: if_splits)
  with ok ctx_trigger_single_post [OF single] show ?thesis
    by (auto simp: irq_ok_def irq_inv_def balanced_def held_refs_def held_lines_def split: irq_cookie.splits)
qed (use ok in simp)

lemma set_req_trigger_post:
  assumes ok: "irq_ok s" and ret: "vfio_pci_set_req_trigger K index start count flags data s = Some (r, s')"
  shows "irq_ok s'"
proof (cases "s' = s")
  case False
  with ret obtain c t where
    single: "vfio_pci_set_ctx_trigger_single K (req_trigger s) count flags data s = Some (r, c, t)"
    and "s' = t\<lparr>req_trigger := c\<rparr>"
    by (auto simp: vfio_pci_set_req_trigger_def bind_eq_Some_conv split: if_splits)
  with ok ctx_trigger_single_post [OF single] show ?thesis
    by (auto simp: irq_ok_def irq_inv_def balanced_def held_refs_def held_lines_def split: irq_cookie.splits)
qed (use ok in simp)

lemma irq_ioctl_func_msi:
  "irq_ioctl_func flags index s = Some Set_msi_trigger \<Longrightarrow>
     index \<in> {VFIO_PCI_MSI_IRQ_INDEX, VFIO_PCI_MSIX_IRQ_INDEX}"
  by (auto simp: irq_ioctl_func_def Let_def split: if_splits)

lemma ioctl_irq_ok:
  assumes ok: "irq_ok s" and ret: "vfio_pci_set_irqs_ioctl K flags index start count data s = Some (r, s')"
  shows "irq_ok s'"
proof (cases "irq_ioctl_func flags index s")
  case None
  with ok ret show ?thesis by (simp add: vfio_pci_set_irqs_ioctl_def)
next
  case (Some f)
  with ok ret show ?thesis
    by (cases f) (auto simp: vfio_pci_set_irqs_ioctl_def
        dest: set_intx_mask_post set_intx_unmask_post set_intx_trigger_post
          set_msi_trigger_post(1) [OF _ irq_ioctl_func_msi] set_err_trigger_post set_req_trigger_post)
qed

section \<open>No undefined behaviour\<close>

text \<open>
  The data of the ioctl covers what its flags announce; \<^verbatim>\<open>vfio_set_irqs_validate_and_prepare\<close> of the
  VFIO core computes the size the caller copies that way. An INTx device is armed when its context
  has a trigger.
\<close>

definition irq_data_ok :: "u32 \<Rightarrow> u32 \<Rightarrow> u8 list \<Rightarrow> bool" where
  "irq_data_ok flags count data \<longleftrightarrow>
     (flags AND VFIO_IRQ_SET_DATA_BOOL \<noteq> 0 \<longrightarrow> unat count \<le> length data) \<and>
     (flags AND VFIO_IRQ_SET_DATA_EVENTFD \<noteq> 0 \<longrightarrow> 4 * unat count \<le> length data)"

definition intx_armed :: "vfio_pci_device \<Rightarrow> bool" where
  "intx_armed s \<longleftrightarrow> (is_intx s \<longrightarrow> armed (ctx s) = 1)"

lemma intx_armed_ctx:
  assumes "irq_inv s" "intx_armed s" "is_intx s"
  obtains c t where "ctx s = [c]" "trigger c = Some t"
  using intx_ctx [OF assms(1,3)] assms(2,3) that by (force simp: intx_armed_def split: if_splits)

lemma send_defined:
  assumes "irq_inv s" "intx_armed s"
  shows "\<exists>s'. vfio_send_intx_eventfd K s = Some s'"
proof (cases "is_intx s")
  case True
  with assms obtain c t where "ctx s = [c]" "trigger c = Some t" by (rule_tac intx_armed_ctx)
  then show ?thesis by (simp add: vfio_send_intx_eventfd_def eventfd_signal_def nth_opt_def)
qed (simp add: vfio_send_intx_eventfd_def)

lemma quiet_intx_armed: "quiet s s' \<Longrightarrow> intx_armed s \<Longrightarrow> intx_armed s'"
  using quiet_armed [of s s'] by (simp add: intx_armed_def quiet_def)

lemma mask_defined: "irq_inv s \<Longrightarrow> \<exists>s'. vfio_pci_intx_mask K s = Some s'"
  by (auto simp: vfio_pci_intx_mask_def Let_def nth_opt_def irq_inv_def)

lemma unmask_handler_defined: "irq_inv s \<Longrightarrow> \<exists>x. vfio_pci_intx_unmask_handler K s = Some x"
  by (auto simp: vfio_pci_intx_unmask_handler_def Let_def nth_opt_def irq_inv_def split: prod.splits)

lemma unmask_defined:
  assumes "irq_inv s" "intx_armed s"
  shows "\<exists>s'. vfio_pci_intx_unmask K s = Some s'"
proof -
  obtain r t where t: "vfio_pci_intx_unmask_handler K s = Some (r, t)"
    using unmask_handler_defined [OF assms(1)] by fast
  then have "quiet s t" by (rule quiet_unmask_handler)
  then obtain u where "vfio_send_intx_eventfd K t = Some u"
    using send_defined assms quiet_irq_inv quiet_intx_armed by metis
  with t show ?thesis by (simp add: vfio_pci_intx_unmask_def)
qed

lemma handler_defined:
  assumes "irq_inv s" "intx_armed s" "is_intx s"
  shows "\<exists>x. vfio_intx_handler K s = Some x"
proof -
  obtain c t where c: "ctx s = [c]" "trigger c = Some t" using assms by (rule intx_armed_ctx)
  then show ?thesis
    by (auto simp: vfio_intx_handler_def vfio_send_intx_eventfd_def eventfd_signal_def nth_opt_def
        Let_def case_prod_unfold)
qed

lemma intx_data:
  assumes "irq_data_ok flags 1 data"
  shows "flags AND VFIO_IRQ_SET_DATA_BOOL \<noteq> 0 \<Longrightarrow> \<exists>b. u8_at data 0 = Some b"
    and "flags AND VFIO_IRQ_SET_DATA_EVENTFD \<noteq> 0 \<Longrightarrow> \<exists>fd. s32_at data 0 = Some fd"
  using assms by (auto simp: irq_data_ok_def u8_at_def s32_at_def nth_opt_def load_def)

lemma set_intx_unmask_defined:
  assumes "irq_ok s" "intx_armed s" "irq_data_ok flags count data"
  shows "\<exists>x. vfio_pci_set_intx_unmask K index start count flags data s = Some x"
proof (cases "\<not> is_intx s \<or> start \<noteq> 0 \<or> count \<noteq> 1")
  case True
  then show ?thesis by (simp add: vfio_pci_set_intx_unmask_def)
next
  case False
  have inv: "irq_inv s" using assms by (simp add: irq_ok_def)
  obtain c where "ctx s = [c]" using intx_ctx [OF inv] False by blast
  moreover obtain u where "vfio_pci_intx_unmask K s = Some u" using unmask_defined inv assms(2) by blast
  ultimately have "vfio_pci_set_intx_unmask K index start count flags data s \<noteq> None"
    using False intx_data [of flags data] assms(3)
    by (auto simp: vfio_pci_set_intx_unmask_def disable_unmask_virqfd_def nth_opt_def Let_def
        case_prod_unfold bind_eq_None_conv simp del: not_None_eq split: if_splits)
  then show ?thesis by blast
qed

lemma set_intx_mask_defined:
  assumes "irq_ok s" "irq_data_ok flags count data"
  shows "\<exists>x. vfio_pci_set_intx_mask K index start count flags data s = Some x"
proof -
  obtain u where "vfio_pci_intx_mask K s = Some u" using mask_defined assms(1) by (auto simp: irq_ok_def)
  then have "vfio_pci_set_intx_mask K index start count flags data s \<noteq> None"
    using intx_data(1) [of flags data] assms(2)
    by (auto simp: vfio_pci_set_intx_mask_def bind_eq_None_conv simp del: not_None_eq split: if_splits)
  then show ?thesis by blast
qed

lemma set_intx_trigger_defined:
  assumes ok: "irq_ok s" and "intx_armed s" and data: "irq_data_ok flags count data"
  shows "\<exists>x. vfio_pci_set_intx_trigger K index start count flags data s = Some x"
proof -
  have inv: "irq_inv s" using ok by (simp add: irq_ok_def)
  obtain u where send: "vfio_send_intx_eventfd K s = Some u" using send_defined inv assms(2) by blast
  have signal: "\<exists>r t. vfio_intx_set_signal K fd e = Some (r, t) \<and> irq_inv t \<and> is_intx t"
    if "irq_inv e" "is_intx e" for fd e
    using intx_set_signal_defined [OF that, of K fd] intx_set_signal_post(1) [OF that] by blast
  have disable: "\<exists>t. vfio_intx_disable K e = Some t" if "irq_inv e" "is_intx e" for e
    using intx_disable_defined [OF that] .
  obtain q e where e: "vfio_intx_enable K s = (q, e)" by fastforce
  have enable: "irq_inv e" "q = 0 \<Longrightarrow> is_intx e" using intx_enable_post [OF inv e] by blast+
  show ?thesis
  proof (cases "count = 1 \<and> flags AND VFIO_IRQ_SET_DATA_EVENTFD \<noteq> 0")
    case True
    then obtain fd where fd: "s32_at data 0 = Some fd" using intx_data(2) data by blast
    show ?thesis
    proof (cases "is_intx s")
      case True
      with \<open>count = 1 \<and> _\<close> fd signal [OF inv, of fd] show ?thesis
        by (auto simp: vfio_pci_set_intx_trigger_def)
    next
      case False
      have "\<exists>x. (if q \<noteq> 0 then Some (q, e)
          else do { (ret, s) \<leftarrow> vfio_intx_set_signal K fd e;
                    s \<leftarrow> (if ret \<noteq> 0 then vfio_intx_disable K s else Some s);
                    Some (ret, s) }) = Some x"
      proof (cases "q = 0")
        case True
        then obtain r t where t: "vfio_intx_set_signal K fd e = Some (r, t)" "irq_inv t" "is_intx t"
          using signal enable by blast
        then obtain v where "vfio_intx_disable K t = Some v" using disable by blast
        with t True show ?thesis by simp
      qed simp
      with \<open>count = 1 \<and> _\<close> False fd e show ?thesis by (auto simp: vfio_pci_set_intx_trigger_def)
    qed
  next
    case False
    have "is_intx s \<Longrightarrow> vfio_intx_disable K s \<noteq> None" using disable [OF inv] by blast
    with False send intx_data(1) [of flags data] data
    have "vfio_pci_set_intx_trigger K index start count flags data s \<noteq> None"
      by (auto simp: vfio_pci_set_intx_trigger_def bind_eq_None_conv simp del: not_None_eq
          split: if_splits)
    then show ?thesis by blast
  qed
qed

end
