(* ===== verification/Intrs_Thms.thy ===== *)
theory Intrs_Thms
  imports Intrs_Safe
begin

text \<open>
  The interrupt component as a machine: the ioctl, the interrupts of the hardware and the unmask
  eventfd are its operations. Sequences of operations keep the invariant and the account
  (interpretation \<open>irq_machine\<close>), and without INTx none of them is ever undefined
  (interpretation \<open>msi_machine\<close>).
\<close>

section \<open>No undefined behaviour, continued\<close>

lemma loopback_defined:
  assumes "\<forall>i \<in> set is. i < length (ctx s) \<and> (flags AND VFIO_IRQ_SET_DATA_BOOL \<noteq> 0 \<longrightarrow> i - start < length data)"
  shows "\<exists>s'. msi_loopback K is start flags data s = Some s'"
  using assms
proof (induction "is" arbitrary: s)
  case (Cons i "is")
  then have i: "i < length (ctx s)" by simp
  define body where "body = (if trigger (ctx s ! i) = None then Some s
      else if flags AND VFIO_IRQ_SET_DATA_NONE \<noteq> 0 then eventfd_signal K (trigger (ctx s ! i)) s
      else if flags AND VFIO_IRQ_SET_DATA_BOOL \<noteq> 0 then do {
        b \<leftarrow> u8_at data (i - start);
        if b \<noteq> 0 then eventfd_signal K (trigger (ctx s ! i)) s else Some s
      } else Some s)"
  have "\<exists>t. body = Some t \<and> length (ctx t) = length (ctx s)"
    using Cons.prems by (auto simp: body_def eventfd_signal_def u8_at_def nth_opt_def)
  then obtain t where t: "body = Some t" "length (ctx t) = length (ctx s)" by blast
  have "\<exists>s'. msi_loopback K is start flags data t = Some s'"
    by (rule Cons.IH) (use Cons.prems t(2) in auto)
  then show ?case using t(1) i by (simp add: nth_opt_def body_def)
qed simp

lemma set_msi_trigger_defined:
  assumes ok: "irq_ok s" and index: "index \<in> {VFIO_PCI_MSI_IRQ_INDEX, VFIO_PCI_MSIX_IRQ_INDEX}"
    and data: "irq_data_ok flags count data"
  shows "\<exists>x. vfio_pci_set_msi_trigger K index start count flags data s = Some x"
proof -
  define msix where "msix = (index = VFIO_PCI_MSIX_IRQ_INDEX)"
  note defs = vfio_pci_set_msi_trigger_def Let_def msix_def [symmetric]
  show ?thesis
  proof (cases "irq_is s index \<or> is_irq_none s")
    case False
    then show ?thesis using index by (auto simp: defs)
  next
    case True
    then have nx: "\<not> is_intx s" using index by auto
    obtain d where d: "vfio_msi_disable K msix s = Some d" using msi_disable_defined [OF ok nx] by blast
    show ?thesis
    proof (cases "flags AND VFIO_IRQ_SET_DATA_EVENTFD = 0")
      case False
      then have dat: "\<forall>d. Some data = Some d \<longrightarrow> 4 * unat count \<le> length d"
        using data by (simp add: irq_data_ok_def)
      obtain r a where a: "vfio_msi_set_block K start count (Some data) msix s = Some (r, a)"
        using set_block_defined [OF ok nx dat] by blast
      obtain q e where e: "vfio_msi_enable K (sint (start + count)) msix s = (q, e)" by fastforce
      have "sint (start + count) < 2 ^ 31" using sint_lt [of "start + count"] by simp
      then have eok: "irq_ok e" "\<not> is_intx e" using msi_enable_post [OF ok _ e] nx by auto
      obtain p b where b: "vfio_msi_set_block K start count (Some data) msix e = Some (p, b)"
        using set_block_defined [OF eok dat] by blast
      from set_block_post(1) [OF eok b] eok have bok: "irq_ok b" "\<not> is_intx b"
        by (simp_all add: msi_step_def)
      obtain c where c: "vfio_msi_disable K msix b = Some c" using msi_disable_defined [OF bok] by blast
      show ?thesis using True False a b c d e by (auto simp: defs)
    next
      case c: True
      have len: "length (ctx s) = num_ctx s" using ok by (simp add: irq_ok_def irq_inv_def)
      have loop: "\<exists>x. msi_loopback K [unat start ..< unat (start + count)] (unat start) flags data s = Some x"
        if "unat (start + count) \<le> num_ctx s"
      proof (rule loopback_defined, intro ballI conjI impI)
        fix i assume i: "i \<in> set [unat start ..< unat (start + count)]"
        with that len show "i < length (ctx s)" by simp
        assume "flags AND VFIO_IRQ_SET_DATA_BOOL \<noteq> 0"
        then have "unat count \<le> length data" using data by (simp add: irq_data_ok_def)
        moreover have "unat (start + count) \<le> unat start + unat count" by (simp add: unat_word_ariths)
        ultimately show "i - unat start < length data" using i by auto
      qed
      show ?thesis using True c d loop by (auto simp: defs not_less)
    qed
  qed
qed

lemma ctx_trigger_single_defined:
  assumes "irq_data_ok flags count data"
  shows "\<exists>x. vfio_pci_set_ctx_trigger_single K c count flags data s = Some x"
proof (cases "count = 0")
  case True
  then show ?thesis by (cases c) (auto simp: vfio_pci_set_ctx_trigger_single_def)
next
  case False
  then have "1 \<le> unat count" by (simp add: unat_gt_0 Suc_le_eq)
  with assms have "irq_data_ok flags 1 data" by (auto simp: irq_data_ok_def)
  from intx_data [OF this]
  have "vfio_pci_set_ctx_trigger_single K c count flags data s \<noteq> None"
    by (auto simp: vfio_pci_set_ctx_trigger_single_def bind_eq_None_conv case_prod_unfold
        simp del: not_None_eq split: if_splits option.splits)
  then show ?thesis by blast
qed

lemma ioctl_defined:
  assumes ok: "irq_ok s" and armed: "intx_armed s" and data: "irq_data_ok flags count data"
  shows "\<exists>x. vfio_pci_set_irqs_ioctl K flags index start count data s = Some x"
proof (cases "irq_ioctl_func flags index s")
  case None
  then show ?thesis by (simp add: vfio_pci_set_irqs_ioctl_def)
next
  case (Some f)
  have "\<exists>x. vfio_pci_set_err_trigger K index start count flags data s = Some x"
    and "\<exists>x. vfio_pci_set_req_trigger K index start count flags data s = Some x"
    using ctx_trigger_single_defined [OF data, of K "err_trigger s" s]
      ctx_trigger_single_defined [OF data, of K "req_trigger s" s]
    by (auto simp: vfio_pci_set_err_trigger_def vfio_pci_set_req_trigger_def)
  moreover have "f = Set_msi_trigger \<Longrightarrow>
      \<exists>x. vfio_pci_set_msi_trigger K index start count flags data s = Some x"
    using Some set_msi_trigger_defined [OF ok irq_ioctl_func_msi data] by blast
  ultimately show ?thesis using Some assms
    by (cases f) (simp_all add: vfio_pci_set_irqs_ioctl_def set_intx_mask_defined
        set_intx_unmask_defined set_intx_trigger_defined del: split_paired_Ex)
qed

section \<open>The machine\<close>

text \<open>
  Interrupts of the line reach the handler only while it is registered, that is while an INTx context
  is armed; the virqfd of \<^verbatim>\<open>VFIO_IRQ_SET_ACTION_UNMASK\<close> runs the unmask handler and, if that asks for
  it, the signalling function.
\<close>

datatype irq_op =
    Set_irqs u32 nat u32 u32 "u8 list"
  | Intx_fires
  | Msi_fires nat
  | Unmask_eventfd

fun irq_step :: "kernel \<Rightarrow> irq_op \<Rightarrow> vfio_pci_device \<Rightarrow> vfio_pci_device option" where
  "irq_step K (Set_irqs flags index start count data) s =
     map_option snd (vfio_pci_set_irqs_ioctl K flags index start count data s)"
| "irq_step K Intx_fires s =
     (if is_intx s \<and> armed (ctx s) = 1 then map_option snd (vfio_intx_handler K s) else Some s)"
| "irq_step K (Msi_fires v) s =
     (if \<not> is_intx s \<and> v < length (ctx s)
      then Some (case trigger (ctx s ! v) of None \<Rightarrow> s | Some t \<Rightarrow> snd (vfio_msihandler K t s))
      else Some s)"
| "irq_step K Unmask_eventfd s = (if is_intx s then vfio_pci_intx_unmask K s else Some s)"

lemma irq_step_ok:
  assumes "irq_ok s" "irq_step K x s = Some s'"
  shows "irq_ok s'"
proof (cases x)
  case (Set_irqs flags index start count data)
  with assms show ?thesis by (auto dest: ioctl_irq_ok)
next
  case Intx_fires
  with assms have "s' = s \<or> (\<exists>r. vfio_intx_handler K s = Some (r, s'))" by (auto split: if_splits)
  then show ?thesis using assms(1) quiet_handler quiet_ok by blast
next
  case (Msi_fires v)
  then have "quiet s s'" using assms(2)
    by (auto simp: vfio_msihandler_def quiet_kcall split: if_splits option.splits)
  then show ?thesis using assms(1) by (rule quiet_ok)
next
  case Unmask_eventfd
  with assms have "quiet s s'" by (auto split: if_splits dest: quiet_unmask)
  then show ?thesis using assms(1) by (rule quiet_ok)
qed

interpretation irq_machine: kept_by "irq_step K" "\<lambda>_. True" irq_ok for K
  by unfold_locales (rule irq_step_ok)

text \<open>Operations of a user that leaves INTx alone, and whose data is as large as announced.\<close>

definition msi_op :: "irq_op \<Rightarrow> bool" where
  "msi_op x \<longleftrightarrow>
     (case x of
        Set_irqs flags index start count data \<Rightarrow>
          index \<noteq> VFIO_PCI_INTX_IRQ_INDEX \<and> irq_data_ok flags count data
      | _ \<Rightarrow> True)"

definition msi_inv :: "vfio_pci_device \<Rightarrow> bool" where
  "msi_inv s \<longleftrightarrow> irq_ok s \<and> \<not> is_intx s"

lemma irq_type_err_req:
  assumes "vfio_pci_set_err_trigger K index start count flags data s = Some (r, s') \<or>
    vfio_pci_set_req_trigger K index start count flags data s = Some (r, s')"
  shows "irq_type s' = irq_type s"
  using assms ctx_trigger_single_post(5)
  by (fastforce simp: vfio_pci_set_err_trigger_def vfio_pci_set_req_trigger_def bind_eq_Some_conv
      split: if_splits)

lemma ioctl_not_intx:
  assumes "irq_ok s" "\<not> is_intx s" "index \<noteq> VFIO_PCI_INTX_IRQ_INDEX"
    and ret: "vfio_pci_set_irqs_ioctl K flags index start count data s = Some (r, s')"
  shows "\<not> is_intx s'"
proof (cases "irq_ioctl_func flags index s")
  case None
  with assms show ?thesis by (simp add: vfio_pci_set_irqs_ioctl_def)
next
  case (Some f)
  with assms show ?thesis
    by (cases f) (auto simp: vfio_pci_set_irqs_ioctl_def irq_ioctl_func_def Let_def
        dest: irq_type_err_req [OF disjI1] irq_type_err_req [OF disjI2] set_msi_trigger_post(2) [rotated 2]
        split: if_splits)
qed

lemma msi_step_inv:
  assumes "msi_inv s" "msi_op x" "irq_step K x s = Some s'"
  shows "msi_inv s'"
proof -
  have "\<not> is_intx s'" using assms
    by (cases x) (auto simp: msi_inv_def msi_op_def vfio_msihandler_def dest: ioctl_not_intx
        split: if_splits option.splits)
  with assms irq_step_ok show ?thesis by (auto simp: msi_inv_def)
qed

lemma msi_step_defined:
  assumes "msi_inv s" "msi_op x"
  shows "\<exists>s'. irq_step K x s = Some s'"
proof (cases x)
  case (Set_irqs flags index start count data)
  with assms have "\<exists>y. vfio_pci_set_irqs_ioctl K flags index start count data s = Some y"
    by (intro ioctl_defined) (auto simp: msi_inv_def msi_op_def intx_armed_def)
  with Set_irqs show ?thesis by auto
qed (use assms in \<open>auto simp: msi_inv_def\<close>)

interpretation msi_machine: safe_under "irq_step K" msi_op msi_inv for K
  by unfold_locales (blast intro: msi_step_inv msi_step_defined)+

end
