(* ===== verification/Samples.thy ===== *)
theory Samples
  imports Device
begin

text \<open>
  A concrete kernel and a concrete device, on which the witnesses of the theorems are evaluated. The
  kernel grants every allocation and every request, numbers eventfd contexts by their descriptor and
  keeps a configuration space of 256 bytes that remembers what was written to it.
\<close>

fun bit_length :: "nat \<Rightarrow> nat" where
  "bit_length n = (if n = 0 then 0 else Suc (bit_length (n div 2)))"

declare bit_length.simps [simp del]

lemma bit_length_law: "0 < x \<Longrightarrow> 2 ^ (bit_length x - 1) \<le> x \<and> x < 2 ^ bit_length x"
proof (induction x rule: bit_length.induct)
  case (1 n)
  show ?case
  proof (cases "n = 1")
    case True
    then show ?thesis by (simp add: bit_length.simps)
  next
    case False
    with "1.prems" have "0 < n div 2" by auto
    with "1" have IH: "2 ^ (bit_length (n div 2) - 1) \<le> n div 2" "n div 2 < 2 ^ bit_length (n div 2)"
      by simp_all
    from \<open>0 < n div 2\<close> have pos: "0 < bit_length (n div 2)" by (simp add: bit_length.simps)
    have eq: "bit_length n = Suc (bit_length (n div 2))" using "1.prems" by (simp add: bit_length.simps)
    have "2 * 2 ^ (bit_length (n div 2) - 1) = (2::nat) ^ bit_length (n div 2)"
      using pos by (simp flip: power_Suc)
    with IH show ?thesis unfolding eq by simp linarith
  qed
qed

text \<open>The bytes of configuration space after a history of calls, newest first.\<close>

fun cfg_after :: "u8 list \<Rightarrow> kevent list \<Rightarrow> u8 list" where
  "cfg_after bs [] = bs"
| "cfg_after bs ((c, r) # h) =
     (let bs' = cfg_after bs h in
      case c of
        Config (User_write_config n off v) \<Rightarrow> (case store bs' off n v of None \<Rightarrow> bs' | Some x \<Rightarrow> x)
      | Config (Write_config n off v) \<Rightarrow> (case store bs' off n v of None \<Rightarrow> bs' | Some x \<Rightarrow> x)
      | _ \<Rightarrow> bs')"

definition cfg_answer :: "u8 list \<Rightarrow> nat \<Rightarrow> nat \<Rightarrow> kresult" where
  "cfg_answer bs n off = (case load bs off n of None \<Rightarrow> (- EINVAL, 0) | Some v \<Rightarrow> (0, ucast v))"

fun sample_respond :: "u8 list \<Rightarrow> kevent list \<Rightarrow> kcall \<Rightarrow> kresult" where
  "sample_respond bs h (Config (User_read_config n off)) = cfg_answer (cfg_after bs h) n off"
| "sample_respond bs h (Config (Read_config n off)) = cfg_answer (cfg_after bs h) n off"
| "sample_respond bs h (Mem Alloc) = (1, 0)"
| "sample_respond bs h (Evt (Eventfd_ctx_fdget fd)) = (100 + fd, 0)"
| "sample_respond bs h (Irq (Alloc_irq_vectors m n x)) = (int n, 0)"
| "sample_respond bs h (Irq (Irq_vector v)) = (32 + int v, 0)"
| "sample_respond bs h (Irq Check_and_mask_intx) = (1, 0)"
| "sample_respond bs h (Irq Intx_mask_supported) = (1, 0)"
| "sample_respond bs h (Irq (Set_irqs_validate a f i st n m)) = (0, 4 * ucast n)"
| "sample_respond bs h (Life Module_get) = (1, 0)"
| "sample_respond bs h (Life Iommu_group_get) = (1, 0)"
| "sample_respond bs h (Power Store_saved_state) = (1, 0)"
| "sample_respond bs h (Irq Check_and_unmask_intx) = (1, 0)"
| "sample_respond bs h (Power Pcie_get_mps) = (256, 0)"
| "sample_respond bs h (Power (Read_vpd a)) = (4, 0x12345678)"
| "sample_respond bs h (Power (Write_vpd a v)) = (4, 0)"
| "sample_respond bs h (Io (Iomap b)) = (4096, 0)"
| "sample_respond bs h (Io Map_rom) = (4096, 512)"
| "sample_respond bs h (Io (Ioread n a)) = (0, word_of_int a)"
| "sample_respond bs h (Io (Ioremap_nocache a n)) = (8192, 0)"
| "sample_respond bs h (Io (Ioport_map a n)) = (8192, 0)"
| "sample_respond bs h c = (0, 0)"

definition sample_kernel :: "u8 list \<Rightarrow> kernel" where
  "sample_kernel bs = \<lparr>respond = sample_respond bs,
     err_to_errno = (\<lambda>e. if e \<le> 0 then e else - 34), fls = bit_length,
     heap_garbage = (\<lambda>i. 0xa5),
     has_iowrite64 = True, IS_ENABLED_VFIO_PCI_INTX = True, IS_ENABLED_VFIO_PCI_MMAP = True,
     IS_ENABLED_VFIO_PCI_VGA = True, IS_ENABLED_VFIO_PCI_IGD = True, IS_ENABLED_VFIO_PCI_NVLINK2 = True\<rparr>"

definition sample_pdev :: pci_dev where
  "sample_pdev = \<lparr>vendor = 0x10de, device_id = 0x1b80, cfg_size = 256, is_virtfn = False,
     is_pcie = True, pdev_irq = 11, hdr_type = 0, pci_class = 0x20000, msi_cap = 0, msix_cap = 0,
     resource = (\<lambda>i. if i = 0 then \<lparr>res_start = 0xf0000000, res_len = 0x1000, res_flags = IORESOURCE_MEM\<rparr>
                     else \<lparr>res_start = 0, res_len = 0, res_flags = 0\<rparr>)\<rparr>"

definition sample_device :: vfio_pci_device where
  "sample_device = \<lparr>trace = [], pdev = sample_pdev, barmap = (\<lambda>_. None), bar_mmap_supported = (\<lambda>i. i = 0),
     pci_config_map = [], vconfig = [], msi_perm = NULL, ctx = [], num_ctx = 0,
     irq_type = VFIO_PCI_NUM_IRQS, regions = [], msi_qmax = 0, msix_bar = 0xff, msix_size = 0, msix_offset = 0,
     rbar = [0, 0, 0, 0, 0, 0, 0], pci_2_3 = True, virq_disabled = False, reset_works = True, extended_caps = False,
     bardirty = False, has_vga = False, needs_reset = False, nointx = False,
     pci_saved_state = None, reflck = None, refcnt = 0, ioeventfds_nr = 0, ioeventfds_list = [],
     err_trigger = None, req_trigger = None, dummy_resources_list = Some [], user_mem = (\<lambda>_. 0)\<rparr>"

text \<open>
  A configuration space: the header, power management at 0x40, MSI with 64-bit addresses at 0x48, vital
  product data at 0x60, PCI Express with FLR at 0x70, advanced features at 0xb0 and a vendor
  capability of 16 bytes at 0xc0.
\<close>

definition sample_cfg :: "u8 list" where
  "sample_cfg =
     [0xde, 0x10, 0x80, 0x1b, 0x06, 0, 0x10, 0] @ replicate 8 0 @
     [0, 0, 0, 0xf0] @ replicate 32 0 @ [0x40, 0, 0, 0, 0, 0, 0, 0, 11, 1, 0, 0] @
     [0x01, 0x48, 0x03, 0, 0x08, 0, 0, 0] @
     [0x05, 0x60, 0x88, 0] @ replicate 20 0 @
     [0x03, 0x70, 0, 0, 0, 0, 0, 0] @ replicate 8 0 @
     [0x10, 0xb0, 0x02, 0, 0, 0, 0, 0x10, 0x10, 0x28] @ replicate 54 0 @
     [0x13, 0xc0, 0x06, 0x03, 0, 0] @ replicate 10 0 @
     [0x09, 0, 0x10] @ replicate 61 0"

text \<open>The sample kernel behaves as the named laws of \<^verbatim>\<open>Kernel\<close> say.\<close>

lemma sample_kernel_laws:
  "user_cfg_law (sample_kernel bs)" "errno_law (sample_kernel bs)" "fls_law (sample_kernel bs)"
proof -
  show "user_cfg_law (sample_kernel bs)"
    by (auto simp: user_cfg_law_def sample_kernel_def cfg_answer_def split: option.splits)
  show "errno_law (sample_kernel bs)" by (simp add: errno_law_def sample_kernel_def)
  show "fls_law (sample_kernel bs)"
    using bit_length_law by (simp add: fls_law_def sample_kernel_def bit_length.simps)
qed

text \<open>A kernel whose mapped I/O is plain memory, and a device with a mapped BAR that holds an MSI-X table.\<close>

definition ram_kernel :: "(int \<Rightarrow> u8) \<Rightarrow> kernel" where
  "ram_kernel mem = (sample_kernel [])\<lparr>respond := \<lambda>h c. case c of
       Io (Ioread n a) \<Rightarrow> (0, ucast (le_val (map (\<lambda>i. mem (a + int i)) [0..<n])))
     | _ \<Rightarrow> sample_respond [] h c\<rparr>"

definition sample_msix_device :: vfio_pci_device where
  "sample_msix_device = sample_device\<lparr>barmap := (\<lambda>_. None)(0 := Some 4096), msix_bar := 0, msix_offset := 8,
     msix_size := 16, has_vga := True\<rparr>"

end
