(* ===== verification/Intrs_Props.thy ===== *)
theory Intrs_Props
  imports Intrs_Thms Samples
begin

text \<open>
  The properties of the interrupt component, each with a run of the sample device on which its
  hypotheses hold.
\<close>

section \<open>What the runs below show of a state\<close>

definition irq_view :: "vfio_pci_device \<Rightarrow> nat \<times> (int option \<times> bool) list" where
  "irq_view s = (irq_type s, map (\<lambda>c. (trigger c, masked c)) (ctx s))"

lemma sample_irq_ok: "irq_ok sample_device"
  by (simp add: irq_ok_def irq_inv_def balanced_def sample_device_def refs_def lines_def
      held_refs_def held_lines_def split: irq_cookie.splits)

abbreviation SET_TRIGGER_EVENTFD :: u32 where
  "SET_TRIGGER_EVENTFD \<equiv> VFIO_IRQ_SET_ACTION_TRIGGER OR VFIO_IRQ_SET_DATA_EVENTFD"

abbreviation SET_TRIGGER_NONE :: u32 where
  "SET_TRIGGER_NONE \<equiv> VFIO_IRQ_SET_ACTION_TRIGGER OR VFIO_IRQ_SET_DATA_NONE"

text \<open>Two MSI vectors on descriptors 5 and 6, a third descriptor on the error interrupt.\<close>

definition sample_msi_ops :: "irq_op list" where
  "sample_msi_ops =
     [Set_irqs SET_TRIGGER_EVENTFD VFIO_PCI_MSI_IRQ_INDEX 0 2 [5, 0, 0, 0, 6, 0, 0, 0],
      Set_irqs SET_TRIGGER_EVENTFD VFIO_PCI_ERR_IRQ_INDEX 0 1 [7, 0, 0, 0],
      Msi_fires 1,
      Set_irqs SET_TRIGGER_EVENTFD VFIO_PCI_MSI_IRQ_INDEX 1 1 [255, 255, 255, 255]]"

lemma sample_msi_run:
  "map_option irq_view (run (irq_step (sample_kernel [])) sample_msi_ops sample_device) =
     Some (VFIO_PCI_MSI_IRQ_INDEX, [(Some 105, False), (None, False)])"
  by code_simp

section \<open>The account of eventfds and interrupt lines\<close>

text \<open>C5. Whatever sequence of ioctls, interrupts and unmask events a device goes through, whatever
  the kernel answers, the context array fits the kind of interrupt in use, every eventfd reference
  that was taken and not dropped is held by exactly the contexts and triggers that point to it, and
  every requested and not yet freed interrupt line belongs to an armed context: no leak and no
  double free.\<close>

theorem interrupt_account:
  assumes "irq_ok s" and "run (irq_step K) xs s = Some s'"
  shows "irq_inv s' \<and> (\<forall>t. refs t (trace s') = held_refs t s') \<and>
    (\<forall>k. lines k (trace s') = held_lines k s')"
  using irq_machine.run_inv [OF assms(1) _ assms(2)] by (simp add: list_all_iff irq_ok_def balanced_def)

lemma interrupt_account_witness:
  "\<exists>s'. run (irq_step (sample_kernel [])) sample_msi_ops sample_device = Some s' \<and>
     ctx s' \<noteq> [] \<and> refs 105 (trace s') = held_refs 105 s'"
proof -
  obtain s' where r: "run (irq_step (sample_kernel [])) sample_msi_ops sample_device = Some s'"
    and v: "irq_view s' = (VFIO_PCI_MSI_IRQ_INDEX, [(Some 105, False), (None, False)])"
    using sample_msi_run by auto
  from v have "ctx s' \<noteq> []" by (auto simp: irq_view_def)
  with r interrupt_account [OF sample_irq_ok r] show ?thesis by blast
qed

text \<open>A user that leaves INTx alone and passes ioctl data of the announced size never drives the
  interrupt code into undefined behaviour: any sequence of such ioctls, of MSI interrupts and of
  unmask events runs to its end.\<close>

theorem msi_users_are_safe:
  assumes "irq_ok s" "\<not> is_intx s" "list_all msi_op xs"
  shows "\<exists>s'. run (irq_step K) xs s = Some s' \<and> irq_ok s' \<and> \<not> is_intx s'"
  using msi_machine.run_defined [of s xs K] assms by (auto simp: msi_inv_def)

lemma msi_users_are_safe_witness:
  "\<exists>s'. run (irq_step (sample_kernel [])) sample_msi_ops sample_device = Some s' \<and> irq_ok s' \<and>
     \<not> is_intx s'"
proof (rule msi_users_are_safe)
  show "irq_ok sample_device" by (rule sample_irq_ok)
  show "\<not> is_intx sample_device" by (simp add: sample_device_def)
  show "list_all msi_op sample_msi_ops"
    by (simp add: sample_msi_ops_def msi_op_def irq_data_ok_def)
qed

text \<open>The interrupt ioctl is memory safe in every state in which an INTx device has its eventfd,
  for every index, action, range and data of the announced size.\<close>

theorem irq_ioctl_safe:
  assumes "irq_ok s" "is_intx s \<longrightarrow> armed (ctx s) = 1" "irq_data_ok flags count data"
  shows "\<exists>r s'. vfio_pci_set_irqs_ioctl K flags index start count data s = Some (r, s') \<and> irq_ok s'"
proof -
  obtain r s' where ret: "vfio_pci_set_irqs_ioctl K flags index start count data s = Some (r, s')"
    using ioctl_defined [of s flags count data K index start] assms by (auto simp: intx_armed_def)
  with ioctl_irq_ok [OF assms(1) ret] show ?thesis by blast
qed

lemma irq_ioctl_safe_witness:
  "\<exists>r s'. vfio_pci_set_irqs_ioctl (sample_kernel []) SET_TRIGGER_EVENTFD VFIO_PCI_INTX_IRQ_INDEX 0 1
     [9, 0, 0, 0] sample_device = Some (r, s') \<and> irq_ok s'"
proof (rule irq_ioctl_safe [OF sample_irq_ok])
  show "is_intx sample_device \<longrightarrow> armed (ctx sample_device) = 1" by (simp add: sample_device_def)
  show "irq_data_ok SET_TRIGGER_EVENTFD 1 [9, 0, 0, 0]" by (simp add: irq_data_ok_def)
qed

text \<open>C14. Closing the device with the ioctl that \<^verbatim>\<open>vfio_pci_disable\<close> issues (trigger, no data, the type
  in use, count 0) cannot be undefined, ends with no interrupt type and no context, frees every line
  and drops every eventfd reference except those of the error and request triggers.\<close>

theorem disable_releases_interrupts:
  assumes ok: "irq_ok s"
  shows "\<exists>r s'. vfio_pci_set_irqs_ioctl K SET_TRIGGER_NONE (irq_type s) 0 0 [] s = Some (r, s') \<and>
    is_irq_none s' \<and> ctx s' = [] \<and> (\<forall>k. lines k (trace s') = 0) \<and>
    (\<forall>t. refs t (trace s') = of_bool (err_trigger s' = Some t) + of_bool (req_trigger s' = Some t))"
proof -
  have inv: "irq_inv s" using ok by (simp add: irq_ok_def)
  have "\<exists>r s'. vfio_pci_set_irqs_ioctl K SET_TRIGGER_NONE (irq_type s) 0 0 [] s = Some (r, s') \<and>
      is_irq_none s' \<and> ctx s' = []"
  proof -
    consider "is_intx s" | "is_msi s \<or> is_msix s" | "irq_type s = VFIO_PCI_NUM_IRQS"
      using inv by (auto simp: irq_inv_def)
    then show ?thesis
    proof cases
      case 1
      then obtain t where "vfio_intx_disable K s = Some t" using intx_disable_defined inv by blast
      moreover from this have "ctx t = []" by (auto simp: vfio_intx_disable_def bind_eq_Some_conv)
      ultimately show ?thesis using 1 intx_disable_post(3) [OF inv 1, of K t]
        by (simp add: vfio_pci_set_irqs_ioctl_def irq_ioctl_func_def vfio_pci_set_intx_trigger_def)
    next
      case 2
      then have "\<not> is_intx s" by auto
      then obtain t where t: "vfio_msi_disable K (is_msix s) s = Some t"
        using msi_disable_defined ok by blast
      show ?thesis using 2 t msi_disable_post [OF ok \<open>\<not> is_intx s\<close> t]
        by (auto simp: vfio_pci_set_irqs_ioctl_def irq_ioctl_func_def vfio_pci_set_msi_trigger_def)
    next
      case 3
      then show ?thesis using inv
        by (simp add: vfio_pci_set_irqs_ioctl_def irq_ioctl_func_def irq_inv_def flip: length_0_conv)
    qed
  qed
  then obtain r s' where s': "vfio_pci_set_irqs_ioctl K SET_TRIGGER_NONE (irq_type s) 0 0 [] s = Some (r, s')"
    "is_irq_none s'" "ctx s' = []" by blast
  have "balanced s'" using ioctl_irq_ok [OF ok s'(1)] by (simp add: irq_ok_def)
  with s' show ?thesis
    by (auto simp: balanced_def held_refs_def held_lines_def split: irq_cookie.splits)
qed

lemma disable_releases_interrupts_witness:
  "\<exists>r s'. vfio_pci_set_irqs_ioctl (sample_kernel []) SET_TRIGGER_NONE (irq_type sample_device) 0 0 []
     sample_device = Some (r, s') \<and> is_irq_none s'"
  using disable_releases_interrupts [OF sample_irq_ok] by blast

section \<open>Blocks of vectors\<close>

text \<open>C18. Setting a block of MSI vectors is all or nothing: on success every vector of the block is
  armed exactly if its descriptor is not negative; on failure every vector the loop reached is
  unarmed again; vectors outside the block keep their context in either case.\<close>

theorem set_block_all_or_nothing:
  assumes "irq_ok s" "\<not> is_intx s" "unat start + unat count \<le> num_ctx s" "0 < count"
    and "vfio_msi_set_block K start count fds msix s = Some (r, s')"
  shows "irq_ok s' \<and>
    (\<forall>v < num_ctx s. v \<notin> {unat start ..< unat start + unat count} \<longrightarrow> ctx s' ! v = ctx s ! v) \<and>
    (r = 0 \<longrightarrow> (\<forall>m < unat count. \<exists>fd. fd_at fds m = Some fd \<and>
       (trigger (ctx s' ! (unat start + m)) \<noteq> None \<longleftrightarrow> 0 \<le> fd))) \<and>
    (r \<noteq> 0 \<longrightarrow> (\<exists>k < unat count.
       (\<forall>v \<in> {unat start .. unat start + k}. trigger (ctx s' ! v) = None) \<and>
       (\<forall>v \<in> {unat start + k <..< num_ctx s}. ctx s' ! v = ctx s ! v)))"
proof -
  have small: "unat start + unat count < 2 ^ 32" and sum: "unat (start + count) = unat start + unat count"
    using assms(1,3) by (simp_all add: irq_ok_def irq_inv_def unat_word_ariths)
  have "0 < unat count" using assms(4) by (simp add: unat_gt_0)
  then have lt: "unat start < num_ctx s" using assms(3) by linarith
  note post = set_block_post [OF assms(1,2,5)]
  have fail: "\<exists>k < unat count. (\<forall>v \<in> {unat start .. unat start + k}. trigger (ctx s' ! v) = None) \<and>
       (\<forall>v \<in> {unat start + k <..< num_ctx s}. ctx s' ! v = ctx s ! v)" if ne: "r \<noteq> 0"
  proof -
    obtain k where k: "k < unat count" "msi_step {unat start .. unat start + k} s s'"
      "\<forall>v \<in> {unat start .. unat start + k}. v < num_ctx s \<longrightarrow> \<not> is_armed s' v"
      using post(3) [OF ne lt] sum assms(3) by auto
    then have "\<forall>v \<in> {unat start .. unat start + k}. trigger (ctx s' ! v) = None"
      using assms(3) by (auto simp: is_armed_def)
    with k show ?thesis by (auto simp: msi_step_def)
  qed
  show ?thesis using post(1,2) small fail by (auto simp: msi_step_def is_armed_def)
qed

text \<open>A device with two MSI vectors, both still unarmed.\<close>

definition sample_msi_device :: vfio_pci_device where
  "sample_msi_device = sample_device\<lparr>irq_type := VFIO_PCI_MSI_IRQ_INDEX, num_ctx := 2,
     ctx := [empty_irq_ctx, empty_irq_ctx]\<rparr>"

lemma sample_msi_irq_ok: "irq_ok sample_msi_device"
  by (simp add: irq_ok_def irq_inv_def balanced_def sample_msi_device_def sample_device_def refs_def
      lines_def held_refs_def held_lines_def split: irq_cookie.splits)

lemma set_block_all_or_nothing_witness:
  "\<exists>s'. vfio_msi_set_block (sample_kernel []) 0 2 (Some [5, 0, 0, 0, 255, 255, 255, 255]) False
     sample_msi_device = Some (0, s') \<and> irq_ok s' \<and> trigger (ctx s' ! 0) \<noteq> None \<and> trigger (ctx s' ! 1) = None"
proof -
  have "map_option (\<lambda>(r, t). (r, irq_view t)) (vfio_msi_set_block (sample_kernel []) 0 2
      (Some [5, 0, 0, 0, 255, 255, 255, 255]) False sample_msi_device) =
      Some (0, VFIO_PCI_MSI_IRQ_INDEX, [(Some 105, False), (None, False)])"
    by code_simp
  then obtain s' where r: "vfio_msi_set_block (sample_kernel []) 0 2
      (Some [5, 0, 0, 0, 255, 255, 255, 255]) False sample_msi_device = Some (0, s')"
    and v: "map (\<lambda>c. (trigger c, masked c)) (ctx s') = [(Some 105, False), (None, False)]"
    by (auto simp: irq_view_def)
  have "irq_ok s'"
    using set_block_all_or_nothing [OF sample_msi_irq_ok _ _ _ r] by (simp add: sample_msi_device_def)
  moreover from v obtain c d where "ctx s' = [c, d]" "trigger c = Some 105" "trigger d = None" by auto
  ultimately show ?thesis using r by simp
qed

text \<open>Enabling $n$ MSI vectors advertises to the user the smallest power of two that is not below
  $n$: \<open>msi_qmax\<close> is the base-two logarithm of $n$, rounded up, for a kernel whose \<^verbatim>\<open>fls\<close> is the
  position of the highest bit.\<close>

theorem msi_qmax_is_log2:
  assumes "fls_law K" "0 < n" "n \<le> 2 ^ 30" and "vfio_msi_enable K (int n) False s = (0, s')"
    and "is_irq_none s" "is_msi s'"
  shows "n \<le> 2 ^ unat (msi_qmax s') \<and> 2 ^ unat (msi_qmax s') < 2 * n"
proof -
  define x where "x = 2 * n - 1"
  have "unat (word_of_int (int n * 2 - 1) :: u32) = x"
    using assms(2,3) unfolding x_def by (subst unat_word_of_int_small) (auto simp: nat_diff_distrib)
  then have q: "msi_qmax s' = word_of_int (int (fls K x) - 1)" using assms(4,5,6)
    by (auto simp: vfio_msi_enable_def case_prod_unfold Let_def split: if_splits)
  have pos: "0 < x" and "x < 2 ^ 31" using assms(2,3) by (simp_all add: x_def)
  with assms(1) have b: "2 ^ (fls K x - 1) \<le> x" "x < 2 ^ fls K x" by (auto simp: fls_law_def)
  have "fls K x \<noteq> 0" using b(2) pos by (cases "fls K x") auto
  moreover have "fls K x - 1 < 31"
    by (rule power_less_imp_less_exp [of "2::nat"]) (use b(1) \<open>x < 2 ^ 31\<close> in linarith)+
  ultimately have "unat (msi_qmax s') = fls K x - 1" unfolding q
    by (subst unat_word_of_int_small) (auto simp: nat_diff_distrib)
  moreover have "x < 2 * 2 ^ (fls K x - 1)"
    using b(2) \<open>fls K x \<noteq> 0\<close> by (cases "fls K x") simp_all
  ultimately show ?thesis using b assms(2) unfolding x_def by simp linarith
qed

lemma msi_qmax_is_log2_witness:
  "\<exists>s'. vfio_msi_enable (sample_kernel []) 3 False sample_device = (0, s') \<and>
     3 \<le> (2::nat) ^ unat (msi_qmax s') \<and> 2 ^ unat (msi_qmax s') < (6::nat)"
proof -
  have "(case vfio_msi_enable (sample_kernel []) 3 False sample_device of (r, t) \<Rightarrow> r = 0 \<and> is_msi t)"
    by code_simp
  then obtain s' where r: "vfio_msi_enable (sample_kernel []) 3 False sample_device = (0, s')" "is_msi s'"
    by (auto split: prod.splits)
  with msi_qmax_is_log2 [OF sample_kernel_laws(3), of 3 "[]" sample_device s'] show ?thesis
    by (simp add: sample_device_def)
qed

section \<open>INTx\<close>

text \<open>An INTx interrupt on an unmasked line is relayed once: if the device asserts it, the handler
  masks the line, signals the eventfd, and leaves the context masked, so that the handler run again
  makes no call and reports the interrupt as not its own; if the device does not assert it, nothing
  is signalled and the context stays unmasked.\<close>

theorem intx_relayed_once:
  assumes "ctx s = [c]" "trigger c = Some t" "\<not> masked c" "is_intx s" "pci_2_3 s" "\<not> virq_disabled s"
    and "handled \<longleftrightarrow> fst (respond K (trace s) (Irq Check_and_mask_intx)) \<noteq> 0"
  shows "\<exists>s'. vfio_intx_handler K s = Some (handled, s') \<and>
    ctx s' = [c\<lparr>masked := handled\<rparr>] \<and>
    calls s s' = (if handled then [Irq Check_and_mask_intx, Evt (Eventfd_signal t)]
                  else [Irq Check_and_mask_intx]) \<and>
    (handled \<longrightarrow> vfio_intx_handler K s' = Some (False, s'))"
proof -
  have "c\<lparr>masked := False\<rparr> = c" using assms(3) by (cases c) simp
  then show ?thesis using assms
    by (auto simp: vfio_intx_handler_def vfio_send_intx_eventfd_def eventfd_signal_def nth_opt_def
        kcall_simps calls_def new_events_def ctx_upd_def split: if_splits)
qed

text \<open>A device whose INTx interrupt is armed with the eventfd context 109.\<close>

definition sample_intx_device :: vfio_pci_device where
  "sample_intx_device = sample_device\<lparr>irq_type := VFIO_PCI_INTX_IRQ_INDEX, num_ctx := 1,
     ctx := [empty_irq_ctx\<lparr>trigger := Some 109, irq_name := True\<rparr>]\<rparr>"

lemma sample_intx_fields:
  "ctx sample_intx_device = [empty_irq_ctx\<lparr>trigger := Some 109, irq_name := True\<rparr>]"
  "is_intx sample_intx_device" "pci_2_3 sample_intx_device" "\<not> virq_disabled sample_intx_device"
  "\<not> masked (empty_irq_ctx\<lparr>trigger := Some 109, irq_name := True\<rparr>)"
  by (simp_all add: sample_intx_device_def sample_device_def empty_irq_ctx_def)

lemma intx_relayed_once_witness:
  "\<exists>s'. vfio_intx_handler (sample_kernel []) sample_intx_device = Some (True, s') \<and>
     calls sample_intx_device s' = [Irq Check_and_mask_intx, Evt (Eventfd_signal 109)]"
  using intx_relayed_once [OF sample_intx_fields(1) _ sample_intx_fields(5,2,3,4),
      of 109 True "sample_kernel []"]
  by (auto simp: sample_kernel_def)



text \<open>While the guest has interrupts disabled in its command register (\<open>virq_disabled\<close>), an
  interrupt on an unmasked line makes the one call that masks it at the device or the controller, and
  an unmask event no call: the INTx eventfd is not signalled.\<close>

theorem intx_disabled_is_silent:
  assumes "is_intx s" "virq_disabled s" "ctx s = [c]" "trigger c = Some t"
  shows "(\<not> masked c \<longrightarrow> (\<exists>s'. irq_step K Intx_fires s = Some s' \<and>
      calls s s' = [if pci_2_3 s then Irq Check_and_mask_intx
                    else Irq (Disable_irq_nosync (pdev_irq (pdev s)))])) \<and>
    irq_step K Unmask_eventfd s = Some s"
proof -
  have "armed (ctx s) = 1" using assms by simp
  then show ?thesis using assms
    by (cases "pci_2_3 s")
      (auto simp: vfio_intx_handler_def vfio_pci_intx_unmask_def vfio_pci_intx_unmask_handler_def
        vfio_send_intx_eventfd_def nth_opt_def kcall_simps calls_def new_events_def ctx_upd_def Let_def)
qed

lemma intx_disabled_is_silent_witness:
  "\<exists>s'. irq_step (sample_kernel []) Intx_fires (sample_intx_device\<lparr>virq_disabled := True\<rparr>) = Some s' \<and>
     calls (sample_intx_device\<lparr>virq_disabled := True\<rparr>) s' = [Irq Check_and_mask_intx]"
  using intx_disabled_is_silent [of "sample_intx_device\<lparr>virq_disabled := True\<rparr>" _ 109 "sample_kernel []"]
    sample_intx_fields
  by simp

text \<open>C20. The safety of the ioctl does depend on its INTx hypothesis: a user that enables INTx with
  the descriptor $-1$, which the code accepts, and then asks for a software trigger makes the driver
  signal a \<open>NULL\<close> eventfd context.\<close>

theorem intx_without_eventfd_is_undefined:
  assumes "irq_type s = VFIO_PCI_NUM_IRQS" "pdev_irq (pdev s) \<noteq> 0" "\<not> virq_disabled s"
    and "fst (respond K (trace s) (Mem Alloc)) \<noteq> 0"
  shows "\<exists>s'. vfio_pci_set_irqs_ioctl K SET_TRIGGER_EVENTFD VFIO_PCI_INTX_IRQ_INDEX 0 1
       [255, 255, 255, 255] s = Some (0, s') \<and>
     vfio_pci_set_irqs_ioctl K SET_TRIGGER_NONE VFIO_PCI_INTX_IRQ_INDEX 0 1 [] s' = None"
proof -
  have m1: "s32_at [255, 255, 255, 255] 0 = Some (- 1)" by code_simp
  show ?thesis using assms
    by (simp add: vfio_pci_set_irqs_ioctl_def irq_ioctl_func_def vfio_pci_set_intx_trigger_def m1
        vfio_intx_enable_def vfio_intx_set_signal_def vfio_send_intx_eventfd_def eventfd_signal_def
        nth_opt_def kcall_rc_Pair Let_def)
qed

lemma intx_without_eventfd_witness:
  "\<exists>s'. vfio_pci_set_irqs_ioctl (sample_kernel []) SET_TRIGGER_EVENTFD VFIO_PCI_INTX_IRQ_INDEX 0 1
       [255, 255, 255, 255] sample_device = Some (0, s') \<and>
     vfio_pci_set_irqs_ioctl (sample_kernel []) SET_TRIGGER_NONE VFIO_PCI_INTX_IRQ_INDEX 0 1 [] s' = None"
  by (rule intx_without_eventfd_is_undefined)
    (simp_all add: sample_device_def sample_pdev_def sample_kernel_def)

end
