(* ===== verification/Config_Access.thy ===== *)
theory Config_Access
  imports Device
begin

text \<open>
  Access to configuration space, first part of \<^verbatim>\<open>src/device/vfio_pci_config.c\<close>: reading and writing the
  hardware through the \<^verbatim>\<open>pci_user_*\<close> accessors, and the handlers that need no knowledge of the
  capability. A handler gets the position, the number of bytes, the permission table of the
  capability and the offset inside it; a read handler also gets and returns the value that \<^verbatim>\<open>val\<close>
  points to. The result is the C return value, which is the number of bytes or a negative error
  number; \<open>None\<close> is an access outside the virtual configuration space or the table.
\<close>

section \<open>Virtual configuration space\<close>

definition vload :: "nat \<Rightarrow> nat \<Rightarrow> vfio_pci_device \<Rightarrow> u32 option" where
  "vload p n s = load (vconfig s) p n"

definition vstore :: "nat \<Rightarrow> nat \<Rightarrow> u32 \<Rightarrow> vfio_pci_device \<Rightarrow> vfio_pci_device option" where
  "vstore p n v s = map_option (\<lambda>bs. s\<lparr>vconfig := bs\<rparr>) (store (vconfig s) p n v)"

section \<open>Hardware configuration space\<close>

definition vfio_user_config_read ::
    "kernel \<Rightarrow> nat \<Rightarrow> nat \<Rightarrow> vfio_pci_device \<Rightarrow> int \<times> u32 \<times> vfio_pci_device" where
  "vfio_user_config_read K offset count s =
     (if count \<in> {1, 2, 4} then
        (case kcall K (Config (User_read_config count offset)) s of
           ((ret, v), s) \<Rightarrow> (ret, ucast v AND low_mask count, s))
      else (- EINVAL, 0, s))"

definition vfio_user_config_write ::
    "kernel \<Rightarrow> nat \<Rightarrow> u32 \<Rightarrow> nat \<Rightarrow> vfio_pci_device \<Rightarrow> int \<times> vfio_pci_device" where
  "vfio_user_config_write K offset val count s =
     (if count \<in> {1, 2, 4} then
        kcall_rc K (Config (User_write_config count offset (val AND low_mask count))) s
      else (- EINVAL, s))"

section \<open>Handlers\<close>

definition vfio_default_config_read ::
    "kernel \<Rightarrow> nat \<Rightarrow> nat \<Rightarrow> perm_bits \<Rightarrow> nat \<Rightarrow> u32 \<Rightarrow> vfio_pci_device
      \<Rightarrow> (int \<times> u32 \<times> vfio_pci_device) option" where
  "vfio_default_config_read K pos count perm offset val s = do {
     v \<leftarrow> vload pos count s;
     let val = copy_low val count v;
     virt \<leftarrow> load (pvirt perm) offset count;
     if drop_bit (32 - count * 8) (- 1) \<noteq> virt then
       (case vfio_user_config_read K pos count s of
          (ret, phys_val, s) \<Rightarrow>
            if ret \<noteq> 0 then Some (ret, val, s)
            else Some (int count, (phys_val AND NOT virt) OR (val AND virt), s))
     else Some (int count, val, s) }"

text \<open>
  The two halves of \<^verbatim>\<open>vfio_default_config_write\<close>: the bits that are writable and virtual (\<open>m\<close>) go to the
  virtual space, those that are writable and not virtual to hardware.
\<close>

definition write_virtual ::
    "nat \<Rightarrow> nat \<Rightarrow> u32 \<Rightarrow> u32 \<Rightarrow> vfio_pci_device \<Rightarrow> vfio_pci_device option" where
  "write_virtual pos count m val s =
     (if m \<noteq> 0 then do {
        virt_val \<leftarrow> vload pos count s;
        vstore pos count ((virt_val AND NOT m) OR (val AND m)) s
      } else Some s)"

definition write_physical ::
    "kernel \<Rightarrow> nat \<Rightarrow> nat \<Rightarrow> u32 \<Rightarrow> u32 \<Rightarrow> vfio_pci_device \<Rightarrow> int \<times> vfio_pci_device" where
  "write_physical K pos count m val s =
     (if m \<noteq> 0 then
        (case vfio_user_config_read K pos count s of (ret, phys_val, s) \<Rightarrow>
           if ret \<noteq> 0 then (ret, s)
           else case vfio_user_config_write K pos ((phys_val AND NOT m) OR (val AND m)) count s of
             (ret, s) \<Rightarrow> (if ret \<noteq> 0 then ret else int count, s))
      else (int count, s))"

definition vfio_default_config_write ::
    "kernel \<Rightarrow> nat \<Rightarrow> nat \<Rightarrow> perm_bits \<Rightarrow> nat \<Rightarrow> u32 \<Rightarrow> vfio_pci_device
      \<Rightarrow> (int \<times> vfio_pci_device) option" where
  "vfio_default_config_write K pos count perm offset val s = do {
     write \<leftarrow> load (pwrite perm) offset count;
     if write = 0 then Some (int count, s)
     else do {
       virt \<leftarrow> load (pvirt perm) offset count;
       s \<leftarrow> write_virtual pos count (write AND virt) val s;
       Some (write_physical K pos count (write AND NOT virt) val s) } }"

text \<open>
  The mangling of a value read from hardware, at the end of \<^verbatim>\<open>vfio_direct_config_read\<close>: the header of an
  extended capability, and the next pointer of a standard one, come from the virtual space.
\<close>

definition direct_mangle :: "nat \<Rightarrow> nat \<Rightarrow> nat \<Rightarrow> u32 \<Rightarrow> vfio_pci_device \<Rightarrow> u32 option" where
  "direct_mangle pos count offset val s =
     (let overlay = (\<lambda>n. do { v \<leftarrow> vload pos n s; Some (copy_low val n v) }) in
      if PCI_CFG_SPACE_SIZE \<le> pos then (if offset < 4 then overlay count else Some val)
      else if PCI_STD_HEADER_SIZEOF \<le> pos then
        (if offset = PCI_CAP_LIST_ID \<and> 1 < count then overlay (min PCI_CAP_FLAGS count)
         else if offset = PCI_CAP_LIST_NEXT then overlay 1
         else Some val)
      else Some val)"

definition vfio_direct_config_read ::
    "kernel \<Rightarrow> nat \<Rightarrow> nat \<Rightarrow> perm_bits \<Rightarrow> nat \<Rightarrow> u32 \<Rightarrow> vfio_pci_device
      \<Rightarrow> (int \<times> u32 \<times> vfio_pci_device) option" where
  "vfio_direct_config_read K pos count perm offset val s =
     (case vfio_user_config_read K pos count s of (ret, val, s) \<Rightarrow>
        if ret \<noteq> 0 then Some (ret, val, s)
        else do {
          val \<leftarrow> direct_mangle pos count offset val s;
          Some (int count, val, s) })"

definition vfio_raw_config_write ::
    "kernel \<Rightarrow> nat \<Rightarrow> nat \<Rightarrow> perm_bits \<Rightarrow> nat \<Rightarrow> u32 \<Rightarrow> vfio_pci_device
      \<Rightarrow> (int \<times> vfio_pci_device) option" where
  "vfio_raw_config_write K pos count perm offset val s =
     (case vfio_user_config_write K pos val count s of (ret, s) \<Rightarrow>
        Some (if ret \<noteq> 0 then ret else int count, s))"

definition vfio_raw_config_read ::
    "kernel \<Rightarrow> nat \<Rightarrow> nat \<Rightarrow> perm_bits \<Rightarrow> nat \<Rightarrow> u32 \<Rightarrow> vfio_pci_device
      \<Rightarrow> (int \<times> u32 \<times> vfio_pci_device) option" where
  "vfio_raw_config_read K pos count perm offset val s =
     (case vfio_user_config_read K pos count s of (ret, val, s) \<Rightarrow>
        Some (if ret \<noteq> 0 then ret else int count, val, s))"

definition vfio_virt_config_write ::
    "kernel \<Rightarrow> nat \<Rightarrow> nat \<Rightarrow> perm_bits \<Rightarrow> nat \<Rightarrow> u32 \<Rightarrow> vfio_pci_device
      \<Rightarrow> (int \<times> vfio_pci_device) option" where
  "vfio_virt_config_write K pos count perm offset val s = do {
     s \<leftarrow> vstore pos count val s;
     Some (int count, s) }"

definition vfio_virt_config_read ::
    "kernel \<Rightarrow> nat \<Rightarrow> nat \<Rightarrow> perm_bits \<Rightarrow> nat \<Rightarrow> u32 \<Rightarrow> vfio_pci_device
      \<Rightarrow> (int \<times> u32 \<times> vfio_pci_device) option" where
  "vfio_virt_config_read K pos count perm offset val s = do {
     v \<leftarrow> vload pos count s;
     Some (int count, copy_low val count v, s) }"

section \<open>Permission tables\<close>

text \<open>
  The permission tables of the driver are global: one entry per capability and one per extended
  capability. A table that was not allocated has empty arrays.
\<close>

record perm_tables =
  cap_perms :: "perm_bits list"
  ecap_perms :: "perm_bits list"

definition direct_perm :: perm_bits where
  "direct_perm = \<lparr>pvirt = [], pwrite = [], preadfn = Some Direct_config_read, pwritefn = None\<rparr>"

definition initial_tables :: perm_tables where
  "initial_tables = \<lparr>cap_perms = replicate (PCI_CAP_ID_MAX + 1) direct_perm,
     ecap_perms = replicate (PCI_EXT_CAP_ID_MAX + 1) direct_perm\<rparr>"

definition unassigned_perms :: perm_bits where
  "unassigned_perms =
     \<lparr>pvirt = [], pwrite = [], preadfn = Some Raw_config_read, pwritefn = Some Raw_config_write\<rparr>"

definition virt_perms :: perm_bits where
  "virt_perms =
     \<lparr>pvirt = [], pwrite = [], preadfn = Some Virt_config_read, pwritefn = Some Virt_config_write\<rparr>"

definition free_perm_bits :: "perm_bits \<Rightarrow> perm_bits" where
  "free_perm_bits perm = perm\<lparr>pvirt := [], pwrite := []\<rparr>"

definition round_up :: "nat \<Rightarrow> nat \<Rightarrow> nat" where
  "round_up n k = (n + k - 1) div k * k"

definition alloc_perm_bits ::
    "kernel \<Rightarrow> perm_bits \<Rightarrow> nat \<Rightarrow> 'a kstate_scheme \<Rightarrow> int \<times> perm_bits \<times> 'a kstate_scheme" where
  "alloc_perm_bits K perm len s =
     (let n = round_up len 4 in
      case kcall_rc K (Mem Alloc) s of (v, s) \<Rightarrow>
      case kcall_rc K (Mem Alloc) s of (w, s) \<Rightarrow>
        if v = 0 \<or> w = 0 then (- ENOMEM, free_perm_bits perm, s)
        else (0, perm\<lparr>pvirt := replicate n 0, pwrite := replicate n 0,
                preadfn := Some Default_config_read, pwritefn := Some Default_config_write\<rparr>, s))"

definition p_set :: "nat \<Rightarrow> perm_bits \<Rightarrow> nat \<Rightarrow> u32 \<Rightarrow> u32 \<Rightarrow> perm_bits option" where
  "p_set n p off virt write = do {
     v \<leftarrow> store (pvirt p) off n virt;
     w \<leftarrow> store (pwrite p) off n write;
     Some (p\<lparr>pvirt := v, pwrite := w\<rparr>) }"

definition p_setb :: "perm_bits \<Rightarrow> nat \<Rightarrow> u8 \<Rightarrow> u8 \<Rightarrow> perm_bits option" where
  "p_setb p off virt write = p_set 1 p off (ucast virt) (ucast write)"

definition p_setw :: "perm_bits \<Rightarrow> nat \<Rightarrow> u16 \<Rightarrow> u16 \<Rightarrow> perm_bits option" where
  "p_setw p off virt write = p_set 2 p off (ucast virt) (ucast write)"

definition p_setd :: "perm_bits \<Rightarrow> nat \<Rightarrow> u32 \<Rightarrow> u32 \<Rightarrow> perm_bits option" where
  "p_setd p off virt write = p_set 4 p off virt write"

abbreviation (input) NO_VIRT :: "'a::len word" where "NO_VIRT \<equiv> 0"
abbreviation (input) ALL_VIRT :: "'a::len word" where "ALL_VIRT \<equiv> - 1"
abbreviation (input) NO_WRITE :: "'a::len word" where "NO_WRITE \<equiv> 0"
abbreviation (input) ALL_WRITE :: "'a::len word" where "ALL_WRITE \<equiv> - 1"

end
