(* ===== verification/Config_Basic.thy ===== *)
theory Config_Basic
  imports Config_Access Intrs
begin

text \<open>
  The basic header of configuration space, second part of \<^verbatim>\<open>src/device/vfio_pci_config.c\<close>: the BARs,
  which the user only ever sees in the virtual configuration space, and the command register.
\<close>

definition is_bar :: "nat \<Rightarrow> bool" where
  "is_bar offset \<longleftrightarrow>
     (PCI_BASE_ADDRESS_0 \<le> offset \<and> offset < PCI_BASE_ADDRESS_5 + 4) \<or>
     (PCI_ROM_ADDRESS \<le> offset \<and> offset < PCI_ROM_ADDRESS + 4)"

section \<open>BARs\<close>

text \<open>The loop over the BAR registers writes the saved values back, register \<open>i\<close> from \<open>rbar[i]\<close>.\<close>

fun bar_restore_loop :: "kernel \<Rightarrow> nat list \<Rightarrow> vfio_pci_device \<Rightarrow> vfio_pci_device option" where
  "bar_restore_loop K [] s = Some s"
| "bar_restore_loop K (i # is) s = do {
     v \<leftarrow> nth_opt (rbar s) i;
     bar_restore_loop K is
       (kcall_do K (Config (User_write_config 4 (PCI_BASE_ADDRESS_0 + 4 * i) v)) s) }"

definition vfio_bar_restore :: "kernel \<Rightarrow> vfio_pci_device \<Rightarrow> vfio_pci_device option" where
  "vfio_bar_restore K s =
     (if is_virtfn (pdev s) then Some s
      else do {
        s \<leftarrow> bar_restore_loop K [0..<6] s;
        v \<leftarrow> nth_opt (rbar s) 6;
        let s = kcall_do K (Config (User_write_config 4 PCI_ROM_ADDRESS v)) s;
        if nointx s then do {
          let ((_, cmd), s) = kcall K (Config (User_read_config 2 PCI_COMMAND)) s;
          let cmd = (ucast cmd :: u16) OR PCI_COMMAND_INTX_DISABLE;
          Some (kcall_do K (Config (User_write_config 2 PCI_COMMAND (ucast cmd))) s)
        } else Some s })"

definition vfio_generate_bar_flags :: "pci_dev \<Rightarrow> nat \<Rightarrow> u32" where
  "vfio_generate_bar_flags d bar =
     (let flags = pci_resource_flags d bar in
      if flags AND IORESOURCE_IO \<noteq> 0 then PCI_BASE_ADDRESS_SPACE_IO
      else PCI_BASE_ADDRESS_SPACE_MEMORY
        OR (if flags AND IORESOURCE_PREFETCH \<noteq> 0 then PCI_BASE_ADDRESS_MEM_PREFETCH else 0)
        OR (if flags AND IORESOURCE_MEM_64 \<noteq> 0 then PCI_BASE_ADDRESS_MEM_TYPE_64 else 0))"

text \<open>The size mask of a resource, \<open>~(len - 1)\<close>.\<close>

definition bar_mask :: "pci_dev \<Rightarrow> nat \<Rightarrow> u64" where
  "bar_mask d i = NOT (pci_resource_len d i - 1)"

function bar_fixup_loop :: "nat \<Rightarrow> vfio_pci_device \<Rightarrow> vfio_pci_device option" where
  "bar_fixup_loop i s =
     (if PCI_STD_RESOURCE_END < i then Some s
      else if pci_resource_start (pdev s) i = 0 then do {
        s \<leftarrow> vstore (PCI_BASE_ADDRESS_0 + 4 * i) 4 0 s;
        bar_fixup_loop (i + 1) s
      } else do {
        let bar = PCI_BASE_ADDRESS_0 + 4 * i;
        let mask = bar_mask (pdev s) i;
        v \<leftarrow> vload bar 4 s;
        let v = (v AND ucast mask) OR vfio_generate_bar_flags (pdev s) i;
        s \<leftarrow> vstore bar 4 v s;
        if v AND PCI_BASE_ADDRESS_MEM_TYPE_64 \<noteq> 0 then do {
          w \<leftarrow> vload (bar + 4) 4 s;
          s \<leftarrow> vstore (bar + 4) 4 (w AND ucast (drop_bit 32 mask)) s;
          bar_fixup_loop (i + 2) s
        } else bar_fixup_loop (i + 1) s })"
  by auto
termination by (relation "measure (\<lambda>(i, s). 6 - i)") auto

declare bar_fixup_loop.simps [simp del]

definition vfio_bar_fixup :: "vfio_pci_device \<Rightarrow> vfio_pci_device option" where
  "vfio_bar_fixup s = do {
     s \<leftarrow> bar_fixup_loop PCI_STD_RESOURCES s;
     v \<leftarrow> vload PCI_ROM_ADDRESS 4 s;
     s \<leftarrow>
       (if pci_resource_start (pdev s) PCI_ROM_RESOURCE \<noteq> 0 then
          vstore PCI_ROM_ADDRESS 4
            (v AND ucast (bar_mask (pdev s) PCI_ROM_RESOURCE OR PCI_ROM_ADDRESS_ENABLE)) s
        else if pci_resource_flags (pdev s) PCI_ROM_RESOURCE AND IORESOURCE_ROM_SHADOW \<noteq> 0 then
          vstore PCI_ROM_ADDRESS 4 (v AND ucast (NOT (0x20000 - 1) OR PCI_ROM_ADDRESS_ENABLE)) s
        else vstore PCI_ROM_ADDRESS 4 0 s);
     Some (s\<lparr>bardirty := False\<rparr>) }"

fun need_bar_restore_loop ::
    "kernel \<Rightarrow> nat list \<Rightarrow> vfio_pci_device \<Rightarrow> (bool \<times> vfio_pci_device) option" where
  "need_bar_restore_loop K [] s = Some (False, s)"
| "need_bar_restore_loop K (i # is) s = do {
     v \<leftarrow> nth_opt (rbar s) i;
     if v \<noteq> 0 then
       (case kcall K (Config (User_read_config 4 (PCI_BASE_ADDRESS_0 + 4 * i))) s of
          ((ret, bar), s) \<Rightarrow>
            if ret \<noteq> 0 \<or> v \<noteq> ucast bar then Some (True, s) else need_bar_restore_loop K is s)
     else need_bar_restore_loop K is s }"

definition vfio_need_bar_restore :: "kernel \<Rightarrow> vfio_pci_device \<Rightarrow> (bool \<times> vfio_pci_device) option"
  where "vfio_need_bar_restore K s = need_bar_restore_loop K [0..<6] s"

section \<open>Reads and writes of the header\<close>

definition vfio_basic_config_read ::
    "kernel \<Rightarrow> nat \<Rightarrow> nat \<Rightarrow> perm_bits \<Rightarrow> nat \<Rightarrow> u32 \<Rightarrow> vfio_pci_device
      \<Rightarrow> (int \<times> u32 \<times> vfio_pci_device) option" where
  "vfio_basic_config_read K pos count perm offset val s = do {
     s \<leftarrow> (if is_bar offset then vfio_bar_fixup s else Some s);
     (ret, val, s) \<leftarrow> vfio_default_config_read K pos count perm offset val s;
     if offset = PCI_COMMAND \<and> is_virtfn (pdev s) then do {
       cmd \<leftarrow> vload PCI_COMMAND 2 s;
       Some (ret, val OR (cmd AND ucast PCI_COMMAND_MEMORY), s)
     } else Some (ret, val, s) }"

text \<open>
  The first part of \<^verbatim>\<open>vfio_basic_config_write\<close>: before a write to the command register the physical
  one is read, and the BARs are restored if the device lost them. The result is an error number or
  zero and the new command.
\<close>

definition basic_write_command ::
    "kernel \<Rightarrow> u32 \<Rightarrow> vfio_pci_device \<Rightarrow> (int \<times> u16 \<times> vfio_pci_device) option" where
  "basic_write_command K val s =
     (case kcall K (Config (User_read_config 2 PCI_COMMAND)) s of ((ret, phys), s) \<Rightarrow>
        if ret \<noteq> 0 then Some (ret, 0, s)
        else do {
          let phys_cmd = (ucast phys :: u16);
          virt \<leftarrow> vload PCI_COMMAND 2 s;
          let virt_cmd = (ucast virt :: u16);
          let new_cmd = (ucast val :: u16);
          let on = (\<lambda>cmd bits. (cmd :: u16) AND bits \<noteq> 0);
          (need, s) \<leftarrow>
            (if on new_cmd PCI_COMMAND_MEMORY \<and> on virt_cmd PCI_COMMAND_MEMORY
                  \<and> \<not> on phys_cmd PCI_COMMAND_MEMORY
                \<or> on new_cmd PCI_COMMAND_IO \<and> on virt_cmd PCI_COMMAND_IO
                  \<and> \<not> on phys_cmd PCI_COMMAND_IO
             then Some (True, s) else vfio_need_bar_restore K s);
          s \<leftarrow> (if need then vfio_bar_restore K s else Some s);
          Some (0, new_cmd, s) })"

text \<open>The part that emulates the INTx disable bit.\<close>

definition emulate_intx_disable :: "kernel \<Rightarrow> vfio_pci_device \<Rightarrow> vfio_pci_device option" where
  "emulate_intx_disable K s = do {
     virt \<leftarrow> vload PCI_COMMAND 2 s;
     let virt_intx_disable = ((ucast virt :: u16) AND PCI_COMMAND_INTX_DISABLE \<noteq> 0);
     if virt_intx_disable \<and> \<not> virq_disabled s then
       vfio_pci_intx_mask K (s\<lparr>virq_disabled := True\<rparr>)
     else if \<not> virt_intx_disable \<and> virq_disabled s then
       vfio_pci_intx_unmask K (s\<lparr>virq_disabled := False\<rparr>)
     else Some s }"

definition vfio_basic_config_write ::
    "kernel \<Rightarrow> nat \<Rightarrow> nat \<Rightarrow> perm_bits \<Rightarrow> nat \<Rightarrow> u32 \<Rightarrow> vfio_pci_device
      \<Rightarrow> (int \<times> vfio_pci_device) option" where
  "vfio_basic_config_write K pos count perm offset val s = do {
     (err, new_cmd, s) \<leftarrow>
       (if offset = PCI_COMMAND then basic_write_command K val s else Some (0, 0, s));
     if err \<noteq> 0 then Some (err, s)
     else do {
       (ret, s) \<leftarrow> vfio_default_config_write K pos count perm offset val s;
       if ret < 0 then Some (ret, s)
       else do {
         s \<leftarrow> (if offset = PCI_COMMAND then do {
                virt \<leftarrow> vload PCI_COMMAND 2 s;
                let mask = PCI_COMMAND_MEMORY OR PCI_COMMAND_IO;
                vstore PCI_COMMAND 2 (ucast (((ucast virt :: u16) AND NOT mask) OR (new_cmd AND mask))) s
              } else Some s);
         s \<leftarrow> (if PCI_COMMAND \<le> offset \<and> offset \<le> PCI_COMMAND + 1 then emulate_intx_disable K s
              else Some s);
         Some (ret, if is_bar offset then s\<lparr>bardirty := True\<rparr> else s) } } }"

end
