(* ===== verification/Config_Caps.thy ===== *)
theory Config_Caps
  imports Config_Access
begin

text \<open>
  The capabilities whose registers are emulated, third part of \<^verbatim>\<open>src/device/vfio_pci_config.c\<close>: power
  management, vital product data, PCI Express, advanced features and MSI. In a pointer like
  \<^verbatim>\<open>vconfig + pos - offset + reg\<close> the capability starts at \<open>pos - offset\<close>; callers pass \<open>offset \<le> pos\<close>.
\<close>

section \<open>Power management\<close>

definition pm_state :: "u32 \<Rightarrow> pci_power" where
  "pm_state val =
     (let b = val AND PCI_PM_CTRL_STATE_MASK in
      if b = 0 then PCI_D0 else if b = 1 then PCI_D1 else if b = 2 then PCI_D2 else PCI_D3hot)"

definition vfio_pm_config_write ::
    "kernel \<Rightarrow> nat \<Rightarrow> nat \<Rightarrow> perm_bits \<Rightarrow> nat \<Rightarrow> u32 \<Rightarrow> vfio_pci_device
      \<Rightarrow> (int \<times> vfio_pci_device) option" where
  "vfio_pm_config_write K pos count perm offset val s = do {
     (ret, s) \<leftarrow> vfio_default_config_write K pos count perm offset val s;
     if ret < 0 then Some (ret, s)
     else Some (ret, if offset = PCI_PM_CTRL
                     then kcall_do K (Power (Set_power_state (pm_state val))) s else s) }"

section \<open>Vital product data\<close>

text \<open>
  Writing the upper byte of the address register starts a transfer: of the data register to the
  device if the flag bit is set, from the device if it is clear. The flag is inverted when it is done.
\<close>

definition vpd_transfer :: "kernel \<Rightarrow> nat \<Rightarrow> vfio_pci_device \<Rightarrow> vfio_pci_device option" where
  "vpd_transfer K start s = do {
     let paddr = start + PCI_VPD_ADDR;
     let pdata = start + PCI_VPD_DATA;
     a \<leftarrow> vload paddr 2 s;
     let addr = (ucast a :: u16);
     (ok, s) \<leftarrow>
       (if addr AND PCI_VPD_ADDR_F \<noteq> 0 then do {
          data \<leftarrow> vload pdata 4 s;
          let (rc, s) = kcall_rc K (Power (Write_vpd (addr AND NOT PCI_VPD_ADDR_F) data)) s;
          Some (rc = 4, s)
        } else do {
          let ((rc, data), s) = kcall K (Power (Read_vpd addr)) s;
          if rc < 0 then Some (False, s)
          else do {
            s \<leftarrow> vstore pdata 4 (ucast data) s;
            Some (True, s) } });
     if \<not> ok then Some s
     else vstore paddr 2 (ucast (addr XOR PCI_VPD_ADDR_F)) s }"

definition vfio_vpd_config_write ::
    "kernel \<Rightarrow> nat \<Rightarrow> nat \<Rightarrow> perm_bits \<Rightarrow> nat \<Rightarrow> u32 \<Rightarrow> vfio_pci_device
      \<Rightarrow> (int \<times> vfio_pci_device) option" where
  "vfio_vpd_config_write K pos count perm offset val s = do {
     (ret, s) \<leftarrow> vfio_default_config_write K pos count perm offset val s;
     if ret < 0 \<or> PCI_VPD_ADDR + 1 < offset \<or> int offset + ret \<le> int (PCI_VPD_ADDR + 1)
     then Some (ret, s)
     else do {
       s \<leftarrow> vpd_transfer K (pos - offset) s;
       Some (ret, s) } }"

section \<open>PCI Express\<close>

text \<open>The function level reset, and the read request size that follows what the user wrote.\<close>

definition exp_flr :: "kernel \<Rightarrow> nat \<Rightarrow> vfio_pci_device \<Rightarrow> vfio_pci_device option" where
  "exp_flr K start s = do {
     let ctrl = start + PCI_EXP_DEVCTL;
     c \<leftarrow> vload ctrl 2 s;
     let c = (ucast c :: u16);
     if c AND PCI_EXP_DEVCTL_BCR_FLR \<noteq> 0 then do {
       s \<leftarrow> vstore ctrl 2 (ucast (c AND NOT PCI_EXP_DEVCTL_BCR_FLR)) s;
       let ((rc, cap), s) = kcall K (Config (User_read_config 4 (start + PCI_EXP_DEVCAP))) s;
       Some (if rc = 0 \<and> (ucast cap :: u32) AND PCI_EXP_DEVCAP_FLR \<noteq> 0
             then kcall_do K (Power Try_reset_function) s else s)
     } else Some s }"

definition exp_readrq :: "kernel \<Rightarrow> nat \<Rightarrow> u16 \<Rightarrow> vfio_pci_device \<Rightarrow> vfio_pci_device option" where
  "exp_readrq K start readrq s = do {
     c \<leftarrow> vload (start + PCI_EXP_DEVCTL) 2 s;
     let c = (ucast c :: u16);
     if readrq \<noteq> c AND PCI_EXP_DEVCTL_READRQ then do {
       let rq = 128 * 2 ^ unat (drop_bit 12 (c AND PCI_EXP_DEVCTL_READRQ));
       let (mps, s) = kcall_rc K (Power Pcie_get_mps) s;
       Some (kcall_do K (Power (Pcie_set_readrq (max rq mps))) s)
     } else Some s }"

definition vfio_exp_config_write ::
    "kernel \<Rightarrow> nat \<Rightarrow> nat \<Rightarrow> perm_bits \<Rightarrow> nat \<Rightarrow> u32 \<Rightarrow> vfio_pci_device
      \<Rightarrow> (int \<times> vfio_pci_device) option" where
  "vfio_exp_config_write K pos count perm offset val s = do {
     let start = pos - offset;
     c \<leftarrow> vload (start + PCI_EXP_DEVCTL) 2 s;
     let readrq = (ucast c :: u16) AND PCI_EXP_DEVCTL_READRQ;
     (ret, s) \<leftarrow> vfio_default_config_write K pos count perm offset val s;
     if ret < 0 then Some (ret, s)
     else do {
       s \<leftarrow> exp_flr K start s;
       s \<leftarrow> exp_readrq K start readrq s;
       Some (ret, s) } }"

section \<open>Advanced features\<close>

definition af_flr :: "kernel \<Rightarrow> nat \<Rightarrow> vfio_pci_device \<Rightarrow> vfio_pci_device option" where
  "af_flr K start s = do {
     let ctrl = start + PCI_AF_CTRL;
     c \<leftarrow> vload ctrl 1 s;
     let c = (ucast c :: u8);
     if c AND PCI_AF_CTRL_FLR \<noteq> 0 then do {
       s \<leftarrow> vstore ctrl 1 (ucast (c AND NOT PCI_AF_CTRL_FLR)) s;
       let ((rc, cap), s) = kcall K (Config (User_read_config 1 (start + PCI_AF_CAP))) s;
       let cap = (ucast cap :: u8);
       Some (if rc = 0 \<and> cap AND PCI_AF_CAP_FLR \<noteq> 0 \<and> cap AND PCI_AF_CAP_TP \<noteq> 0
             then kcall_do K (Power Try_reset_function) s else s)
     } else Some s }"

definition vfio_af_config_write ::
    "kernel \<Rightarrow> nat \<Rightarrow> nat \<Rightarrow> perm_bits \<Rightarrow> nat \<Rightarrow> u32 \<Rightarrow> vfio_pci_device
      \<Rightarrow> (int \<times> vfio_pci_device) option" where
  "vfio_af_config_write K pos count perm offset val s = do {
     (ret, s) \<leftarrow> vfio_default_config_write K pos count perm offset val s;
     if ret < 0 then Some (ret, s)
     else do {
       s \<leftarrow> af_flr K (pos - offset) s;
       Some (ret, s) } }"

section \<open>The start of a capability\<close>

text \<open>
  \<open>find_cap_loop m base cap pos\<close> walks down from \<open>pos\<close> while the byte below belongs to the same
  capability.
\<close>

fun find_cap_loop :: "u8 list \<Rightarrow> nat \<Rightarrow> u8 \<Rightarrow> nat \<Rightarrow> nat option" where
  "find_cap_loop m base cap 0 = Some 0"
| "find_cap_loop m base cap (Suc p) =
     (if base \<le> p then do {
        b \<leftarrow> nth_opt m p;
        if b = cap then find_cap_loop m base cap p else Some (Suc p)
      } else Some (Suc p))"

definition vfio_find_cap_start :: "vfio_pci_device \<Rightarrow> nat \<Rightarrow> nat option" where
  "vfio_find_cap_start s pos = do {
     let base = (if PCI_CFG_SPACE_SIZE \<le> pos then PCI_CFG_SPACE_SIZE else PCI_STD_HEADER_SIZEOF);
     cap \<leftarrow> nth_opt (pci_config_map s) pos;
     if cap = 0 then Some 0 else find_cap_loop (pci_config_map s) base cap pos }"

section \<open>MSI\<close>

definition vfio_msi_config_read ::
    "kernel \<Rightarrow> nat \<Rightarrow> nat \<Rightarrow> perm_bits \<Rightarrow> nat \<Rightarrow> u32 \<Rightarrow> vfio_pci_device
      \<Rightarrow> (int \<times> u32 \<times> vfio_pci_device) option" where
  "vfio_msi_config_read K pos count perm offset val s = do {
     s \<leftarrow>
       (if offset \<le> PCI_MSI_FLAGS \<and> PCI_MSI_FLAGS \<le> offset + count then do {
          start \<leftarrow> vfio_find_cap_start s pos;
          f \<leftarrow> vload start 2 s;
          let flags = (ucast f :: u16);
          let flags = (flags AND NOT PCI_MSI_FLAGS_QMASK) OR push_bit 1 (ucast (msi_qmax s));
          vstore start 2 (ucast flags) s
        } else Some s);
     vfio_default_config_read K pos count perm offset val s }"

text \<open>
  The flags as the driver lets them be: enabled only if MSI was enabled through the ioctl, and with no
  more messages than were asked for there.
\<close>

definition msi_flags_allowed :: "vfio_pci_device \<Rightarrow> u16 \<Rightarrow> u16" where
  "msi_flags_allowed s flags =
     (let flags = (if \<not> is_msi s then flags AND NOT PCI_MSI_FLAGS_ENABLE else flags) in
      if unat (msi_qmax s) < unat (drop_bit 4 (flags AND PCI_MSI_FLAGS_QSIZE))
      then (flags AND NOT PCI_MSI_FLAGS_QSIZE) OR push_bit 4 (ucast (msi_qmax s))
      else flags)"

definition msi_flags_update ::
    "kernel \<Rightarrow> nat \<Rightarrow> vfio_pci_device \<Rightarrow> (int \<times> vfio_pci_device) option" where
  "msi_flags_update K start s = do {
     f \<leftarrow> vload (start + PCI_MSI_FLAGS) 2 s;
     let flags = msi_flags_allowed s (ucast f);
     s \<leftarrow> vstore (start + PCI_MSI_FLAGS) 2 (ucast flags) s;
     Some (kcall_rc K (Config (User_write_config 2 (start + PCI_MSI_FLAGS) (ucast flags))) s) }"

definition vfio_msi_config_write ::
    "kernel \<Rightarrow> nat \<Rightarrow> nat \<Rightarrow> perm_bits \<Rightarrow> nat \<Rightarrow> u32 \<Rightarrow> vfio_pci_device
      \<Rightarrow> (int \<times> vfio_pci_device) option" where
  "vfio_msi_config_write K pos count perm offset val s = do {
     (ret, s) \<leftarrow> vfio_default_config_write K pos count perm offset val s;
     if ret < 0 then Some (ret, s)
     else if offset \<le> PCI_MSI_FLAGS \<and> int PCI_MSI_FLAGS \<le> int offset + ret then do {
       start \<leftarrow> vfio_find_cap_start s pos;
       (rc, s) \<leftarrow> msi_flags_update K start s;
       Some (if rc \<noteq> 0 then rc else ret, s)
     } else Some (ret, s) }"

end
