(* ===== verification/Config_Perms.thy ===== *)
theory Config_Perms
  imports Config_Access
begin

text \<open>
  The permission tables, fourth part of \<^verbatim>\<open>src/device/vfio_pci_config.c\<close>. Every function returns the C
  return value and the table; \<open>None\<close> would be an entry set outside the table that was allocated.
\<close>

section \<open>Lengths of capabilities\<close>

text \<open>0 hides the capability from the user, 0xFF means a variable length.\<close>

definition pci_cap_length :: "nat list" where
  "pci_cap_length =
     [PCI_STD_HEADER_SIZEOF, PCI_PM_SIZEOF, PCI_AGP_SIZEOF, PCI_CAP_VPD_SIZEOF, 0, 0xFF, 0, 0xFF,
      0xFF, 0xFF, 0, 0, 0, 0, 0, 0, 0xFF, PCI_CAP_MSIX_SIZEOF, 0xFF, PCI_CAP_AF_SIZEOF, 0]"

definition pci_ext_cap_length :: "nat list" where
  "pci_ext_cap_length =
     [0, PCI_ERR_ROOT_COMMAND, 0xFF, PCI_EXT_CAP_DSN_SIZEOF, PCI_EXT_CAP_PWR_SIZEOF, 0, 0, 0, 0xFF,
      0xFF, 0, 0xFF, 0, 0xFF, PCI_EXT_CAP_ARI_SIZEOF, PCI_EXT_CAP_ATS_SIZEOF,
      PCI_EXT_CAP_SRIOV_SIZEOF, 0, PCI_EXT_CAP_MCAST_ENDPOINT_SIZEOF, PCI_EXT_CAP_PRI_SIZEOF, 0,
      0xFF, 0xFF, 0xFF, PCI_EXT_CAP_LTR_SIZEOF, 0, 0, 0, 0, 0, 0, 0]"

section \<open>One table per capability\<close>

text \<open>
  Each of the functions \<^verbatim>\<open>init_pci_cap_*_perm\<close> allocates the table, gives up with \<open>- ENOMEM\<close> if that
  fails, and then sets the entries of its capability; those settings are one definition per
  capability.
\<close>

definition init_perm ::
    "kernel \<Rightarrow> perm_bits \<Rightarrow> nat \<Rightarrow> (perm_bits \<Rightarrow> perm_bits option) \<Rightarrow> 'a kstate_scheme
      \<Rightarrow> (int \<times> perm_bits \<times> 'a kstate_scheme) option" where
  "init_perm K perm len entries s =
     (case alloc_perm_bits K perm len s of (rc, perm, s) \<Rightarrow>
        if rc \<noteq> 0 then Some (- ENOMEM, perm, s)
        else do {
          perm \<leftarrow> entries perm;
          Some (0, perm, s) })"

definition cap_basic_entries :: "perm_bits \<Rightarrow> perm_bits option" where
  "cap_basic_entries perm = do {
     let perm = perm\<lparr>preadfn := Some Basic_config_read, pwritefn := Some Basic_config_write\<rparr>;
     perm \<leftarrow> p_setw perm PCI_VENDOR_ID ALL_VIRT NO_WRITE;
     perm \<leftarrow> p_setw perm PCI_DEVICE_ID ALL_VIRT NO_WRITE;
     perm \<leftarrow> p_setw perm PCI_COMMAND PCI_COMMAND_INTX_DISABLE ALL_WRITE;
     perm \<leftarrow> p_setw perm PCI_STATUS PCI_STATUS_CAP_LIST NO_WRITE;
     perm \<leftarrow> p_setb perm PCI_CACHE_LINE_SIZE NO_VIRT ALL_WRITE;
     perm \<leftarrow> p_setb perm PCI_LATENCY_TIMER NO_VIRT ALL_WRITE;
     perm \<leftarrow> p_setb perm PCI_BIST NO_VIRT ALL_WRITE;
     perm \<leftarrow> p_setd perm PCI_BASE_ADDRESS_0 ALL_VIRT ALL_WRITE;
     perm \<leftarrow> p_setd perm PCI_BASE_ADDRESS_1 ALL_VIRT ALL_WRITE;
     perm \<leftarrow> p_setd perm PCI_BASE_ADDRESS_2 ALL_VIRT ALL_WRITE;
     perm \<leftarrow> p_setd perm PCI_BASE_ADDRESS_3 ALL_VIRT ALL_WRITE;
     perm \<leftarrow> p_setd perm PCI_BASE_ADDRESS_4 ALL_VIRT ALL_WRITE;
     perm \<leftarrow> p_setd perm PCI_BASE_ADDRESS_5 ALL_VIRT ALL_WRITE;
     perm \<leftarrow> p_setd perm PCI_ROM_ADDRESS ALL_VIRT ALL_WRITE;
     perm \<leftarrow> p_setb perm PCI_CAPABILITY_LIST ALL_VIRT NO_WRITE;
     perm \<leftarrow> p_setb perm PCI_INTERRUPT_LINE ALL_VIRT ALL_WRITE;
     perm \<leftarrow> p_setb perm PCI_INTERRUPT_PIN ALL_VIRT NO_WRITE;
     Some perm }"

definition init_pci_cap_basic_perm ::
    "kernel \<Rightarrow> perm_bits \<Rightarrow> 'a kstate_scheme \<Rightarrow> (int \<times> perm_bits \<times> 'a kstate_scheme) option" where
  "init_pci_cap_basic_perm K perm s = init_perm K perm PCI_STD_HEADER_SIZEOF cap_basic_entries s"

definition cap_pm_entries :: "perm_bits \<Rightarrow> perm_bits option" where
  "cap_pm_entries perm = do {
     let perm = perm\<lparr>pwritefn := Some Pm_config_write\<rparr>;
     perm \<leftarrow> p_setb perm PCI_CAP_LIST_NEXT ALL_VIRT NO_WRITE;
     perm \<leftarrow> p_setd perm PCI_PM_CTRL NO_VIRT (NOT PCI_PM_CTRL_STATE_MASK);
     Some perm }"

definition init_pci_cap_pm_perm ::
    "kernel \<Rightarrow> perm_bits \<Rightarrow> 'a kstate_scheme \<Rightarrow> (int \<times> perm_bits \<times> 'a kstate_scheme) option" where
  "init_pci_cap_pm_perm K perm s = init_perm K perm (pci_cap_length ! PCI_CAP_ID_PM) cap_pm_entries s"

definition cap_vpd_entries :: "perm_bits \<Rightarrow> perm_bits option" where
  "cap_vpd_entries perm = do {
     let perm = perm\<lparr>pwritefn := Some Vpd_config_write\<rparr>;
     perm \<leftarrow> p_setb perm PCI_CAP_LIST_NEXT ALL_VIRT NO_WRITE;
     perm \<leftarrow> p_setw perm PCI_VPD_ADDR ALL_VIRT ALL_WRITE;
     perm \<leftarrow> p_setd perm PCI_VPD_DATA ALL_VIRT ALL_WRITE;
     Some perm }"

definition init_pci_cap_vpd_perm ::
    "kernel \<Rightarrow> perm_bits \<Rightarrow> 'a kstate_scheme \<Rightarrow> (int \<times> perm_bits \<times> 'a kstate_scheme) option" where
  "init_pci_cap_vpd_perm K perm s = init_perm K perm (pci_cap_length ! PCI_CAP_ID_VPD) cap_vpd_entries s"

definition cap_pcix_entries :: "perm_bits \<Rightarrow> perm_bits option" where
  "cap_pcix_entries perm = do {
     perm \<leftarrow> p_setb perm PCI_CAP_LIST_NEXT ALL_VIRT NO_WRITE;
     perm \<leftarrow> p_setw perm PCI_X_CMD NO_VIRT ALL_WRITE;
     perm \<leftarrow> p_setd perm PCI_X_ECC_CSR NO_VIRT ALL_WRITE;
     Some perm }"

definition init_pci_cap_pcix_perm ::
    "kernel \<Rightarrow> perm_bits \<Rightarrow> 'a kstate_scheme \<Rightarrow> (int \<times> perm_bits \<times> 'a kstate_scheme) option" where
  "init_pci_cap_pcix_perm K perm s = init_perm K perm PCI_CAP_PCIX_SIZEOF_V2 cap_pcix_entries s"

definition cap_exp_entries :: "perm_bits \<Rightarrow> perm_bits option" where
  "cap_exp_entries perm = do {
     let perm = perm\<lparr>pwritefn := Some Exp_config_write\<rparr>;
     perm \<leftarrow> p_setb perm PCI_CAP_LIST_NEXT ALL_VIRT NO_WRITE;
     perm \<leftarrow> p_setw perm PCI_EXP_DEVCTL
              (PCI_EXP_DEVCTL_BCR_FLR OR PCI_EXP_DEVCTL_PAYLOAD OR PCI_EXP_DEVCTL_READRQ)
              (NOT PCI_EXP_DEVCTL_PHANTOM);
     perm \<leftarrow> p_setw perm PCI_EXP_DEVCTL2 NO_VIRT (NOT PCI_EXP_DEVCTL2_ARI);
     Some perm }"

definition init_pci_cap_exp_perm ::
    "kernel \<Rightarrow> perm_bits \<Rightarrow> 'a kstate_scheme \<Rightarrow> (int \<times> perm_bits \<times> 'a kstate_scheme) option" where
  "init_pci_cap_exp_perm K perm s = init_perm K perm PCI_CAP_EXP_ENDPOINT_SIZEOF_V2 cap_exp_entries s"

definition cap_af_entries :: "perm_bits \<Rightarrow> perm_bits option" where
  "cap_af_entries perm = do {
     let perm = perm\<lparr>pwritefn := Some Af_config_write\<rparr>;
     perm \<leftarrow> p_setb perm PCI_CAP_LIST_NEXT ALL_VIRT NO_WRITE;
     perm \<leftarrow> p_setb perm PCI_AF_CTRL PCI_AF_CTRL_FLR PCI_AF_CTRL_FLR;
     Some perm }"

definition init_pci_cap_af_perm ::
    "kernel \<Rightarrow> perm_bits \<Rightarrow> 'a kstate_scheme \<Rightarrow> (int \<times> perm_bits \<times> 'a kstate_scheme) option" where
  "init_pci_cap_af_perm K perm s = init_perm K perm (pci_cap_length ! PCI_CAP_ID_AF) cap_af_entries s"

definition err_unc_mask :: u32 where
  "err_unc_mask = PCI_ERR_UNC_UND OR PCI_ERR_UNC_DLP OR PCI_ERR_UNC_SURPDN
     OR PCI_ERR_UNC_POISON_TLP OR PCI_ERR_UNC_FCP OR PCI_ERR_UNC_COMP_TIME
     OR PCI_ERR_UNC_COMP_ABORT OR PCI_ERR_UNC_UNX_COMP OR PCI_ERR_UNC_RX_OVER
     OR PCI_ERR_UNC_MALF_TLP OR PCI_ERR_UNC_ECRC OR PCI_ERR_UNC_UNSUP OR PCI_ERR_UNC_ACSV
     OR PCI_ERR_UNC_INTN OR PCI_ERR_UNC_MCBTLP OR PCI_ERR_UNC_ATOMEG OR PCI_ERR_UNC_TLPPRE"

definition err_cor_mask :: u32 where
  "err_cor_mask = PCI_ERR_COR_RCVR OR PCI_ERR_COR_BAD_TLP OR PCI_ERR_COR_BAD_DLLP
     OR PCI_ERR_COR_REP_ROLL OR PCI_ERR_COR_REP_TIMER OR PCI_ERR_COR_ADV_NFAT
     OR PCI_ERR_COR_INTERNAL OR PCI_ERR_COR_LOG_OVER"

definition ext_cap_err_entries :: "perm_bits \<Rightarrow> perm_bits option" where
  "ext_cap_err_entries perm = do {
     perm \<leftarrow> p_setd perm 0 ALL_VIRT NO_WRITE;
     perm \<leftarrow> p_setd perm PCI_ERR_UNCOR_STATUS NO_VIRT err_unc_mask;
     perm \<leftarrow> p_setd perm PCI_ERR_UNCOR_MASK NO_VIRT err_unc_mask;
     perm \<leftarrow> p_setd perm PCI_ERR_UNCOR_SEVER NO_VIRT err_unc_mask;
     perm \<leftarrow> p_setd perm PCI_ERR_COR_STATUS NO_VIRT err_cor_mask;
     perm \<leftarrow> p_setd perm PCI_ERR_COR_MASK NO_VIRT err_cor_mask;
     perm \<leftarrow> p_setd perm PCI_ERR_CAP NO_VIRT (PCI_ERR_CAP_ECRC_GENE OR PCI_ERR_CAP_ECRC_CHKE);
     Some perm }"

definition init_pci_ext_cap_err_perm ::
    "kernel \<Rightarrow> perm_bits \<Rightarrow> 'a kstate_scheme \<Rightarrow> (int \<times> perm_bits \<times> 'a kstate_scheme) option" where
  "init_pci_ext_cap_err_perm K perm s = init_perm K perm (pci_ext_cap_length ! PCI_EXT_CAP_ID_ERR) ext_cap_err_entries s"

definition ext_cap_pwr_entries :: "perm_bits \<Rightarrow> perm_bits option" where
  "ext_cap_pwr_entries perm = do {
     perm \<leftarrow> p_setd perm 0 ALL_VIRT NO_WRITE;
     perm \<leftarrow> p_setb perm PCI_PWR_DATA NO_VIRT ALL_WRITE;
     Some perm }"

definition init_pci_ext_cap_pwr_perm ::
    "kernel \<Rightarrow> perm_bits \<Rightarrow> 'a kstate_scheme \<Rightarrow> (int \<times> perm_bits \<times> 'a kstate_scheme) option" where
  "init_pci_ext_cap_pwr_perm K perm s = init_perm K perm (pci_ext_cap_length ! PCI_EXT_CAP_ID_PWR) ext_cap_pwr_entries s"

definition cap_msi_entries :: "u16 \<Rightarrow> perm_bits \<Rightarrow> perm_bits option" where
  "cap_msi_entries flags perm = do {
     let perm = perm\<lparr>preadfn := Some Msi_config_read, pwritefn := Some Msi_config_write\<rparr>;
     perm \<leftarrow> p_setb perm PCI_CAP_LIST_NEXT ALL_VIRT NO_WRITE;
     perm \<leftarrow> p_setb perm PCI_MSI_FLAGS ALL_VIRT ALL_WRITE;
     perm \<leftarrow> p_setd perm PCI_MSI_ADDRESS_LO ALL_VIRT ALL_WRITE;
     perm \<leftarrow>
       (if flags AND PCI_MSI_FLAGS_64BIT \<noteq> 0 then do {
          perm \<leftarrow> p_setd perm PCI_MSI_ADDRESS_HI ALL_VIRT ALL_WRITE;
          perm \<leftarrow> p_setw perm PCI_MSI_DATA_64 ALL_VIRT ALL_WRITE;
          if flags AND PCI_MSI_FLAGS_MASKBIT \<noteq> 0 then do {
            perm \<leftarrow> p_setd perm PCI_MSI_MASK_64 NO_VIRT ALL_WRITE;
            p_setd perm PCI_MSI_PENDING_64 NO_VIRT ALL_WRITE
          } else Some perm
        } else do {
          perm \<leftarrow> p_setw perm PCI_MSI_DATA_32 ALL_VIRT ALL_WRITE;
          if flags AND PCI_MSI_FLAGS_MASKBIT \<noteq> 0 then do {
            perm \<leftarrow> p_setd perm PCI_MSI_MASK_32 NO_VIRT ALL_WRITE;
            p_setd perm PCI_MSI_PENDING_32 NO_VIRT ALL_WRITE
          } else Some perm });
     Some perm }"

definition init_pci_cap_msi_perm ::
    "kernel \<Rightarrow> perm_bits \<Rightarrow> nat \<Rightarrow> u16 \<Rightarrow> 'a kstate_scheme
      \<Rightarrow> (int \<times> perm_bits \<times> 'a kstate_scheme) option" where
  "init_pci_cap_msi_perm K perm len flags s = init_perm K perm len (cap_msi_entries flags) s"

section \<open>All tables\<close>

definition cap_upd :: "nat \<Rightarrow> (perm_bits \<Rightarrow> perm_bits) \<Rightarrow> perm_tables \<Rightarrow> perm_tables" where
  "cap_upd i f T = T\<lparr>cap_perms := (cap_perms T)[i := f (cap_perms T ! i)]\<rparr>"

definition ecap_upd :: "nat \<Rightarrow> (perm_bits \<Rightarrow> perm_bits) \<Rightarrow> perm_tables \<Rightarrow> perm_tables" where
  "ecap_upd i f T = T\<lparr>ecap_perms := (ecap_perms T)[i := f (ecap_perms T ! i)]\<rparr>"

definition vfio_pci_uninit_perm_bits :: "perm_tables \<Rightarrow> perm_tables" where
  "vfio_pci_uninit_perm_bits T =
     (let T = cap_upd 0 free_perm_bits T;
          T = cap_upd PCI_CAP_ID_PM free_perm_bits T;
          T = cap_upd PCI_CAP_ID_VPD free_perm_bits T;
          T = cap_upd PCI_CAP_ID_PCIX free_perm_bits T;
          T = cap_upd PCI_CAP_ID_EXP free_perm_bits T;
          T = cap_upd PCI_CAP_ID_AF free_perm_bits T;
          T = ecap_upd PCI_EXT_CAP_ID_ERR free_perm_bits T
      in ecap_upd PCI_EXT_CAP_ID_PWR free_perm_bits T)"

definition vfio_pci_init_perm_bits ::
    "kernel \<Rightarrow> perm_tables \<Rightarrow> 'a kstate_scheme \<Rightarrow> (int \<times> perm_tables \<times> 'a kstate_scheme) option" where
  "vfio_pci_init_perm_bits K T s = do {
     (r0, p, s) \<leftarrow> init_pci_cap_basic_perm K (cap_perms T ! 0) s;
     let T = cap_upd 0 (\<lambda>_. p) T;
     (r1, p, s) \<leftarrow> init_pci_cap_pm_perm K (cap_perms T ! PCI_CAP_ID_PM) s;
     let T = cap_upd PCI_CAP_ID_PM (\<lambda>_. p) T;
     (r2, p, s) \<leftarrow> init_pci_cap_vpd_perm K (cap_perms T ! PCI_CAP_ID_VPD) s;
     let T = cap_upd PCI_CAP_ID_VPD (\<lambda>_. p) T;
     (r3, p, s) \<leftarrow> init_pci_cap_pcix_perm K (cap_perms T ! PCI_CAP_ID_PCIX) s;
     let T = cap_upd PCI_CAP_ID_PCIX (\<lambda>_. p) T;
     let T = cap_upd PCI_CAP_ID_VNDR (\<lambda>p. p\<lparr>pwritefn := Some Raw_config_write\<rparr>) T;
     (r4, p, s) \<leftarrow> init_pci_cap_exp_perm K (cap_perms T ! PCI_CAP_ID_EXP) s;
     let T = cap_upd PCI_CAP_ID_EXP (\<lambda>_. p) T;
     (r5, p, s) \<leftarrow> init_pci_cap_af_perm K (cap_perms T ! PCI_CAP_ID_AF) s;
     let T = cap_upd PCI_CAP_ID_AF (\<lambda>_. p) T;
     (r6, p, s) \<leftarrow> init_pci_ext_cap_err_perm K (ecap_perms T ! PCI_EXT_CAP_ID_ERR) s;
     let T = ecap_upd PCI_EXT_CAP_ID_ERR (\<lambda>_. p) T;
     (r7, p, s) \<leftarrow> init_pci_ext_cap_pwr_perm K (ecap_perms T ! PCI_EXT_CAP_ID_PWR) s;
     let T = ecap_upd PCI_EXT_CAP_ID_PWR (\<lambda>_. p) T;
     let T = ecap_upd PCI_EXT_CAP_ID_VNDR (\<lambda>p. p\<lparr>pwritefn := Some Raw_config_write\<rparr>) T;
     let ret = (r0 OR r1 OR r2 OR r3 OR r4 OR r5 OR r6 OR r7);
     Some (ret, if ret \<noteq> 0 then vfio_pci_uninit_perm_bits T else T, s) }"

end
