(* ===== verification/Config_Init.thy ===== *)
theory Config_Init
  imports Config_Perms
begin

text \<open>
  Setting up the virtual configuration space of a device, fifth part of
  \<^verbatim>\<open>src/device/vfio_pci_config.c\<close>: the lengths of capabilities, the walks over the two capability
  lists and \<^verbatim>\<open>vfio_config_init\<close>. \<open>None\<close> is an access outside the map or the virtual space. The checks
  that only log a conflict between capabilities read the same bytes that \<^verbatim>\<open>memset\<close> writes next.
\<close>

section \<open>Lengths of capabilities\<close>

text \<open>
  The object a \<^verbatim>\<open>kmalloc\<close> returned holds no meaningful table until \<^verbatim>\<open>init_pci_cap_msi_perm\<close> has set every
  field of it; when that fails it is freed, and the pointer in the device keeps its value.
\<close>

definition vfio_msi_cap_len ::
    "kernel \<Rightarrow> u8 \<Rightarrow> vfio_pci_device \<Rightarrow> (int \<times> vfio_pci_device) option" where
  "vfio_msi_cap_len K pos s =
     (case kcall K (Config (Read_config 2 (unat pos + PCI_MSI_FLAGS))) s of ((ret, v), s) \<Rightarrow>
        if ret \<noteq> 0 then Some (err_to_errno K ret, s)
        else
          let flags = (ucast v :: u16);
              len = 10 + (if flags AND PCI_MSI_FLAGS_64BIT \<noteq> 0 then 4 else 0)
                       + (if flags AND PCI_MSI_FLAGS_MASKBIT \<noteq> 0 then 10 else 0) in
          if msi_perm s \<noteq> NULL then Some (int len, s)
          else case kcall_rc K (Mem Alloc) s of (p, s) \<Rightarrow>
            if p = 0 then Some (- ENOMEM, s)
            else do {
              (ret, perm, s) \<leftarrow> init_pci_cap_msi_perm K direct_perm len flags s;
              if ret \<noteq> 0 then Some (ret, s\<lparr>msi_perm := Freed\<rparr>)
              else Some (int len, s\<lparr>msi_perm := Ptr perm\<rparr>) })"

definition vfio_vc_cap_len ::
    "kernel \<Rightarrow> nat \<Rightarrow> vfio_pci_device \<Rightarrow> int \<times> vfio_pci_device" where
  "vfio_vc_cap_len K pos s =
     (case kcall K (Config (Read_config 4 (pos + PCI_VC_PORT_CAP1))) s of ((ret, v), s) \<Rightarrow>
        if ret \<noteq> 0 then (err_to_errno K ret, s)
        else
          let evcc = unat ((ucast v :: u32) AND PCI_VC_CAP1_EVCC) in
          case kcall K (Config (Read_config 4 (pos + PCI_VC_PORT_CAP2))) s of ((ret, v), s) \<Rightarrow>
            if ret \<noteq> 0 then (err_to_errno K ret, s)
            else
              let tmp = (ucast v :: u32);
                  phases = (if tmp AND PCI_VC_CAP2_128_PHASE \<noteq> 0 then 128
                            else if tmp AND PCI_VC_CAP2_64_PHASE \<noteq> 0 then 64
                            else if tmp AND PCI_VC_CAP2_32_PHASE \<noteq> 0 then 32 else 0);
                  vc_arb = phases * 4;
                  len = PCI_CAP_VC_BASE_SIZEOF + (1 + evcc) * PCI_CAP_VC_PER_VC_SIZEOF
              in (int (if vc_arb \<noteq> 0 then round_up len 16 + vc_arb div 8 else len), s))"

text \<open>The test for extended capabilities, which ignores whether the read succeeded.\<close>

definition probe_extended_caps :: "kernel \<Rightarrow> vfio_pci_device \<Rightarrow> vfio_pci_device" where
  "probe_extended_caps K s =
     (if PCI_CFG_SPACE_SIZE < cfg_size (pdev s) then
        (case kcall K (Config (Read_config 4 PCI_CFG_SPACE_SIZE)) s of ((_, dword), s) \<Rightarrow>
           s\<lparr>extended_caps := ((ucast dword :: u32) \<noteq> 0)\<rparr>)
      else s)"

text \<open>A byte read from the device, or the error number of the failed read.\<close>

definition cap_byte ::
    "kernel \<Rightarrow> nat \<Rightarrow> (u8 \<Rightarrow> int) \<Rightarrow> vfio_pci_device \<Rightarrow> int \<times> vfio_pci_device" where
  "cap_byte K p f s =
     (case kcall K (Config (Read_config 1 p)) s of ((ret, v), s) \<Rightarrow>
        (if ret \<noteq> 0 then err_to_errno K ret else f (ucast v), s))"

definition vfio_cap_len ::
    "kernel \<Rightarrow> u8 \<Rightarrow> u8 \<Rightarrow> vfio_pci_device \<Rightarrow> (int \<times> vfio_pci_device) option" where
  "vfio_cap_len K cap pos s =
     (let c = unat cap; p = unat pos in
      if c = PCI_CAP_ID_MSI then vfio_msi_cap_len K pos s
      else if c = PCI_CAP_ID_PCIX then
        (case kcall K (Config (Read_config 2 (p + PCI_X_CMD))) s of ((ret, v), s) \<Rightarrow>
           if ret \<noteq> 0 then Some (err_to_errno K ret, s)
           else if PCI_X_CMD_VERSION (ucast v :: u16) \<noteq> 0
           then Some (int PCI_CAP_PCIX_SIZEOF_V2, probe_extended_caps K s)
           else Some (int PCI_CAP_PCIX_SIZEOF_V0, s))
      else if c = PCI_CAP_ID_VNDR then Some (cap_byte K (p + PCI_CAP_FLAGS) (\<lambda>b. int (unat b)) s)
      else if c = PCI_CAP_ID_EXP then
        (let s = probe_extended_caps K s in
         case kcall_rc K (Power Pcie_caps_reg) s of (reg, s) \<Rightarrow>
         case kcall_rc K (Power Pci_pcie_type) s of (type, s) \<Rightarrow>
           if (word_of_int reg :: u16) AND PCI_EXP_FLAGS_VERS = 1
           then Some (if type = PCI_EXP_TYPE_RC_END then 0xc else int PCI_CAP_EXP_ENDPOINT_SIZEOF_V1, s)
           else Some (if type = PCI_EXP_TYPE_RC_END then 0x2c else int PCI_CAP_EXP_ENDPOINT_SIZEOF_V2, s))
      else if c = PCI_CAP_ID_HT then
        Some (cap_byte K (p + 3)
          (\<lambda>b. int (if b AND HT_3BIT_CAP_MASK \<noteq> 0 then HT_CAP_SIZEOF_SHORT else HT_CAP_SIZEOF_LONG)) s)
      else if c = PCI_CAP_ID_SATA then
        Some (cap_byte K (p + PCI_SATA_REGS)
          (\<lambda>b. int (if b AND PCI_SATA_REGS_MASK = PCI_SATA_REGS_INLINE then PCI_SATA_SIZEOF_LONG
                    else PCI_SATA_SIZEOF_SHORT)) s)
      else Some (0, s))"

definition vfio_ext_cap_len ::
    "kernel \<Rightarrow> nat \<Rightarrow> nat \<Rightarrow> vfio_pci_device \<Rightarrow> int \<times> vfio_pci_device" where
  "vfio_ext_cap_len K ecap epos s =
     (if ecap = PCI_EXT_CAP_ID_VNDR then
        (case kcall K (Config (Read_config 4 (epos + PCI_VSEC_HDR))) s of ((ret, v), s) \<Rightarrow>
           (if ret \<noteq> 0 then err_to_errno K ret
            else int (unat (drop_bit PCI_VSEC_HDR_LEN_SHIFT (ucast v :: u32))), s))
      else if ecap = PCI_EXT_CAP_ID_VC \<or> ecap = PCI_EXT_CAP_ID_VC9 \<or> ecap = PCI_EXT_CAP_ID_MFVC then
        vfio_vc_cap_len K epos s
      else if ecap = PCI_EXT_CAP_ID_ACS then
        (case kcall K (Config (Read_config 1 (epos + PCI_ACS_CAP))) s of ((ret, v), s) \<Rightarrow>
           if ret \<noteq> 0 then (err_to_errno K ret, s)
           else if (ucast v :: u8) AND PCI_ACS_EC \<noteq> 0 then
             cap_byte K (epos + PCI_ACS_EGRESS_BITS)
               (\<lambda>b. 8 + int ((if b \<noteq> 0 then round_up (unat b) 32 else 256) div 8)) s
           else (8, s))
      else if ecap = PCI_EXT_CAP_ID_REBAR then
        cap_byte K (epos + PCI_REBAR_CTRL)
          (\<lambda>b. 4 + int (unat (drop_bit PCI_REBAR_CTRL_NBAR_SHIFT (b AND PCI_REBAR_CTRL_NBAR_MASK))) * 8) s
      else if ecap = PCI_EXT_CAP_ID_DPA then
        cap_byte K (epos + PCI_DPA_CAP)
          (\<lambda>b. int PCI_DPA_BASE_SIZEOF + int (unat (b AND PCI_DPA_CAP_SUBSTATE_MASK)) + 1) s
      else if ecap = PCI_EXT_CAP_ID_TPH then
        (case kcall K (Config (Read_config 4 (epos + PCI_TPH_CAP))) s of ((ret, v), s) \<Rightarrow>
           let dword = (ucast v :: u32) in
           (if ret \<noteq> 0 then err_to_errno K ret
            else if dword AND PCI_TPH_CAP_LOC_MASK = PCI_TPH_LOC_CAP then
              int PCI_TPH_BASE_SIZEOF
                + int (unat (drop_bit PCI_TPH_CAP_ST_SHIFT (dword AND PCI_TPH_CAP_ST_MASK))) * 2 + 2
            else int PCI_TPH_BASE_SIZEOF, s))
      else (0, s))"

section \<open>Filling the virtual space from the device\<close>

text \<open>
  The largest aligned access that fits is a dword, a word or a byte. A byte is read straight into
  the virtual space, a word or dword only after a successful read.
\<close>

definition fill_size :: "nat \<Rightarrow> nat \<Rightarrow> nat" where
  "fill_size offset n =
     (if 4 \<le> n \<and> offset mod 4 = 0 then 4 else if 2 \<le> n \<and> offset mod 2 = 0 then 2 else 1)"

lemma fill_size_pos: "0 < fill_size offset n" "0 < n \<Longrightarrow> fill_size offset n \<le> n" "fill_size offset n \<le> 4"
  by (auto simp: fill_size_def)

function vfio_fill_vconfig_bytes ::
    "kernel \<Rightarrow> nat \<Rightarrow> nat \<Rightarrow> vfio_pci_device \<Rightarrow> (int \<times> vfio_pci_device) option" where
  "vfio_fill_vconfig_bytes K offset n s =
     (if n = 0 then Some (0, s)
      else
        let filled = fill_size offset n in
        case kcall K (Config (Read_config filled offset)) s of ((ret, v), s) \<Rightarrow>
          if ret \<noteq> 0 \<and> filled \<noteq> 1 then Some (ret, s)
          else do {
            s \<leftarrow> vstore offset filled (ucast v) s;
            if ret \<noteq> 0 then Some (ret, s)
            else vfio_fill_vconfig_bytes K (offset + filled) (n - filled) s })"
  by auto
termination
  by (relation "measure (\<lambda>(K, offset, n, s). n)") (auto simp: fill_size_pos)

declare vfio_fill_vconfig_bytes.simps [simp del]

section \<open>The capability list\<close>

text \<open>
  \<open>cap_init_loop K loops pos prev caps s\<close>: at most \<open>loops\<close> more capabilities, the next one at \<open>pos\<close>;
  \<open>prev\<close> is the position of the link that points to it and \<open>caps\<close> counts those filled. The result is
  \<open>Some r\<close> if the function returned \<open>r\<close> from inside the loop, and \<open>None\<close> if the loop ended.
\<close>

fun cap_init_loop ::
    "kernel \<Rightarrow> nat \<Rightarrow> u8 \<Rightarrow> nat \<Rightarrow> nat \<Rightarrow> vfio_pci_device
      \<Rightarrow> (int option \<times> nat \<times> vfio_pci_device) option" where
  "cap_init_loop K 0 pos prev caps s = Some (None, caps, s)"
| "cap_init_loop K (Suc n) pos prev caps s =
     (if pos = 0 then Some (None, caps, s)
      else case kcall K (Config (Read_config 1 (unat pos))) s of ((ret, v), s) \<Rightarrow>
        if ret \<noteq> 0 then Some (Some ret, caps, s)
        else
          let cap = (ucast v :: u8) in
          case kcall K (Config (Read_config 1 (unat pos + PCI_CAP_LIST_NEXT))) s of ((ret, v), s) \<Rightarrow>
            if ret \<noteq> 0 then Some (Some ret, caps, s)
            else do {
              let next = (ucast v :: u8);
              (len, s) \<leftarrow>
                (if unat cap \<le> PCI_CAP_ID_MAX then
                   (if pci_cap_length ! unat cap = 0xFF then vfio_cap_len K cap pos s
                    else Some (int (pci_cap_length ! unat cap), s))
                 else Some (0, s));
              if len < 0 then Some (Some len, caps, s)
              else if len = 0 then do {
                s \<leftarrow> vstore prev 1 (ucast next) s;
                cap_init_loop K n next prev caps s
              } else do {
                m \<leftarrow> fill (pci_config_map s) (unat pos) (nat len) cap;
                (ret, s) \<leftarrow>
                  vfio_fill_vconfig_bytes K (unat pos) (nat len) (s\<lparr>pci_config_map := m\<rparr>);
                if ret \<noteq> 0 then Some (Some ret, caps, s)
                else cap_init_loop K n next (unat pos + PCI_CAP_LIST_NEXT) (caps + 1) s } })"

definition vfio_cap_init :: "kernel \<Rightarrow> vfio_pci_device \<Rightarrow> (int \<times> vfio_pci_device) option" where
  "vfio_cap_init K s =
     (case kcall K (Config (Read_config 2 PCI_STATUS)) s of ((ret, status), s) \<Rightarrow>
        if ret \<noteq> 0 then Some (ret, s)
        else if (ucast status :: u16) AND PCI_STATUS_CAP_LIST = 0 then Some (0, s)
        else case kcall K (Config (Read_config 1 PCI_CAPABILITY_LIST)) s of ((ret, pos), s) \<Rightarrow>
          if ret \<noteq> 0 then Some (ret, s)
          else do {
            let loops = (PCI_CFG_SPACE_SIZE - PCI_STD_HEADER_SIZEOF) div PCI_CAP_SIZEOF;
            (early, caps, s) \<leftarrow> cap_init_loop K loops (ucast pos) PCI_CAPABILITY_LIST 0 s;
            case early of
              Some r \<Rightarrow> Some (r, s)
            | None \<Rightarrow>
                if caps = 0 then do {
                  v \<leftarrow> vload PCI_STATUS 2 s;
                  s \<leftarrow> vstore PCI_STATUS 2 (v AND NOT (ucast PCI_STATUS_CAP_LIST)) s;
                  Some (0, s)
                } else Some (0, s) })"

section \<open>The extended capability list\<close>

text \<open>
  A capability of length 0 is unlinked, or, when it is the first and there is no link to change, kept
  as a placeholder of one dword. The error of \<^verbatim>\<open>vfio_ext_cap_len\<close> makes the function return \<open>ret\<close>, which
  is zero at that point.
\<close>

fun ecap_init_loop ::
    "kernel \<Rightarrow> nat \<Rightarrow> nat \<Rightarrow> nat option \<Rightarrow> nat \<Rightarrow> vfio_pci_device
      \<Rightarrow> (int option \<times> nat \<times> vfio_pci_device) option" where
  "ecap_init_loop K 0 epos prev ecaps s = Some (None, ecaps, s)"
| "ecap_init_loop K (Suc n) epos prev ecaps s =
     (if epos < PCI_CFG_SPACE_SIZE then Some (None, ecaps, s)
      else case kcall K (Config (Read_config 4 epos)) s of ((ret, v), s) \<Rightarrow>
        if ret \<noteq> 0 then Some (Some ret, ecaps, s)
        else
          let header = (ucast v :: u32);
              ecap = PCI_EXT_CAP_ID header;
              (len, s) = (if ecap \<le> PCI_EXT_CAP_ID_MAX then
                            (if pci_ext_cap_length ! ecap = 0xFF then vfio_ext_cap_len K ecap epos s
                             else (int (pci_ext_cap_length ! ecap), s))
                          else (0, s)) in
          if len < 0 then Some (Some ret, ecaps, s)
          else case (len = 0, prev) of
            (True, Some q) \<Rightarrow> do {
              let epos = PCI_EXT_CAP_NEXT header;
              v \<leftarrow> vload q 4 s;
              s \<leftarrow> vstore q 4 ((v AND NOT (push_bit 20 0xffc)) OR push_bit 20 (word_of_nat epos)) s;
              ecap_init_loop K n epos prev ecaps s }
          | _ \<Rightarrow> do {
              let hidden = (len = 0);
              let bytes = (if hidden then PCI_CAP_SIZEOF else nat len);
              m \<leftarrow> fill (pci_config_map s) epos bytes (word_of_nat ecap);
              (ret, s) \<leftarrow> vfio_fill_vconfig_bytes K epos bytes (s\<lparr>pci_config_map := m\<rparr>);
              if ret \<noteq> 0 then Some (Some ret, ecaps, s)
              else do {
                s \<leftarrow> (if hidden then do {
                       v \<leftarrow> vload epos 4 s;
                       vstore epos 4 (v AND push_bit 20 0xffc) s
                     } else Some s);
                ecap_init_loop K n (PCI_EXT_CAP_NEXT header) (Some epos)
                  (if hidden then ecaps else ecaps + 1) s } })"

definition vfio_ecap_init :: "kernel \<Rightarrow> vfio_pci_device \<Rightarrow> (int \<times> vfio_pci_device) option" where
  "vfio_ecap_init K s =
     (if \<not> extended_caps s then Some (0, s)
      else do {
        let loops = (cfg_size (pdev s) - PCI_CFG_SPACE_SIZE) div PCI_CAP_SIZEOF;
        (early, ecaps, s) \<leftarrow> ecap_init_loop K loops PCI_CFG_SPACE_SIZE None 0 s;
        case early of
          Some r \<Rightarrow> Some (r, s)
        | None \<Rightarrow>
            if ecaps = 0 then do {
              s \<leftarrow> vstore PCI_CFG_SPACE_SIZE 4 0 s;
              Some (0, s)
            } else Some (0, s) })"

section \<open>Initialisation\<close>

definition set_rbar :: "vfio_pci_device \<Rightarrow> vfio_pci_device option" where
  "set_rbar s = do {
     b0 \<leftarrow> vload PCI_BASE_ADDRESS_0 4 s;
     b1 \<leftarrow> vload PCI_BASE_ADDRESS_1 4 s;
     b2 \<leftarrow> vload PCI_BASE_ADDRESS_2 4 s;
     b3 \<leftarrow> vload PCI_BASE_ADDRESS_3 4 s;
     b4 \<leftarrow> vload PCI_BASE_ADDRESS_4 4 s;
     b5 \<leftarrow> vload PCI_BASE_ADDRESS_5 4 s;
     b6 \<leftarrow> vload PCI_ROM_ADDRESS 4 s;
     Some (s\<lparr>rbar := [b0, b1, b2, b3, b4, b5, b6]\<rparr>) }"

text \<open>Virtual functions have their identity and interrupt pin in software only.\<close>

definition init_virtfn :: "vfio_pci_device \<Rightarrow> vfio_pci_device option" where
  "init_virtfn s =
     (if is_virtfn (pdev s) then do {
        s \<leftarrow> vstore PCI_VENDOR_ID 2 (ucast (vendor (pdev s))) s;
        s \<leftarrow> vstore PCI_DEVICE_ID 2 (ucast (device_id (pdev s))) s;
        vstore PCI_INTERRUPT_PIN 1 0 s
      } else Some s)"

definition config_init_fail ::
    "kernel \<Rightarrow> int \<Rightarrow> vfio_pci_device \<Rightarrow> int \<times> vfio_pci_device" where
  "config_init_fail K ret s = (err_to_errno K ret, s\<lparr>pci_config_map := [], vconfig := []\<rparr>)"

definition vfio_config_init :: "kernel \<Rightarrow> vfio_pci_device \<Rightarrow> (int \<times> vfio_pci_device) option" where
  "vfio_config_init K s =
     (let n = cfg_size (pdev s);
          garbage = map (heap_garbage K) [0..<n] in
      case kcall_rc K (Mem Alloc) s of (p, s) \<Rightarrow>
      if p = 0 then Some (- ENOMEM, s)
      else case kcall_rc K (Mem Alloc) s of (p, s) \<Rightarrow>
      if p = 0 then Some (- ENOMEM, s)
      else do {
        m \<leftarrow> fill garbage 0 PCI_STD_HEADER_SIZEOF 0;
        m \<leftarrow> fill m PCI_STD_HEADER_SIZEOF (n - PCI_STD_HEADER_SIZEOF) PCI_CAP_ID_INVALID;
        (ret, s) \<leftarrow> vfio_fill_vconfig_bytes K 0 PCI_STD_HEADER_SIZEOF
                      (s\<lparr>pci_config_map := m, vconfig := garbage\<rparr>);
        if ret \<noteq> 0 then Some (config_init_fail K ret s)
        else do {
          s \<leftarrow> set_rbar (s\<lparr>bardirty := True\<rparr>);
          s \<leftarrow> init_virtfn s;
          s \<leftarrow> (if \<not> IS_ENABLED_VFIO_PCI_INTX K \<or> nointx s then vstore PCI_INTERRUPT_PIN 1 0 s
               else Some s);
          (ret, s) \<leftarrow> vfio_cap_init K s;
          if ret \<noteq> 0 then Some (config_init_fail K ret s)
          else do {
            (ret, s) \<leftarrow> vfio_ecap_init K s;
            Some (if ret \<noteq> 0 then config_init_fail K ret s else (0, s)) } } })"

text \<open>\<^verbatim>\<open>kfree(NULL)\<close> does nothing; freeing an object twice is undefined.\<close>

definition vfio_config_free :: "vfio_pci_device \<Rightarrow> vfio_pci_device option" where
  "vfio_config_free s =
     (if msi_perm s = Freed then None
      else Some (s\<lparr>vconfig := [], pci_config_map := [], msi_perm := NULL\<rparr>))"

end
