(* ===== verification/Config_RW.thy ===== *)
theory Config_RW
  imports Config_Basic Config_Caps Config_Init
begin

text \<open>
  The user's access to configuration space, last part of \<^verbatim>\<open>src/device/vfio_pci_config.c\<close>: an access is
  chopped into aligned chunks of at most one dword inside one capability, and each chunk goes to the
  handler of that capability. The memory of the user process is the field \<open>user_mem\<close>; a copy to it
  that fails half way has written the bytes that were copied.
\<close>

section \<open>The memory of the user\<close>

definition copy_from_user ::
    "kernel \<Rightarrow> nat \<Rightarrow> nat \<Rightarrow> vfio_pci_device \<Rightarrow> int \<times> u32 \<times> vfio_pci_device" where
  "copy_from_user K addr n s =
     (case kcall_rc K (Mem (Copy_from_user addr n)) s of (rc, s) \<Rightarrow>
        (rc, le_val (map (\<lambda>i. user_mem s (addr + i)) [0..<n]), s))"

definition put_bytes :: "nat \<Rightarrow> nat \<Rightarrow> u32 \<Rightarrow> (nat \<Rightarrow> u8) \<Rightarrow> nat \<Rightarrow> u8" where
  "put_bytes addr n v m =
     (\<lambda>a. if addr \<le> a \<and> a < addr + n then ucast (drop_bit (8 * (a - addr)) v) else m a)"

definition copy_to_user ::
    "kernel \<Rightarrow> nat \<Rightarrow> nat \<Rightarrow> u32 \<Rightarrow> vfio_pci_device \<Rightarrow> int \<times> vfio_pci_device" where
  "copy_to_user K addr n v s =
     (case kcall_rc K (Mem (Copy_to_user addr n)) s of (rc, s) \<Rightarrow>
        (rc, s\<lparr>user_mem := put_bytes addr (n - nat rc) v (user_mem s)\<rparr>))"

lemma copy_from_user_emits:
  "(\<And>a n. P (Mem (Copy_from_user a n))) \<Longrightarrow> emits P s (snd (snd (copy_from_user K buf n s)))"
  by (simp add: copy_from_user_def case_prod_unfold)

lemma copy_to_user_emits:
  "(\<And>a n. P (Mem (Copy_to_user a n))) \<Longrightarrow> emits P s (snd (copy_to_user K buf n v s))"
  by (simp add: copy_to_user_def case_prod_unfold)

section \<open>Dispatch\<close>

fun call_readfn ::
    "readfn \<Rightarrow> kernel \<Rightarrow> nat \<Rightarrow> nat \<Rightarrow> perm_bits \<Rightarrow> nat \<Rightarrow> u32 \<Rightarrow> vfio_pci_device
      \<Rightarrow> (int \<times> u32 \<times> vfio_pci_device) option" where
  "call_readfn Default_config_read = vfio_default_config_read"
| "call_readfn Direct_config_read = vfio_direct_config_read"
| "call_readfn Raw_config_read = vfio_raw_config_read"
| "call_readfn Virt_config_read = vfio_virt_config_read"
| "call_readfn Basic_config_read = vfio_basic_config_read"
| "call_readfn Msi_config_read = vfio_msi_config_read"

fun call_writefn ::
    "writefn \<Rightarrow> kernel \<Rightarrow> nat \<Rightarrow> nat \<Rightarrow> perm_bits \<Rightarrow> nat \<Rightarrow> u32 \<Rightarrow> vfio_pci_device
      \<Rightarrow> (int \<times> vfio_pci_device) option" where
  "call_writefn Default_config_write = vfio_default_config_write"
| "call_writefn Raw_config_write = vfio_raw_config_write"
| "call_writefn Virt_config_write = vfio_virt_config_write"
| "call_writefn Basic_config_write = vfio_basic_config_write"
| "call_writefn Pm_config_write = vfio_pm_config_write"
| "call_writefn Vpd_config_write = vfio_vpd_config_write"
| "call_writefn Exp_config_write = vfio_exp_config_write"
| "call_writefn Af_config_write = vfio_af_config_write"
| "call_writefn Msi_config_write = vfio_msi_config_write"

text \<open>The bytes from \<open>p\<close> on, up to the end of the dword, that belong to capability \<open>cap\<close>.\<close>

function cap_remaining_loop :: "u8 list \<Rightarrow> u8 \<Rightarrow> nat \<Rightarrow> nat option" where
  "cap_remaining_loop m cap p =
     (if p mod 4 = 0 then Some 0
      else do {
        b \<leftarrow> nth_opt m p;
        if b = cap then map_option Suc (cap_remaining_loop m cap (p + 1)) else Some 0 })"
  by auto
termination
  by (relation "measure (\<lambda>(m, cap, p). (4 - p mod 4) mod 4)") (auto simp: mod_Suc)

declare cap_remaining_loop.simps [simp del]

definition vfio_pci_cap_remaining_dword :: "vfio_pci_device \<Rightarrow> nat \<Rightarrow> nat option" where
  "vfio_pci_cap_remaining_dword s pos = do {
     cap \<leftarrow> nth_opt (pci_config_map s) pos;
     map_option Suc (cap_remaining_loop (pci_config_map s) cap (pos + 1)) }"

text \<open>
  The permission table that governs a position, and the start of its capability. A table outside
  the array, and the MSI table of a device that has none, are undefined.
\<close>

definition config_perm ::
    "perm_tables \<Rightarrow> vfio_pci_device \<Rightarrow> nat \<Rightarrow> (perm_bits \<times> nat) option" where
  "config_perm T s p = do {
     cap_id \<leftarrow> nth_opt (pci_config_map s) p;
     if cap_id = PCI_CAP_ID_INVALID then Some (unassigned_perms, p)
     else if cap_id = PCI_CAP_ID_INVALID_VIRT then Some (virt_perms, p)
     else if PCI_CFG_SPACE_SIZE \<le> p then do {
       perm \<leftarrow> nth_opt (ecap_perms T) (unat cap_id);
       start \<leftarrow> vfio_find_cap_start s p;
       Some (perm, start)
     } else do {
       perm \<leftarrow> nth_opt (cap_perms T) (unat cap_id);
       perm \<leftarrow> (if unat cap_id = PCI_CAP_ID_MSI
               then (case msi_perm s of Ptr p \<Rightarrow> Some p | _ \<Rightarrow> None) else Some perm);
       start \<leftarrow> (if 0 < cap_id then vfio_find_cap_start s p else Some 0);
       Some (perm, start) } }"

section \<open>One chunk\<close>

text \<open>The access of \<open>n\<close> bytes at \<open>p\<close> that the table \<open>perm\<close> of a capability at \<open>cap_start\<close> governs.\<close>

definition config_chunk ::
    "kernel \<Rightarrow> bool \<Rightarrow> nat \<Rightarrow> nat \<Rightarrow> nat \<Rightarrow> perm_bits \<Rightarrow> nat \<Rightarrow> vfio_pci_device
      \<Rightarrow> (int \<times> vfio_pci_device) option" where
  "config_chunk K iswrite buf p n perm cap_start s =
     (let offset = p - cap_start in
      if iswrite then
        (case pwritefn perm of
           None \<Rightarrow> Some (int n, s)
         | Some writefn \<Rightarrow>
             (case copy_from_user K buf n s of (rc, val, s) \<Rightarrow>
                if rc \<noteq> 0 then Some (- EFAULT, s)
                else call_writefn writefn K p n perm offset val s))
      else do {
        (ret, val, s) \<leftarrow>
          (case preadfn perm of
             None \<Rightarrow> Some (int n, 0, s)
           | Some readfn \<Rightarrow> call_readfn readfn K p n perm offset 0 s);
        if ret < 0 then Some (ret, s)
        else case copy_to_user K buf n val s of (rc, s) \<Rightarrow>
          Some (if rc \<noteq> 0 then - EFAULT else ret, s) })"

definition vfio_config_do_rw ::
    "kernel \<Rightarrow> perm_tables \<Rightarrow> bool \<Rightarrow> nat \<Rightarrow> u64 \<Rightarrow> int \<Rightarrow> vfio_pci_device
      \<Rightarrow> (int \<times> vfio_pci_device) option" where
  "vfio_config_do_rw K T iswrite buf count pos s =
     (let len = cfg_size (pdev s) in
      if pos < 0 \<or> int len \<le> pos \<or> (word_of_nat len :: u64) < word_of_int pos + count
      then Some (- EFAULT, s)
      else do {
        let p = nat pos;
        remaining \<leftarrow> vfio_pci_cap_remaining_dword s p;
        let n = fill_size p (min (unat count) remaining);
        (perm, cap_start) \<leftarrow> config_perm T s p;
        config_chunk K iswrite buf p n perm cap_start s })"

section \<open>The whole access\<close>

text \<open>
  The loop over chunks, for a function \<open>step\<close> that handles the next one and returns the number of
  bytes it handled or an error. The fuel of a call is the number of bytes asked for, which is enough
  because a chunk has at least one byte; \<open>chunk_client\<close> below proves it.
\<close>

fun chunk_loop ::
    "(nat \<Rightarrow> u64 \<Rightarrow> int \<Rightarrow> 's \<Rightarrow> (int \<times> 's) option) \<Rightarrow> nat \<Rightarrow> nat \<Rightarrow> u64 \<Rightarrow> int \<Rightarrow> nat \<Rightarrow> 's
      \<Rightarrow> (int \<times> 's) option" where
  "chunk_loop step 0 buf count pos done s = (if count = 0 then Some (int done, s) else None)"
| "chunk_loop step (Suc n) buf count pos done s =
     (if count = 0 then Some (int done, s)
      else do {
        (ret, s) \<leftarrow> step buf count pos s;
        if ret < 0 then Some (ret, s)
        else chunk_loop step n (buf + nat ret) (count - word_of_int ret) (pos + ret) (done + nat ret) s })"

text \<open>The result is the return value, the new file position and the state.\<close>

definition vfio_pci_config_rw ::
    "kernel \<Rightarrow> perm_tables \<Rightarrow> nat \<Rightarrow> u64 \<Rightarrow> int \<Rightarrow> bool \<Rightarrow> vfio_pci_device
      \<Rightarrow> (int \<times> int \<times> vfio_pci_device) option" where
  "vfio_pci_config_rw K T buf count ppos iswrite s = do {
     let pos = ppos AND VFIO_PCI_OFFSET_MASK;
     (ret, s) \<leftarrow> chunk_loop (vfio_config_do_rw K T iswrite) (unat count) buf count pos 0 s;
     Some (ret, if ret < 0 then ppos else ppos + ret, s) }"

section \<open>The contract of a chunk\<close>

lemma unat_count_minus:
  assumes "0 < ret" "ret \<le> int (unat count)"
  shows "unat (count - word_of_int ret :: u64) = unat count - nat ret"
proof -
  have "unat (word_of_int ret :: u64) = nat ret"
  proof (rule unat_word_of_int_small)
    show "ret < 2 ^ LENGTH(64)" using assms(2) uint_lt2p [of count] by simp
  qed (use assms in simp)
  with assms show ?thesis by (subst unat_sub) (simp_all add: word_le_nat_alt nat_le_iff)
qed

locale chunk_client =
  fixes step :: "nat \<Rightarrow> u64 \<Rightarrow> int \<Rightarrow> 's \<Rightarrow> (int \<times> 's) option"
    and inv :: "'s \<Rightarrow> bool"
  assumes chunk: "inv s \<Longrightarrow> count \<noteq> 0 \<Longrightarrow>
    \<exists>ret s'. step buf count pos s = Some (ret, s') \<and> inv s' \<and>
      (ret < 0 \<or> 0 < ret \<and> ret \<le> int (unat count))"
begin

lemma loop_total:
  assumes "inv s" "unat count \<le> fuel"
  shows "\<exists>r s'. chunk_loop step fuel buf count pos done s = Some (r, s') \<and> inv s' \<and>
    (r < 0 \<or> r = int done + int (unat count))"
  using assms
proof (induction fuel arbitrary: buf count pos "done" s)
  case 0
  then have "count = 0" by (simp only: unat_eq_zero le_zero_eq)
  with 0 show ?case by simp
next
  case (Suc n)
  show ?case
  proof (cases "count = 0")
    case True
    with Suc.prems show ?thesis by simp
  next
    case False
    obtain ret t where t: "step buf count pos s = Some (ret, t)" "inv t"
      and ret: "ret < 0 \<or> 0 < ret \<and> ret \<le> int (unat count)"
      using chunk [OF Suc.prems(1) False] by blast
    show ?thesis
    proof (cases "ret < 0")
      case True
      with t False show ?thesis by simp
    next
      case nonneg: False
      with ret have pos: "0 < ret" "ret \<le> int (unat count)" by auto
      note left = unat_count_minus [OF pos]
      from pos have "unat (count - word_of_int ret) \<le> n" using Suc.prems(2) left by linarith
      from Suc.IH [OF t(2) this, of "buf + nat ret" "pos + ret" "done + nat ret"]
      show ?thesis using t(1) False nonneg left pos by (auto simp: of_nat_diff nat_le_iff)
    qed
  qed
qed

text \<open>What every chunk keeps, the whole access keeps.\<close>

lemma loop_keeps:
  assumes keep: "\<And>buf count pos s ret s'. inv s \<Longrightarrow> P s \<Longrightarrow> count \<noteq> 0 \<Longrightarrow>
      step buf count pos s = Some (ret, s') \<Longrightarrow> P s'"
    and "inv s" "P s" "chunk_loop step fuel buf count pos done s = Some (r, s')"
  shows "P s'"
  using assms(2-)
proof (induction fuel arbitrary: buf count pos "done" s)
  case 0
  then show ?case by (simp split: if_splits)
next
  case (Suc n)
  show ?case
  proof (cases "count = 0")
    case True
    with Suc.prems show ?thesis by simp
  next
    case False
    obtain ret t where t: "step buf count pos s = Some (ret, t)" "inv t"
      using chunk [OF Suc.prems(1) False] by blast
    have "P t" by (rule keep [OF Suc.prems(1,2) False t(1)])
    with Suc.IH [OF t(2)] Suc.prems(3) t False show ?thesis by (auto split: if_splits)
  qed
qed

text \<open>More fuel than bytes makes no difference.\<close>

lemma loop_fuel:
  assumes "inv s" "unat count \<le> fuel" "unat count \<le> fuel'"
  shows "chunk_loop step fuel buf count pos done s = chunk_loop step fuel' buf count pos done s"
  using assms
proof (induction fuel arbitrary: fuel' buf count pos "done" s)
  case 0
  then have "count = 0" by (simp only: unat_eq_zero le_zero_eq)
  then show ?case by (cases fuel') simp_all
next
  case (Suc n)
  show ?case
  proof (cases "count = 0")
    case True
    then show ?thesis by (cases fuel') simp_all
  next
    case False
    then have "0 < unat count" by (simp add: unat_gt_0)
    with Suc.prems obtain m where m: "fuel' = Suc m" by (cases fuel') auto
    obtain ret t where t: "step buf count pos s = Some (ret, t)" "inv t"
      and ret: "ret < 0 \<or> 0 < ret \<and> ret \<le> int (unat count)"
      using chunk [OF Suc.prems(1) False] by blast
    show ?thesis
    proof (cases "ret < 0")
      case True
      with t False m show ?thesis by simp
    next
      case nonneg: False
      with ret have pos: "0 < ret" "ret \<le> int (unat count)" by auto
      then have "unat (count - word_of_int ret) \<le> n" "unat (count - word_of_int ret) \<le> m"
        using Suc.prems m unat_count_minus [OF pos] by linarith+
      from Suc.IH [OF t(2) this] show ?thesis using t(1) False nonneg m by simp
    qed
  qed
qed

end

end
