(* ===== verification/Config_Safe.thy ===== *)
theory Config_Safe
  imports Config_RW Intrs_Thms
begin

text \<open>
  Memory safety of configuration space. \<open>cfg_step\<close> is what every handler leaves alone; \<open>config_ok\<close> is
  the invariant: the virtual space and the map have the size of configuration space, and the
  capabilities in the map fit their permission tables. Under it no access is undefined, and every
  chunk makes progress or fails.
\<close>

section \<open>What handlers leave alone\<close>

definition cfg_step :: "vfio_pci_device \<Rightarrow> vfio_pci_device \<Rightarrow> bool" where
  "cfg_step s s' \<longleftrightarrow>
     quiet s s' \<and> pdev s' = pdev s \<and> pci_config_map s' = pci_config_map s \<and>
     msi_perm s' = msi_perm s \<and> length (vconfig s') = length (vconfig s) \<and> rbar s' = rbar s \<and>
     user_mem s' = user_mem s \<and> msi_qmax s' = msi_qmax s \<and> extended_caps s' = extended_caps s \<and>
     barmap s' = barmap s \<and> msix_bar s' = msix_bar s \<and> msix_size s' = msix_size s \<and> msix_offset s' = msix_offset s \<and>
     ioeventfds_list s' = ioeventfds_list s \<and> ioeventfds_nr s' = ioeventfds_nr s \<and>
     dummy_resources_list s' = dummy_resources_list s \<and> refcnt s' = refcnt s"

lemma quiet_other_calls [simp]: "quiet_call (Config c)" "quiet_call (Power p)"
  by (simp_all add: quiet_call_def)

lemma cfg_step_refl [simp]: "cfg_step s s"
  by (simp add: cfg_step_def)

lemma cfg_step_trans: "cfg_step s s' \<Longrightarrow> cfg_step s' s'' \<Longrightarrow> cfg_step s s''"
  by (auto simp: cfg_step_def intro: quiet_trans)

lemma cfg_step_calls:
  "quiet_call c \<Longrightarrow> cfg_step s (kcall_do K c s)"
  "quiet_call c \<Longrightarrow> cfg_step s (snd (kcall_rc K c s))"
  "quiet_call c \<Longrightarrow> cfg_step s (snd (kcall K c s))"
  by (simp_all add: cfg_step_def quiet_kcall quiet_kcall_rc quiet_kcall_full)

lemma cfg_step_fields:
  "cfg_step s (s\<lparr>bardirty := b\<rparr>)" "cfg_step s (s\<lparr>virq_disabled := b\<rparr>)"
  by (simp_all add: cfg_step_def quiet_def)

text \<open>The same but for the memory of the user.\<close>

definition dev_step :: "vfio_pci_device \<Rightarrow> vfio_pci_device \<Rightarrow> bool" where
  "dev_step s s' \<longleftrightarrow> cfg_step s (s'\<lparr>user_mem := user_mem s\<rparr>)"

lemma dev_step_refl [simp]: "dev_step s s"
  by (simp add: dev_step_def)

lemma dev_step_cfg: "cfg_step s s' \<Longrightarrow> dev_step s s'"
  by (simp add: dev_step_def cfg_step_def quiet_def)

lemma dev_step_user_mem [simp]: "dev_step s (t\<lparr>user_mem := m\<rparr>) = dev_step s t"
  by (simp add: dev_step_def)

lemma dev_step_trans: "dev_step s s' \<Longrightarrow> dev_step s' s'' \<Longrightarrow> dev_step s s''"
  by (simp add: dev_step_def cfg_step_def quiet_def)

lemma cfg_step_vstore: "vstore p n v s = Some s' \<Longrightarrow> cfg_step s s'"
  by (auto simp: vstore_def cfg_step_def quiet_def length_store)

lemma vload_in [ub_simps]: "p + n \<le> length (vconfig s) \<Longrightarrow> \<exists>v. vload p n s = Some v"
  by (simp add: vload_def load_ex)

lemma vload_None [simp]: "vload p n s = None \<longleftrightarrow> length (vconfig s) < p + n"
  by (simp add: vload_def)

lemma vstore_None [simp]: "vstore p n v s = None \<longleftrightarrow> length (vconfig s) < p + n"
  by (simp add: vstore_def)

lemma vstore_ex: "p + n \<le> length (vconfig s) \<Longrightarrow> \<exists>s'. vstore p n v s = Some s' \<and> cfg_step s s'"
  using vstore_None [of p n v s] cfg_step_vstore by fastforce

lemma cfg_step_user_read: "cfg_step s (snd (snd (vfio_user_config_read K off n s)))"
  by (simp add: vfio_user_config_read_def case_prod_unfold cfg_step_calls)

lemma cfg_step_user_write: "cfg_step s (snd (vfio_user_config_write K off v n s))"
  by (simp add: vfio_user_config_write_def cfg_step_calls)

lemma user_read_rc: "user_cfg_law K \<Longrightarrow> fst (vfio_user_config_read K off n s) \<le> 0"
  by (simp add: vfio_user_config_read_def kcall_Pair user_cfg_lawD case_prod_unfold)

lemma user_write_rc: "user_cfg_law K \<Longrightarrow> fst (vfio_user_config_write K off v n s) \<le> 0"
  by (simp add: vfio_user_config_write_def kcall_rc_Pair user_cfg_lawD)

section \<open>The contract of a handler\<close>

text \<open>
  \<open>read_post\<close> and \<open>write_post\<close>: the handler is defined, moves the state by a \<open>cfg_step\<close>, and returns a
  negative error or exactly the number of bytes it was given.
\<close>

definition read_post ::
    "nat \<Rightarrow> vfio_pci_device \<Rightarrow> (int \<times> u32 \<times> vfio_pci_device) option \<Rightarrow> bool" where
  "read_post n s x \<longleftrightarrow>
     (case x of None \<Rightarrow> False | Some (ret, _, s') \<Rightarrow> cfg_step s s' \<and> (ret < 0 \<or> ret = int n))"

definition write_post ::
    "nat \<Rightarrow> vfio_pci_device \<Rightarrow> (int \<times> vfio_pci_device) option \<Rightarrow> bool" where
  "write_post n s x \<longleftrightarrow>
     (case x of None \<Rightarrow> False | Some (ret, s') \<Rightarrow> cfg_step s s' \<and> (ret < 0 \<or> ret = int n))"

lemma read_post_Some [simp]:
  "read_post n s (Some x) \<longleftrightarrow> cfg_step s (snd (snd x)) \<and> (fst x < 0 \<or> fst x = int n)"
  by (simp add: read_post_def case_prod_unfold)

lemma write_post_Some [simp]:
  "write_post n s (Some x) \<longleftrightarrow> cfg_step s (snd x) \<and> (fst x < 0 \<or> fst x = int n)"
  by (simp add: write_post_def case_prod_unfold)

lemma write_post_step: "cfg_step s s' \<Longrightarrow> write_post n s' x \<Longrightarrow> write_post n s x"
  by (auto simp: write_post_def split: option.splits intro: cfg_step_trans)

lemma read_post_step: "cfg_step s s' \<Longrightarrow> read_post n s' x \<Longrightarrow> read_post n s x"
  by (auto simp: read_post_def split: option.splits intro: cfg_step_trans)

lemma write_postD:
  assumes "write_post n s x"
  obtains ret s' where "x = Some (ret, s')" "cfg_step s s'" "ret < 0 \<or> ret = int n"
  using assms by (auto simp: write_post_def split: option.splits)

lemma read_postD:
  assumes "read_post n s x"
  obtains ret v s' where "x = Some (ret, v, s')" "cfg_step s s'" "ret < 0 \<or> ret = int n"
  using assms by (auto simp: read_post_def split: option.splits)

lemma default_read_post:
  assumes "user_cfg_law K" "pos + n \<le> length (vconfig s)" "offset + n \<le> length (pvirt perm)"
  shows "read_post n s (vfio_default_config_read K pos n perm offset val s)"
proof -
  obtain v w where "vload pos n s = Some v" "load (pvirt perm) offset n = Some w"
    using assms(2,3) vload_in load_ex by blast
  with user_read_rc [OF assms(1), of pos n s] show ?thesis
    by (auto simp: vfio_default_config_read_def case_prod_unfold Let_def cfg_step_user_read)
qed

lemma write_virtual_ex:
  assumes "pos + n \<le> length (vconfig s)"
  shows "\<exists>s'. write_virtual pos n m val s = Some s' \<and> cfg_step s s'"
proof -
  obtain v where "vload pos n s = Some v" using vload_in [OF assms] by blast
  with vstore_ex [OF assms] show ?thesis by (simp add: write_virtual_def)
qed

lemma write_physical_post:
  assumes "user_cfg_law K"
  shows "cfg_step s (snd (write_physical K pos n m val s)) \<and>
    (fst (write_physical K pos n m val s) < 0 \<or> fst (write_physical K pos n m val s) = int n)"
proof -
  obtain rc phys u where u: "vfio_user_config_read K pos n s = (rc, phys, u)" by (metis prod_cases3)
  obtain rc' u' where u': "vfio_user_config_write K pos ((phys AND NOT m) OR (val AND m)) n u = (rc', u')"
    by fastforce
  have "cfg_step s u" "rc \<le> 0"
    using cfg_step_user_read [of s K pos n] user_read_rc [OF assms, of pos n s] u by simp_all
  moreover from this(1) have "cfg_step s u'" "rc' \<le> 0"
    using cfg_step_trans [OF _ cfg_step_user_write] user_write_rc [OF assms] u' by (metis snd_conv, metis fst_conv)
  ultimately show ?thesis by (simp add: write_physical_def u u')
qed

lemma default_write_post:
  assumes law: "user_cfg_law K" and len: "pos + n \<le> length (vconfig s)"
    and perm: "offset + n \<le> length (pvirt perm)" "offset + n \<le> length (pwrite perm)"
  shows "write_post n s (vfio_default_config_write K pos n perm offset val s)"
proof -
  obtain virt wr where lw: "load (pvirt perm) offset n = Some virt" "load (pwrite perm) offset n = Some wr"
    using perm load_ex by meson
  obtain t where t: "write_virtual pos n (wr AND virt) val s = Some t" "cfg_step s t"
    using write_virtual_ex [OF len] by blast
  show ?thesis using t write_physical_post [OF law, of t pos n "wr AND NOT virt" val]
    by (auto simp: vfio_default_config_write_def lw intro: cfg_step_trans)
qed

lemma direct_mangle_defined:
  assumes "pos + n \<le> length (vconfig s)" "0 < n"
  shows "\<exists>v. direct_mangle pos n offset val s = Some v"
proof -
  have ld: "\<exists>v. vload pos k s = Some v" if "k \<le> n" for k using assms(1) that by (intro vload_in) simp
  obtain a b c where "vload pos n s = Some a" "vload pos 1 s = Some b"
    "vload pos (min PCI_CAP_FLAGS n) s = Some c"
    using ld [of n] ld [of 1] ld [of "min PCI_CAP_FLAGS n"] assms(2) by (auto simp: Suc_le_eq)
  then show ?thesis by (auto simp: direct_mangle_def Let_def min_def split: if_splits)
qed

lemma direct_read_post:
  assumes "user_cfg_law K" "pos + n \<le> length (vconfig s)" "0 < n"
  shows "read_post n s (vfio_direct_config_read K pos n perm offset val s)"
proof -
  obtain ret v t where r: "vfio_user_config_read K pos n s = (ret, v, t)" by (metis prod_cases3)
  from r cfg_step_user_read [of s K pos n] user_read_rc [OF assms(1), of pos n s]
  have t: "cfg_step s t" "ret \<le> 0" by simp_all
  then have "pos + n \<le> length (vconfig t)" using assms(2) by (simp add: cfg_step_def)
  then obtain w where "direct_mangle pos n offset v t = Some w"
    using direct_mangle_defined assms(3) by blast
  with r t show ?thesis by (auto simp: vfio_direct_config_read_def)
qed

lemma raw_read_post:
  "user_cfg_law K \<Longrightarrow> read_post n s (vfio_raw_config_read K pos n perm offset val s)"
  using user_read_rc [of K pos n s]
  by (auto simp: vfio_raw_config_read_def case_prod_unfold cfg_step_user_read)

lemma raw_write_post:
  "user_cfg_law K \<Longrightarrow> write_post n s (vfio_raw_config_write K pos n perm offset val s)"
  using user_write_rc [of K pos val n s]
  by (auto simp: vfio_raw_config_write_def case_prod_unfold cfg_step_user_write)

lemma virt_read_post:
  "pos + n \<le> length (vconfig s) \<Longrightarrow> read_post n s (vfio_virt_config_read K pos n perm offset val s)"
  using vload_in [of pos n s] by (auto simp: vfio_virt_config_read_def)

lemma virt_write_post:
  "pos + n \<le> length (vconfig s) \<Longrightarrow> write_post n s (vfio_virt_config_write K pos n perm offset val s)"
  using vstore_ex [of pos n s val] by (auto simp: vfio_virt_config_write_def)

section \<open>The header\<close>

lemma cfg_step_len: "cfg_step s s' \<Longrightarrow> length (vconfig s') = length (vconfig s)"
  by (simp add: cfg_step_def)

lemma bar_fixup_loop_post:
  assumes "44 \<le> length (vconfig s)"
  shows "\<exists>s'. bar_fixup_loop i s = Some s' \<and> cfg_step s s'"
  using assms
proof (induction "6 - i" arbitrary: i s rule: less_induct)
  case less
  show ?case
  proof (cases "5 < i")
    case True
    then show ?thesis by (simp add: bar_fixup_loop.simps)
  next
    case False
    define bar where "bar = PCI_BASE_ADDRESS_0 + 4 * i"
    have room: "bar + 8 \<le> length (vconfig s)" using False less.prems by (simp add: bar_def)
    have rec: "\<exists>s'. bar_fixup_loop j t = Some s' \<and> cfg_step s s'" if "cfg_step s t" "i < j" for j t
    proof -
      have "44 \<le> length (vconfig t)" using that(1) less.prems by (simp add: cfg_step_len)
      moreover have "6 - j < 6 - i" using that(2) False by auto
      ultimately obtain s' where "bar_fixup_loop j t = Some s'" "cfg_step t s'"
        using less.hyps [of j t] by blast
      with that(1) show ?thesis by (blast intro: cfg_step_trans)
    qed
    show ?thesis
    proof (cases "pci_resource_start (pdev s) i = 0")
      case True
      obtain t where "vstore bar 4 0 s = Some t" "cfg_step s t"
        using vstore_ex [of bar 4 s 0] room by auto
      with rec [of t "i + 1"] True False show ?thesis
        by (subst bar_fixup_loop.simps) (simp add: bar_def)
    next
      case mapped: False
      define mask where "mask = bar_mask (pdev s) i"
      obtain v where v: "vload bar 4 s = Some v" using vload_in [of bar 4 s] room by auto
      define x where "x = (v AND ucast mask) OR vfio_generate_bar_flags (pdev s) i"
      obtain t where t: "vstore bar 4 x s = Some t" "cfg_step s t"
        using vstore_ex [of bar 4 s x] room by auto
      obtain w where w: "vload (bar + 4) 4 t = Some w"
        using vload_in [of "bar + 4" 4 t] room cfg_step_len [OF t(2)] by auto
      obtain u where u: "vstore (bar + 4) 4 (w AND ucast (drop_bit 32 mask)) t = Some u" "cfg_step t u"
        using vstore_ex [of "bar + 4" 4 t "w AND ucast (drop_bit 32 mask)"] room cfg_step_len [OF t(2)] by auto
      have "bar_fixup_loop i s =
          (if x AND PCI_BASE_ADDRESS_MEM_TYPE_64 \<noteq> 0 then bar_fixup_loop (i + 2) u
           else bar_fixup_loop (i + 1) t)"
        using mapped False v t(1) w u(1)
        by (subst bar_fixup_loop.simps) (simp add: bar_def mask_def x_def Let_def)
      then show ?thesis
        using rec [OF t(2), of "i + 1"] rec [OF cfg_step_trans [OF t(2) u(2)], of "i + 2"] by auto
    qed
  qed
qed

lemma bar_fixup_post:
  assumes "64 \<le> length (vconfig s)"
  shows "\<exists>s'. vfio_bar_fixup s = Some s' \<and> cfg_step s s'"
proof -
  obtain t where t: "bar_fixup_loop PCI_STD_RESOURCES s = Some t" "cfg_step s t"
    using bar_fixup_loop_post [of s PCI_STD_RESOURCES] assms by auto
  then have len: "PCI_ROM_ADDRESS + 4 \<le> length (vconfig t)" using assms by (simp add: cfg_step_len)
  obtain v where v: "vload PCI_ROM_ADDRESS 4 t = Some v" using vload_in [OF len] by blast
  have st: "\<exists>u. vstore PCI_ROM_ADDRESS 4 x t = Some u \<and> cfg_step s (u\<lparr>bardirty := b\<rparr>)" for x b
    using vstore_ex [OF len, of x] t(2) cfg_step_fields(1) by (blast intro: cfg_step_trans)
  show ?thesis
    using st [of "v AND ucast (bar_mask (pdev t) PCI_ROM_RESOURCE OR PCI_ROM_ADDRESS_ENABLE)" False]
      st [of "v AND ucast (NOT (0x20000 - 1) OR PCI_ROM_ADDRESS_ENABLE)" False] st [of 0 False]
    by (auto simp: vfio_bar_fixup_def t(1) v)
qed

lemma bar_restore_loop_post:
  assumes "\<forall>i \<in> set is. i < length (rbar s)"
  shows "\<exists>s'. bar_restore_loop K is s = Some s' \<and> cfg_step s s'"
  using assms
proof (induction "is" arbitrary: s)
  case (Cons i "is")
  define t where "t = kcall_do K (Config (User_write_config 4 (PCI_BASE_ADDRESS_0 + 4 * i) (rbar s ! i))) s"
  have t: "cfg_step s t" by (simp add: t_def cfg_step_calls)
  obtain u where "bar_restore_loop K is t = Some u" "cfg_step t u"
    using Cons.IH [of t] Cons.prems t by (auto simp: cfg_step_def)
  with t Cons.prems show ?case by (auto simp: nth_opt_def t_def intro: cfg_step_trans)
qed simp

lemma bar_restore_post:
  assumes "length (rbar s) = 7"
  shows "\<exists>s'. vfio_bar_restore K s = Some s' \<and> cfg_step s s'"
proof -
  obtain t where t: "bar_restore_loop K [0..<6] s = Some t" "cfg_step s t"
    using bar_restore_loop_post [of "[0..<6]" s K] assms by auto
  define u where "u = kcall_do K (Config (User_write_config 4 PCI_ROM_ADDRESS (rbar t ! 6))) t"
  have u: "cfg_step s u" using cfg_step_trans [OF t(2)] by (simp add: u_def cfg_step_calls)
  define c where "c = Config (User_write_config 2 PCI_COMMAND (ucast
    ((ucast (snd (fst (kcall K (Config (User_read_config 2 PCI_COMMAND)) u))) :: u16) OR PCI_COMMAND_INTX_DISABLE)))"
  define w where "w = kcall_do K c (snd (kcall K (Config (User_read_config 2 PCI_COMMAND)) u))"
  have "cfg_step s w" unfolding w_def
    by (intro cfg_step_trans [OF u] cfg_step_trans [OF cfg_step_calls(3) cfg_step_calls(1)])
      (simp_all add: c_def)
  moreover have "length (rbar t) = 7" using assms t(2) by (simp add: cfg_step_def)
  then have "vfio_bar_restore K s = Some (if is_virtfn (pdev s) then s else if nointx u then w else u)"
    using t(1) by (simp add: vfio_bar_restore_def nth_opt_def u_def w_def c_def case_prod_unfold Let_def)
  ultimately show ?thesis using u by simp
qed

lemma need_bar_restore_loop_post:
  assumes "\<forall>i \<in> set is. i < length (rbar s)"
  shows "\<exists>b s'. need_bar_restore_loop K is s = Some (b, s') \<and> cfg_step s s'"
  using assms
proof (induction "is" arbitrary: s)
  case (Cons i "is")
  define t where "t = snd (kcall K (Config (User_read_config 4 (PCI_BASE_ADDRESS_0 + 4 * i))) s)"
  have t: "cfg_step s t" by (simp add: t_def cfg_step_calls)
  obtain b u where u: "need_bar_restore_loop K is t = Some (b, u)" "cfg_step t u"
    using Cons.IH [of t] Cons.prems t by (auto simp: cfg_step_def)
  obtain b' u' where u': "need_bar_restore_loop K is s = Some (b', u')" "cfg_step s u'"
    using Cons.IH [of s] Cons.prems by fastforce
  from u u' t Cons.prems show ?case
    by (auto simp: nth_opt_def t_def [symmetric] case_prod_unfold intro: cfg_step_trans)
qed fastforce

lemma need_bar_restore_post:
  "length (rbar s) = 7 \<Longrightarrow> \<exists>b s'. vfio_need_bar_restore K s = Some (b, s') \<and> cfg_step s s'"
  by (auto simp: vfio_need_bar_restore_def intro!: need_bar_restore_loop_post)

lemma basic_read_post:
  assumes "user_cfg_law K" "pos + n \<le> length (vconfig s)" "offset + n \<le> length (pvirt perm)"
    and len: "64 \<le> length (vconfig s)"
  shows "read_post n s (vfio_basic_config_read K pos n perm offset val s)"
proof -
  obtain t where t: "(if is_bar offset then vfio_bar_fixup s else Some s) = Some t" "cfg_step s t"
    using bar_fixup_post [OF len] by (cases "is_bar offset") auto
  obtain ret v u where u: "vfio_default_config_read K pos n perm offset val t = Some (ret, v, u)"
    "cfg_step t u" "ret < 0 \<or> ret = int n"
    by (rule read_postD [OF default_read_post [of K pos n t]])
      (use assms cfg_step_len [OF t(2)] in auto)
  obtain c where c: "vload PCI_COMMAND 2 u = Some c"
    using vload_in [of PCI_COMMAND 2 u] len cfg_step_len [OF t(2)] cfg_step_len [OF u(2)] by auto
  show ?thesis using t u c cfg_step_trans [OF t(2) u(2)]
    by (simp add: vfio_basic_config_read_def del: if_bool_eq_disj split del: if_split)
      (auto split: if_splits)
qed

text \<open>The interrupt functions that a write to the command register runs.\<close>

lemma intx_mask_cfg: "vfio_pci_intx_mask K s = Some s' \<Longrightarrow> cfg_step s s'"
  by (frule quiet_mask)
    (auto simp: cfg_step_def vfio_pci_intx_mask_def bind_eq_Some_conv Let_def split: if_splits)

lemma send_cfg: "vfio_send_intx_eventfd K s = Some s' \<Longrightarrow> cfg_step s s'"
  by (frule quiet_send)
    (auto simp: cfg_step_def vfio_send_intx_eventfd_def eventfd_signal_def bind_eq_Some_conv split: if_splits)

lemma unmask_handler_cfg: "vfio_pci_intx_unmask_handler K s = Some (r, s') \<Longrightarrow> cfg_step s s'"
  by (frule quiet_unmask_handler)
    (auto simp: cfg_step_def vfio_pci_intx_unmask_handler_def bind_eq_Some_conv Let_def
      case_prod_unfold split: if_splits)

lemma intx_unmask_cfg: "vfio_pci_intx_unmask K s = Some s' \<Longrightarrow> cfg_step s s'"
  by (auto simp: vfio_pci_intx_unmask_def bind_eq_Some_conv split: if_splits
      dest: unmask_handler_cfg send_cfg intro: cfg_step_trans)

lemma basic_write_command_post:
  assumes law: "user_cfg_law K" and len: "64 \<le> length (vconfig s)" "length (rbar s) = 7"
  shows "\<exists>err cmd s'. basic_write_command K val s = Some (err, cmd, s') \<and> cfg_step s s' \<and> err \<le> 0"
proof -
  obtain ret phys t where r: "kcall K (Config (User_read_config 2 PCI_COMMAND)) s = ((ret, phys), t)"
    by (metis prod.collapse)
  have t: "cfg_step s t" "ret \<le> 0"
    using cfg_step_calls(3) [of "Config (User_read_config 2 PCI_COMMAND)" s K] r
      user_cfg_lawD(1) [OF law, of "trace s" 2 PCI_COMMAND]
    by (auto simp: kcall_Pair)
  then have l: "64 \<le> length (vconfig t)" "length (rbar t) = 7" using len by (simp_all add: cfg_step_def)
  obtain virt where v: "vload PCI_COMMAND 2 t = Some virt" using vload_in [of PCI_COMMAND 2 t] l by auto
  obtain b u where u: "vfio_need_bar_restore K t = Some (b, u)" "cfg_step t u"
    using need_bar_restore_post [OF l(2)] by blast
  obtain w where w: "vfio_bar_restore K t = Some w" "cfg_step t w" using bar_restore_post [OF l(2)] by blast
  have "length (rbar u) = 7" using u(2) l(2) by (simp add: cfg_step_def)
  then obtain x where x: "vfio_bar_restore K u = Some x" "cfg_step u x" using bar_restore_post by blast
  have steps: "cfg_step s u" "cfg_step s w" "cfg_step s x"
    using t(1) u(2) w(2) x(2) by (blast intro: cfg_step_trans)+
  show ?thesis using t v u(1) w(1) x(1) steps
    by (simp add: basic_write_command_def r Let_def)
qed

lemma emulate_intx_disable_post:
  assumes len: "64 \<le> length (vconfig s)" and irq: "irq_inv s" "intx_armed s"
  shows "\<exists>s'. emulate_intx_disable K s = Some s' \<and> cfg_step s s'"
proof -
  obtain virt where v: "vload PCI_COMMAND 2 s = Some virt" using vload_in [of PCI_COMMAND 2 s] len by auto
  have fl: "cfg_step s (s\<lparr>virq_disabled := b\<rparr>)" for b by (rule cfg_step_fields)
  then have q: "irq_inv (s\<lparr>virq_disabled := b\<rparr>)" "intx_armed (s\<lparr>virq_disabled := b\<rparr>)" for b
    using irq by (auto simp: cfg_step_def intro: quiet_irq_inv quiet_intx_armed)
  obtain t u where "vfio_pci_intx_mask K (s\<lparr>virq_disabled := True\<rparr>) = Some t"
    "vfio_pci_intx_unmask K (s\<lparr>virq_disabled := False\<rparr>) = Some u"
    using mask_defined [OF q(1)] unmask_defined [OF q] by blast
  moreover from this have "cfg_step s t" "cfg_step s u"
    using fl by (blast intro: cfg_step_trans intx_mask_cfg intx_unmask_cfg)+
  ultimately show ?thesis using v by (simp add: emulate_intx_disable_def Let_def)
qed

lemma basic_write_post:
  assumes law: "user_cfg_law K" and len: "64 \<le> length (vconfig s)" "length (rbar s) = 7"
    and pos: "pos + n \<le> length (vconfig s)"
    and perm: "offset + n \<le> length (pvirt perm)" "offset + n \<le> length (pwrite perm)"
    and irq: "irq_inv s" "intx_armed s"
  shows "write_post n s (vfio_basic_config_write K pos n perm offset val s)"
proof -
  obtain err cmd t where t: "(if offset = PCI_COMMAND then basic_write_command K val s else Some (0, 0, s)) =
      Some (err, cmd, t)" "cfg_step s t" "err \<le> 0"
    using basic_write_command_post [OF law len, of val] by (cases "offset = PCI_COMMAND") auto
  have lt: "64 \<le> length (vconfig t)" "pos + n \<le> length (vconfig t)"
    using len pos cfg_step_len [OF t(2)] by simp_all
  obtain ret u where u: "vfio_default_config_write K pos n perm offset val t = Some (ret, u)"
    "cfg_step t u" "ret < 0 \<or> ret = int n"
    by (rule write_postD [OF default_write_post [OF law lt(2) perm]])
  have lu: "64 \<le> length (vconfig u)" using lt cfg_step_len [OF u(2)] by simp
  then obtain c where c: "vload PCI_COMMAND 2 u = Some c" using vload_in [of PCI_COMMAND 2 u] by auto
  define nc where "nc = (ucast (((ucast c :: u16) AND NOT (PCI_COMMAND_MEMORY OR PCI_COMMAND_IO)) OR
     (cmd AND (PCI_COMMAND_MEMORY OR PCI_COMMAND_IO))) :: u32)"
  obtain v where v: "(if offset = PCI_COMMAND then vstore PCI_COMMAND 2 nc u else Some u) = Some v"
    "cfg_step u v"
    using vstore_ex [of PCI_COMMAND 2 u nc] lu by (cases "offset = PCI_COMMAND") auto
  have sv: "cfg_step s v" using t(2) u(2) v(2) by (blast intro: cfg_step_trans)
  then have iv: "irq_inv v" "intx_armed v" "64 \<le> length (vconfig v)"
    using irq len(1) by (auto simp: cfg_step_def intro: quiet_irq_inv quiet_intx_armed)
  obtain w where w: "(if PCI_COMMAND \<le> offset \<and> offset \<le> PCI_COMMAND + 1 then emulate_intx_disable K v
      else Some v) = Some w" "cfg_step v w"
    using emulate_intx_disable_post [OF iv(3,1,2)] by (cases "PCI_COMMAND \<le> offset \<and> offset \<le> PCI_COMMAND + 1") auto
  have sw: "cfg_step s (if is_bar offset then w\<lparr>bardirty := True\<rparr> else w)"
    using cfg_step_trans [OF sv w(2)] cfg_step_fields(1) by (auto intro: cfg_step_trans)
  have su: "cfg_step s u" using t(2) u(2) by (rule cfg_step_trans)
  have "vfio_basic_config_write K pos n perm offset val s =
      (if err \<noteq> 0 then Some (err, t) else if ret < 0 then Some (ret, u)
       else Some (ret, if is_bar offset then w\<lparr>bardirty := True\<rparr> else w))"
  proof -
    consider "offset = PCI_COMMAND" | "offset = PCI_COMMAND + 1"
      | "offset \<noteq> PCI_COMMAND" "\<not> (PCI_COMMAND \<le> offset \<and> offset \<le> PCI_COMMAND + 1)" by linarith
    then show ?thesis
      by cases (use t(1) u(1) c v(1) w(1) in
        \<open>simp_all add: vfio_basic_config_write_def nc_def Let_def del: One_nat_def\<close>)
  qed
  then show ?thesis using t(2,3) u(3) su sw by (simp split del: if_split) auto
qed

section \<open>Capabilities\<close>

lemma cfg_step_then [simp]:
  assumes "cfg_step s t" "quiet_call c"
  shows "cfg_step s (kcall_do K c t)" "cfg_step s (snd (kcall_rc K c t))" "cfg_step s (snd (kcall K c t))"
  using assms by (blast intro: cfg_step_trans cfg_step_calls)+

lemma vload_then: "cfg_step s t \<Longrightarrow> p + n \<le> length (vconfig s) \<Longrightarrow> \<exists>v. vload p n t = Some v"
  using vload_in [of p n t] cfg_step_len by simp

lemma vstore_then:
  "cfg_step s t \<Longrightarrow> p + n \<le> length (vconfig s) \<Longrightarrow> \<exists>w. vstore p n x t = Some w \<and> cfg_step s w"
  using vstore_ex [of p n t x] cfg_step_len by (auto intro: cfg_step_trans)

text \<open>All of these run the default handler first; what follows starts from its state.\<close>

lemma after_default_write:
  assumes "user_cfg_law K" "pos + n \<le> length (vconfig s)"
    and "offset + n \<le> length (pvirt perm)" "offset + n \<le> length (pwrite perm)"
  obtains ret t where "vfio_default_config_write K pos n perm offset val s = Some (ret, t)"
    "cfg_step s t" "ret < 0 \<or> ret = int n" "length (vconfig t) = length (vconfig s)"
  using write_postD [OF default_write_post [OF assms]] cfg_step_len by metis

lemma pm_write_post:
  assumes "user_cfg_law K" "pos + n \<le> length (vconfig s)"
    and "offset + n \<le> length (pvirt perm)" "offset + n \<le> length (pwrite perm)"
  shows "write_post n s (vfio_pm_config_write K pos n perm offset val s)"
proof -
  obtain ret t where t: "vfio_default_config_write K pos n perm offset val s = Some (ret, t)"
    "cfg_step s t" "ret < 0 \<or> ret = int n" by (rule after_default_write [OF assms])
  then show ?thesis
    by (auto simp: vfio_pm_config_write_def)
qed

text \<open>The emulation of a capability's registers, which runs after the default write.\<close>

lemma vpd_transfer_post:
  assumes cap: "start + 8 \<le> length (vconfig s)"
  shows "\<exists>s'. vpd_transfer K start s = Some s' \<and> cfg_step s s'"
proof -
  have len: "start + 2 + 2 \<le> length (vconfig s)" "start + 4 + 4 \<le> length (vconfig s)" using cap by simp_all
  obtain a where a: "vload (start + 2) 2 s = Some a" using vload_in [OF len(1)] by blast
  obtain d where d: "vload (start + 4) 4 s = Some d" using vload_in [OF len(2)] by blast
  define addr where "addr = (ucast a :: u16)"
  define w where "w = kcall_rc K (Power (Write_vpd (addr AND NOT PCI_VPD_ADDR_F) d)) s"
  define r where "r = kcall K (Power (Read_vpd addr)) s"
  have sw: "cfg_step s (snd w)" and sr: "cfg_step s (snd r)" by (simp_all add: w_def r_def)
  obtain e where e: "vstore (start + 4) 4 (ucast (snd (fst r))) (snd r) = Some e" "cfg_step s e"
    using vstore_then [OF sr len(2)] by blast
  obtain fw where fw: "vstore (start + 2) 2 (ucast (addr XOR PCI_VPD_ADDR_F)) (snd w) = Some fw" "cfg_step s fw"
    using vstore_then [OF sw len(1)] by blast
  obtain fe where fe: "vstore (start + 2) 2 (ucast (addr XOR PCI_VPD_ADDR_F)) e = Some fe" "cfg_step s fe"
    using vstore_then [OF e(2) len(1)] by blast
  have "vpd_transfer K start s =
     (if addr AND PCI_VPD_ADDR_F \<noteq> 0 then (if fst w = 4 then Some fw else Some (snd w))
      else if fst (fst r) < 0 then Some (snd r) else Some fe)"
    using e(1) fw(1) fe(1) unfolding w_def r_def
    by (simp add: vpd_transfer_def a d addr_def [symmetric] case_prod_unfold Let_def
        del: add_2_eq_Suc add_2_eq_Suc')
  then show ?thesis using fw(2) fe(2) sw sr by (simp split del: if_split) auto
qed

lemma exp_flr_post:
  assumes cap: "start + 10 \<le> length (vconfig s)"
  shows "\<exists>s'. exp_flr K start s = Some s' \<and> cfg_step s s'"
proof -
  have len: "start + 8 + 2 \<le> length (vconfig s)" using cap by simp
  obtain c where c: "vload (start + 8) 2 s = Some c" using vload_in [OF len] by blast
  obtain f where f: "vstore (start + 8) 2 (ucast ((ucast c :: u16) AND NOT PCI_EXP_DEVCTL_BCR_FLR)) s = Some f" "cfg_step s f"
    using vstore_ex [OF len] by blast
  define g where "g = snd (kcall K (Config (User_read_config 4 (start + PCI_EXP_DEVCAP))) f)"
  have g: "cfg_step s g" "cfg_step s (kcall_do K (Power Try_reset_function) g)" using f(2) by (simp_all add: g_def)
  show ?thesis using c f(1) g by (simp add: exp_flr_def Let_def case_prod_unfold g_def)
qed

lemma exp_readrq_post:
  assumes cap: "start + 10 \<le> length (vconfig s)"
  shows "\<exists>s'. exp_readrq K start readrq s = Some s' \<and> cfg_step s s'"
proof -
  have len: "start + 8 + 2 \<le> length (vconfig s)" using cap by simp
  obtain c where c: "vload (start + 8) 2 s = Some c" using vload_in [OF len] by blast
  then show ?thesis by (simp add: exp_readrq_def Let_def case_prod_unfold)
qed

lemma af_flr_post:
  assumes cap: "start + 5 \<le> length (vconfig s)"
  shows "\<exists>s'. af_flr K start s = Some s' \<and> cfg_step s s'"
proof -
  have len: "start + 4 + 1 \<le> length (vconfig s)" using cap by simp
  obtain c where c: "vload (start + 4) 1 s = Some c" using vload_in [OF len] by blast
  obtain f where f: "vstore (start + 4) 1 (ucast ((ucast c :: u8) AND NOT PCI_AF_CTRL_FLR)) s = Some f" "cfg_step s f"
    using vstore_ex [OF len] by blast
  define g where "g = snd (kcall K (Config (User_read_config 1 (start + PCI_AF_CAP))) f)"
  have g: "cfg_step s g" "cfg_step s (kcall_do K (Power Try_reset_function) g)" using f(2) by (simp_all add: g_def)
  show ?thesis using c f(1) g by (simp add: af_flr_def Let_def case_prod_unfold g_def del: One_nat_def)
qed

lemma vpd_write_post:
  assumes law: "user_cfg_law K" "pos + n \<le> length (vconfig s)"
    and perm: "offset + n \<le> length (pvirt perm)" "offset + n \<le> length (pwrite perm)"
    and cap: "pos - offset + 8 \<le> length (vconfig s)"
  shows "write_post n s (vfio_vpd_config_write K pos n perm offset val s)"
proof -
  obtain ret t where t: "vfio_default_config_write K pos n perm offset val s = Some (ret, t)"
    "cfg_step s t" "ret < 0 \<or> ret = int n" "length (vconfig t) = length (vconfig s)"
    by (rule after_default_write [OF law perm])
  obtain u where u: "vpd_transfer K (pos - offset) t = Some u" "cfg_step t u"
    using vpd_transfer_post [of "pos - offset" t K] cap t(4) by auto
  have "vfio_vpd_config_write K pos n perm offset val s =
     (if ret < 0 \<or> PCI_VPD_ADDR + 1 < offset \<or> int offset + ret \<le> int (PCI_VPD_ADDR + 1) then Some (ret, t)
      else Some (ret, u))"
    by (simp add: vfio_vpd_config_write_def t(1) u(1))
  then show ?thesis using t(2,3) cfg_step_trans [OF t(2) u(2)] by (simp split del: if_split) auto
qed

lemma exp_write_post:
  assumes law: "user_cfg_law K" "pos + n \<le> length (vconfig s)"
    and perm: "offset + n \<le> length (pvirt perm)" "offset + n \<le> length (pwrite perm)"
    and cap: "pos - offset + 10 \<le> length (vconfig s)"
  shows "write_post n s (vfio_exp_config_write K pos n perm offset val s)"
proof -
  obtain ret t where t: "vfio_default_config_write K pos n perm offset val s = Some (ret, t)"
    "cfg_step s t" "ret < 0 \<or> ret = int n" "length (vconfig t) = length (vconfig s)"
    by (rule after_default_write [OF law perm])
  obtain c where c: "vload (pos - offset + 8) 2 s = Some c" using vload_in [of "pos - offset + 8" 2 s] cap by auto
  obtain u where u: "exp_flr K (pos - offset) t = Some u" "cfg_step t u"
    using exp_flr_post [of "pos - offset" t K] cap t(4) by auto
  obtain v where v: "exp_readrq K (pos - offset) ((ucast c :: u16) AND PCI_EXP_DEVCTL_READRQ) u = Some v" "cfg_step u v"
    using exp_readrq_post [of "pos - offset" u K "(ucast c :: u16) AND PCI_EXP_DEVCTL_READRQ"] cap t(4)
      cfg_step_len [OF u(2)] by auto
  have "vfio_exp_config_write K pos n perm offset val s = (if ret < 0 then Some (ret, t) else Some (ret, v))"
    by (simp add: vfio_exp_config_write_def Let_def c t(1) u(1) v(1))
  then show ?thesis using t(2,3) cfg_step_trans [OF t(2) cfg_step_trans [OF u(2) v(2)]]
    by (simp split del: if_split) auto
qed

lemma af_write_post:
  assumes law: "user_cfg_law K" "pos + n \<le> length (vconfig s)"
    and perm: "offset + n \<le> length (pvirt perm)" "offset + n \<le> length (pwrite perm)"
    and cap: "pos - offset + 5 \<le> length (vconfig s)"
  shows "write_post n s (vfio_af_config_write K pos n perm offset val s)"
proof -
  obtain ret t where t: "vfio_default_config_write K pos n perm offset val s = Some (ret, t)"
    "cfg_step s t" "ret < 0 \<or> ret = int n" "length (vconfig t) = length (vconfig s)"
    by (rule after_default_write [OF law perm])
  obtain u where u: "af_flr K (pos - offset) t = Some u" "cfg_step t u"
    using af_flr_post [of "pos - offset" t K] cap t(4) by auto
  have "vfio_af_config_write K pos n perm offset val s = (if ret < 0 then Some (ret, t) else Some (ret, u))"
    by (simp add: vfio_af_config_write_def t(1) u(1))
  then show ?thesis using t(2,3) cfg_step_trans [OF t(2) u(2)] by (simp split del: if_split) auto
qed

lemma find_cap_start_map:
  "pci_config_map t = pci_config_map s \<Longrightarrow> vfio_find_cap_start t pos = vfio_find_cap_start s pos"
  by (simp only: vfio_find_cap_start_def)

lemma find_cap_start_step: "cfg_step s t \<Longrightarrow> vfio_find_cap_start t pos = vfio_find_cap_start s pos"
  by (rule find_cap_start_map) (simp add: cfg_step_def)

lemma msi_read_post:
  assumes law: "user_cfg_law K" "pos + n \<le> length (vconfig s)" "offset + n \<le> length (pvirt perm)"
    and start: "vfio_find_cap_start s pos = Some st" "st + 4 \<le> length (vconfig s)"
  shows "read_post n s (vfio_msi_config_read K pos n perm offset val s)"
proof -
  have len: "st + 2 \<le> length (vconfig s)" using start(2) by simp
  obtain f where f: "vload st 2 s = Some f" using vload_in [OF len] by blast
  obtain t where t: "(if offset \<le> PCI_MSI_FLAGS \<and> PCI_MSI_FLAGS \<le> offset + n
      then vstore st 2 (ucast (((ucast f :: u16) AND NOT PCI_MSI_FLAGS_QMASK) OR push_bit 1 (ucast (msi_qmax s)))) s
      else Some s) = Some t" "cfg_step s t"
    using vstore_ex [OF len] by (cases "offset \<le> PCI_MSI_FLAGS \<and> PCI_MSI_FLAGS \<le> offset + n") auto
  have "read_post n t (vfio_default_config_read K pos n perm offset val t)"
    using law by (intro default_read_post) (simp_all add: cfg_step_len [OF t(2)])
  moreover have "vfio_msi_config_read K pos n perm offset val s = vfio_default_config_read K pos n perm offset val t"
    using t(1) by (auto simp: vfio_msi_config_read_def start(1) f Let_def split: if_splits)
  ultimately show ?thesis using read_post_step [OF t(2)] by simp
qed

lemma msi_flags_update_post:
  assumes law: "user_cfg_law K" and len: "st + 4 \<le> length (vconfig s)"
  shows "\<exists>rc s'. msi_flags_update K st s = Some (rc, s') \<and> cfg_step s s' \<and> rc \<le> 0"
proof -
  have len: "st + 2 + 2 \<le> length (vconfig s)" using len by simp
  obtain f where f: "vload (st + 2) 2 s = Some f" using vload_in [OF len] by blast
  define flags where "flags = (ucast (msi_flags_allowed s (ucast f)) :: u32)"
  obtain u where u: "vstore (st + 2) 2 flags s = Some u" "cfg_step s u"
    using vstore_ex [OF len] by blast
  define w where "w = kcall_rc K (Config (User_write_config 2 (st + 2) flags)) u"
  have "cfg_step s (snd w)" "fst w \<le> 0"
    using u(2) user_cfg_lawD(2) [OF law] by (simp_all add: w_def) (simp add: kcall_rc_Pair)
  moreover have "msi_flags_update K st s = Some w"
    using u(1) f by (simp add: msi_flags_update_def w_def flags_def Let_def del: add_2_eq_Suc add_2_eq_Suc')
  ultimately show ?thesis by (metis prod.collapse)
qed

lemma msi_write_post:
  assumes law: "user_cfg_law K" "pos + n \<le> length (vconfig s)"
    and perm: "offset + n \<le> length (pvirt perm)" "offset + n \<le> length (pwrite perm)"
    and start: "vfio_find_cap_start s pos = Some st" "st + 4 \<le> length (vconfig s)"
  shows "write_post n s (vfio_msi_config_write K pos n perm offset val s)"
proof -
  obtain ret t where t: "vfio_default_config_write K pos n perm offset val s = Some (ret, t)"
    "cfg_step s t" "ret < 0 \<or> ret = int n" "length (vconfig t) = length (vconfig s)"
    by (rule after_default_write [OF law perm])
  have st: "vfio_find_cap_start t pos = Some st" using start(1) find_cap_start_step [OF t(2)] by simp
  obtain rc u where u: "msi_flags_update K st t = Some (rc, u)" "cfg_step t u" "rc \<le> 0"
    using msi_flags_update_post [OF law(1), of st t] start(2) t(4) by auto
  have "vfio_msi_config_write K pos n perm offset val s =
     (if ret < 0 then Some (ret, t)
      else if offset \<le> PCI_MSI_FLAGS \<and> int PCI_MSI_FLAGS \<le> int offset + ret then
        Some (if rc \<noteq> 0 then rc else ret, u)
      else Some (ret, t))"
    by (simp add: vfio_msi_config_write_def t(1) st u(1))
  then show ?thesis using t(2,3) cfg_step_trans [OF t(2) u(2)] u(3) by (simp split del: if_split) auto
qed

section \<open>The map\<close>

lemma find_cap_loop_defined:
  "pos \<le> length m \<Longrightarrow> \<exists>q. find_cap_loop m base cap pos = Some q \<and> q \<le> pos"
proof (induction pos)
  case (Suc p)
  then have "nth_opt m p = Some (m ! p)" by (simp add: nth_opt_def)
  with Suc show ?case by fastforce
qed simp

lemma find_cap_loop_down:
  assumes "base \<le> p" "p + k \<le> length m" "\<forall>i < k. m ! (p + i) = cap"
  shows "find_cap_loop m base cap (p + k) = find_cap_loop m base cap p"
  using assms
proof (induction k)
  case (Suc k)
  then have "nth_opt m (p + k) = Some cap" by (simp add: nth_opt_def)
  with Suc show ?case by simp
qed simp

lemma find_cap_start_ex:
  assumes "pos < length (pci_config_map s)"
  shows "\<exists>q. vfio_find_cap_start s pos = Some q \<and> q \<le> pos"
  using find_cap_loop_defined [of pos "pci_config_map s"] assms
  by (auto simp: vfio_find_cap_start_def nth_opt_def Let_def)

text \<open>The number of bytes to the end of the dword that belong to the same capability.\<close>

lemma cap_remaining_loop_post:
  assumes "p \<le> length m" "length m mod 4 = 0"
  shows "\<exists>r. cap_remaining_loop m cap p = Some r \<and> p + r \<le> length m \<and>
    (p mod 4 \<noteq> 0 \<longrightarrow> p mod 4 + r \<le> 4) \<and> (p mod 4 = 0 \<longrightarrow> r = 0) \<and> (\<forall>i < r. m ! (p + i) = cap)"
  using assms
proof (induction m cap p rule: cap_remaining_loop.induct)
  case (1 m cap p)
  show ?case
  proof (cases "p mod 4 = 0")
    case True
    with 1 show ?thesis by (simp add: cap_remaining_loop.simps)
  next
    case False
    with "1.prems" have lt: "p < length m" by (metis le_neq_implies_less)
    then have get: "nth_opt m p = Some (m ! p)" by (simp add: nth_opt_def)
    show ?thesis
    proof (cases "m ! p = cap")
      case True
      obtain r where r: "cap_remaining_loop m cap (p + 1) = Some r" "p + 1 + r \<le> length m"
        "(p + 1) mod 4 \<noteq> 0 \<longrightarrow> (p + 1) mod 4 + r \<le> 4" "(p + 1) mod 4 = 0 \<longrightarrow> r = 0"
        "\<forall>i < r. m ! (p + 1 + i) = cap"
        using "1.IH" [OF False get True] lt "1.prems" by auto
      have "cap_remaining_loop m cap p = Some (Suc r)"
        using False get True r(1) by (subst cap_remaining_loop.simps) simp
      moreover have "p mod 4 + Suc r \<le> 4" using r(3,4) by (auto simp: mod_Suc split: if_splits)
      moreover have "m ! (p + i) = cap" if "i < Suc r" for i
        using that True r(5) by (cases i) auto
      ultimately show ?thesis using r(2) False by auto
    next
      case other: False
      with False get have "cap_remaining_loop m cap p = Some 0" by (subst cap_remaining_loop.simps) simp
      moreover have "p mod 4 + 0 \<le> 4" by simp
      ultimately show ?thesis using False lt by auto
    qed
  qed
qed

lemma cap_remaining_post:
  assumes "p < length (pci_config_map s)" "length (pci_config_map s) mod 4 = 0"
  shows "\<exists>r. vfio_pci_cap_remaining_dword s p = Some r \<and> 0 < r \<and> p mod 4 + r \<le> 4 \<and>
    p + r \<le> length (pci_config_map s) \<and>
    (\<forall>i < r. pci_config_map s ! (p + i) = pci_config_map s ! p)"
proof -
  let ?m = "pci_config_map s"
  obtain r where r: "cap_remaining_loop ?m (?m ! p) (p + 1) = Some r" "p + 1 + r \<le> length ?m"
    "(p + 1) mod 4 \<noteq> 0 \<longrightarrow> (p + 1) mod 4 + r \<le> 4" "(p + 1) mod 4 = 0 \<longrightarrow> r = 0"
    "\<forall>i < r. ?m ! (p + 1 + i) = ?m ! p"
    using cap_remaining_loop_post [of "p + 1" ?m "?m ! p"] assms by auto
  have "?m ! (p + i) = ?m ! p" if "i < Suc r" for i using that r(5) by (cases i) auto
  moreover have "p mod 4 + Suc r \<le> 4" using r(3,4) by (auto simp: mod_Suc split: if_splits)
  ultimately show ?thesis using assms(1) r(1,2)
    by (auto simp: vfio_pci_cap_remaining_dword_def nth_opt_def)
qed

section \<open>The invariant\<close>

definition read_tabled :: "perm_bits \<Rightarrow> bool" where
  "read_tabled perm \<longleftrightarrow>
     preadfn perm \<in> {Some Default_config_read, Some Basic_config_read, Some Msi_config_read}"

definition write_tabled :: "perm_bits \<Rightarrow> bool" where
  "write_tabled perm \<longleftrightarrow>
     pwritefn perm \<notin> {None, Some Raw_config_write, Some Virt_config_write}"

definition cap_reach :: "perm_bits \<Rightarrow> nat" where
  "cap_reach perm =
     (if pwritefn perm = Some Vpd_config_write then 8
      else if pwritefn perm = Some Exp_config_write then 10
      else if pwritefn perm = Some Af_config_write then 5
      else if pwritefn perm = Some Msi_config_write \<or> preadfn perm = Some Msi_config_read then 4
      else 0)"

text \<open>
  The permission table of a capability covers the offset, if its handlers use the table, and the
  registers that its write handler emulates are inside configuration space.
\<close>

definition perm_fits :: "perm_bits \<Rightarrow> nat \<Rightarrow> nat \<Rightarrow> nat \<Rightarrow> bool" where
  "perm_fits perm start p len \<longleftrightarrow>
     start \<le> p \<and>
     (read_tabled perm \<longrightarrow> p - start < length (pvirt perm)) \<and>
     (write_tabled perm \<longrightarrow> p - start < length (pvirt perm) \<and> p - start < length (pwrite perm)) \<and>
     start + cap_reach perm \<le> len"

definition caps_fit :: "perm_tables \<Rightarrow> vfio_pci_device \<Rightarrow> bool" where
  "caps_fit T s \<longleftrightarrow>
     (\<forall>p < cfg_size (pdev s). \<exists>perm start.
        config_perm T s p = Some (perm, start) \<and> perm_fits perm start p (cfg_size (pdev s)))"

definition config_sized :: "vfio_pci_device \<Rightarrow> bool" where
  "config_sized s \<longleftrightarrow>
     64 \<le> cfg_size (pdev s) \<and> cfg_size (pdev s) mod 4 = 0 \<and> cfg_size (pdev s) < 2 ^ 31 \<and>
     length (vconfig s) = cfg_size (pdev s) \<and> length (pci_config_map s) = cfg_size (pdev s) \<and>
     length (rbar s) = 7 \<and> (\<forall>p < 64. pci_config_map s ! p = 0)"

definition config_ok :: "perm_tables \<Rightarrow> vfio_pci_device \<Rightarrow> bool" where
  "config_ok T s \<longleftrightarrow> config_sized s \<and> caps_fit T s \<and> irq_ok s \<and> intx_armed s"

lemma config_perm_map:
  assumes "pci_config_map t = pci_config_map s" "msi_perm t = msi_perm s"
  shows "config_perm T t p = config_perm T s p"
  by (simp only: config_perm_def assms find_cap_start_map [OF assms(1)])

lemma caps_fit_map:
  assumes "pci_config_map t = pci_config_map s" "msi_perm t = msi_perm s" "pdev t = pdev s"
  shows "caps_fit T t = caps_fit T s"
  by (simp only: caps_fit_def config_perm_map [OF assms(1,2)] assms(3))

lemma config_ok_step:
  assumes "cfg_step s t" "config_ok T s"
  shows "config_ok T t"
proof -
  have "caps_fit T t = caps_fit T s" by (rule caps_fit_map) (use assms(1) in \<open>simp_all add: cfg_step_def\<close>)
  with assms show ?thesis
    by (auto simp: config_ok_def config_sized_def cfg_step_def intro: quiet_ok quiet_intx_armed)
qed

lemma config_perm_start:
  assumes "config_perm T s p = Some (perm, start)" "perm \<noteq> unassigned_perms" "perm \<noteq> virt_perms"
  shows "vfio_find_cap_start s p = Some start" and "p < length (pci_config_map s)"
    and "pci_config_map s ! p \<noteq> PCI_CAP_ID_INVALID" "pci_config_map s ! p \<noteq> PCI_CAP_ID_INVALID_VIRT"
  using assms
  by (auto simp: config_perm_def bind_eq_Some_conv nth_opt_Some vfio_find_cap_start_def Let_def
      word_neq_0_conv [symmetric] split: if_splits ptr.splits)

text \<open>A chunk stays in the capability it starts in, at the same table.\<close>

lemma config_perm_chunk:
  assumes sz: "config_sized s" and perm: "config_perm T s p = Some (perm, start)"
    and other: "perm \<noteq> unassigned_perms" "perm \<noteq> virt_perms"
    and same: "\<forall>i \<le> k. pci_config_map s ! (p + i) = pci_config_map s ! p"
    and bound: "p + k < cfg_size (pdev s)" "p mod 4 + k < 4"
  shows "config_perm T s (p + k) = Some (perm, start)"
proof -
  let ?m = "pci_config_map s"
  have len: "length ?m = cfg_size (pdev s)" using sz by (simp add: config_sized_def)
  have side: "256 \<le> p + k \<longleftrightarrow> 256 \<le> p" using bound(2) by presburger
  have "vfio_find_cap_start s (p + k) = vfio_find_cap_start s p"
  proof (cases "?m ! p = 0")
    case True
    with same bound len show ?thesis by (simp add: vfio_find_cap_start_def nth_opt_def)
  next
    case False
    then have "64 \<le> p" using sz by (auto simp: config_sized_def not_less [symmetric])
    with find_cap_loop_down [of _ p k ?m "?m ! p"] False same bound len side show ?thesis
      by (simp add: vfio_find_cap_start_def nth_opt_def)
  qed
  moreover have "nth_opt ?m (p + k) = Some (?m ! p)" "nth_opt ?m p = Some (?m ! p)"
    using same bound len by (simp_all add: nth_opt_def)
  moreover note config_perm_start(3,4) [OF perm other]
  ultimately have "config_perm T s (p + k) = config_perm T s p"
    by (simp add: config_perm_def side)
  then show ?thesis using perm by simp
qed

section \<open>Chunks\<close>

text \<open>What is known about the \<open>n\<close> bytes at \<open>p\<close> that a chunk covers.\<close>

definition chunk_at :: "perm_tables \<Rightarrow> vfio_pci_device \<Rightarrow> nat \<Rightarrow> nat \<Rightarrow> perm_bits \<Rightarrow> nat \<Rightarrow> bool" where
  "chunk_at T s p n perm start \<longleftrightarrow>
     config_perm T s p = Some (perm, start) \<and> 0 < n \<and> p + n \<le> cfg_size (pdev s) \<and> p mod 4 + n \<le> 4 \<and>
     (\<forall>i < n. pci_config_map s ! (p + i) = pci_config_map s ! p)"

lemma special_perms [simp]:
  "\<not> read_tabled unassigned_perms" "\<not> write_tabled unassigned_perms" "cap_reach unassigned_perms = 0"
  "\<not> read_tabled virt_perms" "\<not> write_tabled virt_perms" "cap_reach virt_perms = 0"
  by (simp_all add: read_tabled_def write_tabled_def cap_reach_def unassigned_perms_def virt_perms_def)

lemma chunk_fits:
  assumes ok: "config_ok T s" and chunk: "chunk_at T s p n perm start"
  shows "start \<le> p" and "read_tabled perm \<Longrightarrow> p - start + n \<le> length (pvirt perm)"
    and "write_tabled perm \<Longrightarrow> p - start + n \<le> length (pvirt perm) \<and> p - start + n \<le> length (pwrite perm)"
    and "start + cap_reach perm \<le> length (vconfig s)" and "p + n \<le> length (vconfig s)"
proof -
  have sz: "config_sized s" and fit: "caps_fit T s" using ok by (simp_all add: config_ok_def)
  have len: "length (vconfig s) = cfg_size (pdev s)" using sz by (simp add: config_sized_def)
  have "p < cfg_size (pdev s)" using chunk by (simp add: chunk_at_def)
  with fit obtain perm' start' where "config_perm T s p = Some (perm', start')"
    "perm_fits perm' start' p (cfg_size (pdev s))" by (auto simp: caps_fit_def)
  with chunk have f: "perm_fits perm start p (cfg_size (pdev s))" by (simp add: chunk_at_def)
  then show "start \<le> p" "start + cap_reach perm \<le> length (vconfig s)" by (simp_all add: perm_fits_def len)
  show "p + n \<le> length (vconfig s)" using chunk by (simp add: chunk_at_def len)
  have last: "perm_fits perm start (p + (n - 1)) (cfg_size (pdev s))"
    if "perm \<noteq> unassigned_perms" "perm \<noteq> virt_perms"
  proof -
    have "config_perm T s (p + (n - 1)) = Some (perm, start)"
      by (rule config_perm_chunk [OF sz _ that]) (use chunk in \<open>auto simp: chunk_at_def\<close>)
    moreover have "p + (n - 1) < cfg_size (pdev s)" using chunk unfolding chunk_at_def by linarith
    ultimately show ?thesis using fit by (fastforce simp: caps_fit_def)
  qed
  have n: "0 < n" using chunk by (simp add: chunk_at_def)
  show "read_tabled perm \<Longrightarrow> p - start + n \<le> length (pvirt perm)"
    using last f n by (cases "perm = unassigned_perms"; cases "perm = virt_perms")
      (auto simp: perm_fits_def)
  show "write_tabled perm \<Longrightarrow> p - start + n \<le> length (pvirt perm) \<and> p - start + n \<le> length (pwrite perm)"
    using last f n by (cases "perm = unassigned_perms"; cases "perm = virt_perms")
      (auto simp: perm_fits_def)
qed

lemma chunk_start:
  assumes "chunk_at T s p n perm start" "perm \<noteq> unassigned_perms" "perm \<noteq> virt_perms"
  shows "vfio_find_cap_start s p = Some start"
  by (rule config_perm_start(1) [where T = T, OF _ assms(2,3)]) (use assms(1) in \<open>simp add: chunk_at_def\<close>)

lemma call_readfn_post:
  assumes law: "user_cfg_law K" and ok: "config_ok T s" and chunk: "chunk_at T s p n perm start"
    and f: "preadfn perm = Some f"
  shows "read_post n s (call_readfn f K p n perm (p - start) val s)"
proof -
  note fits = chunk_fits [OF ok chunk]
  have n: "0 < n" using chunk by (simp add: chunk_at_def)
  have len: "64 \<le> length (vconfig s)" using ok by (simp add: config_ok_def config_sized_def)
  show ?thesis
  proof (cases f)
    case Default_config_read
    with f have "read_tabled perm" by (simp add: read_tabled_def)
    with Default_config_read show ?thesis using default_read_post [OF law fits(5) fits(2)] by simp
  next
    case Basic_config_read
    with f have "read_tabled perm" by (simp add: read_tabled_def)
    with Basic_config_read show ?thesis using basic_read_post [OF law fits(5) fits(2) len] by simp
  next
    case Msi_config_read
    with f have "read_tabled perm" "perm \<noteq> unassigned_perms" "perm \<noteq> virt_perms"
      by (auto simp: read_tabled_def unassigned_perms_def virt_perms_def)
    moreover have "start + 4 \<le> length (vconfig s)"
      using fits(4) Msi_config_read f by (simp add: cap_reach_def split: if_splits)
    ultimately show ?thesis
      using Msi_config_read msi_read_post [OF law fits(5) fits(2) chunk_start [OF chunk]] by simp
  qed (simp_all add: direct_read_post raw_read_post virt_read_post law fits n)
qed

lemma call_writefn_post:
  assumes law: "user_cfg_law K" and ok: "config_ok T s" and chunk: "chunk_at T s p n perm start"
    and f: "pwritefn perm = Some f"
  shows "write_post n s (call_writefn f K p n perm (p - start) val s)"
proof (cases "write_tabled perm")
  case False
  note fits = chunk_fits [OF ok chunk]
  from False f have "f = Raw_config_write \<or> f = Virt_config_write" by (auto simp: write_tabled_def)
  then show ?thesis by (auto simp: raw_write_post virt_write_post law fits)
next
  case True
  note fits = chunk_fits [OF ok chunk]
  note tab = fits(3) [OF True, THEN conjunct1] fits(3) [OF True, THEN conjunct2]
  have len: "64 \<le> length (vconfig s)" "length (rbar s) = 7" and irq: "irq_inv s" "intx_armed s"
    using ok by (simp_all add: config_ok_def config_sized_def irq_ok_def)
  have off: "p - (p - start) = start" using fits(1) by simp
  have other: "perm \<noteq> unassigned_perms" "perm \<noteq> virt_perms" using True by auto
  show ?thesis
  proof (cases f)
    case Default_config_write
    then show ?thesis using default_write_post [OF law fits(5) tab] by simp
  next
    case Basic_config_write
    then show ?thesis using basic_write_post [OF law len fits(5) tab irq] by simp
  next
    case Pm_config_write
    then show ?thesis using pm_write_post [OF law fits(5) tab] by simp
  next
    case Vpd_config_write
    with f fits(4) show ?thesis
      using vpd_write_post [OF law fits(5) tab] by (simp add: off cap_reach_def)
  next
    case Exp_config_write
    with f fits(4) show ?thesis
      using exp_write_post [OF law fits(5) tab] by (simp add: off cap_reach_def)
  next
    case Af_config_write
    with f fits(4) show ?thesis
      using af_write_post [OF law fits(5) tab] by (simp add: off cap_reach_def)
  next
    case Msi_config_write
    with f fits(4) have "start + 4 \<le> length (vconfig s)" by (simp add: cap_reach_def)
    with Msi_config_write show ?thesis
      using msi_write_post [OF law fits(5) tab chunk_start [OF chunk other]] by simp
  qed (use True f in \<open>auto simp: write_tabled_def\<close>)
qed

lemma config_ok_user_mem: "config_ok T (s\<lparr>user_mem := m\<rparr>) = config_ok T s"
proof -
  have "caps_fit T (s\<lparr>user_mem := m\<rparr>) = caps_fit T s" by (rule caps_fit_map) simp_all
  then show ?thesis
    by (simp add: config_ok_def config_sized_def irq_ok_def irq_inv_def balanced_def held_refs_def
        held_lines_def intx_armed_def split: irq_cookie.split)
qed

lemma copy_from_user_step: "cfg_step s (snd (snd (copy_from_user K buf n s)))"
  by (simp add: copy_from_user_def case_prod_unfold)

lemma copy_to_user_ok: "config_ok T s \<Longrightarrow> config_ok T (snd (copy_to_user K buf n v s))"
  by (auto simp: copy_to_user_def case_prod_unfold config_ok_user_mem intro: config_ok_step [rotated])

lemma copy_to_user_dev: "dev_step s t \<Longrightarrow> dev_step s (snd (copy_to_user K buf n v t))"
  using dev_step_trans [OF _ dev_step_cfg [OF cfg_step_calls(2) [of "Mem (Copy_to_user buf n)"]]]
  by (simp add: copy_to_user_def case_prod_unfold)

lemma chunk_at_step: "cfg_step s t \<Longrightarrow> chunk_at T t p n perm start = chunk_at T s p n perm start"
  using config_perm_map [of t s T p] by (simp add: chunk_at_def cfg_step_def)

text \<open>The chunk that \<^verbatim>\<open>vfio_config_do_rw\<close> makes of a request at a position inside configuration space.\<close>

lemma chunk_exists:
  assumes ok: "config_ok T s" and p: "p < cfg_size (pdev s)" and count: "0 < count"
  shows "\<exists>r perm start. vfio_pci_cap_remaining_dword s p = Some r \<and>
    config_perm T s p = Some (perm, start) \<and>
    chunk_at T s p (fill_size p (min count r)) perm start \<and> fill_size p (min count r) \<le> count"
proof -
  have sz: "config_sized s" and fit: "caps_fit T s" using ok by (simp_all add: config_ok_def)
  obtain r where r: "vfio_pci_cap_remaining_dword s p = Some r" "0 < r" "p mod 4 + r \<le> 4"
    "p + r \<le> cfg_size (pdev s)" "\<forall>i < r. pci_config_map s ! (p + i) = pci_config_map s ! p"
    using cap_remaining_post [of p s] sz p by (auto simp: config_sized_def)
  have "0 < min count r" using r(2) count by simp
  then have "fill_size p (min count r) \<le> min count r" "0 < fill_size p (min count r)"
    by (rule fill_size_pos(2), intro fill_size_pos(1))
  moreover from this have "fill_size p (min count r) \<le> r" "fill_size p (min count r) \<le> count" by simp_all
  moreover obtain perm start where "config_perm T s p = Some (perm, start)"
    using fit p by (auto simp: caps_fit_def)
  ultimately have "chunk_at T s p (fill_size p (min count r)) perm start" using r by (simp add: chunk_at_def)
  then show ?thesis using r(1) \<open>config_perm T s p = Some (perm, start)\<close>
      \<open>fill_size p (min count r) \<le> count\<close> by blast
qed

text \<open>A request is refused, or it becomes one chunk.\<close>

lemma do_rw_chunk:
  assumes ok: "config_ok T s" and count: "count \<noteq> 0"
  obtains (refused) "vfio_config_do_rw K T iswrite buf count pos s = Some (- EFAULT, s)"
  | (chunk) p n perm start where "vfio_config_do_rw K T iswrite buf count pos s = config_chunk K iswrite buf p n perm start s"
    "chunk_at T s p n perm start" "n \<in> {1, 2, 4}" "n \<le> unat count" "p = nat pos"
proof (cases "pos < 0 \<or> int (cfg_size (pdev s)) \<le> pos \<or>
    (word_of_nat (cfg_size (pdev s)) :: u64) < word_of_int pos + count")
  case True
  then show ?thesis by (intro refused) (simp add: vfio_config_do_rw_def Let_def)
next
  case False
  then have p: "nat pos < cfg_size (pdev s)" by (simp add: nat_less_iff)
  have "0 < unat count" using count by (simp add: unat_gt_0)
  then obtain r perm start where r: "vfio_pci_cap_remaining_dword s (nat pos) = Some r"
    "config_perm T s (nat pos) = Some (perm, start)"
    "chunk_at T s (nat pos) (fill_size (nat pos) (min (unat count) r)) perm start"
    "fill_size (nat pos) (min (unat count) r) \<le> unat count"
    using chunk_exists [OF ok p] by blast
  have "fill_size (nat pos) (min (unat count) r) \<in> {1, 2, 4}" by (simp add: fill_size_def)
  moreover have "vfio_config_do_rw K T iswrite buf count pos s =
      config_chunk K iswrite buf (nat pos) (fill_size (nat pos) (min (unat count) r)) perm start s"
    using False r(1,2) unfolding vfio_config_do_rw_def by (simp add: Let_def)
  ultimately show ?thesis using r(3,4) by (intro chunk) auto
qed

text \<open>The invariant after a chunk, and its progress.\<close>

lemma config_chunk_post:
  assumes law: "user_cfg_law K" and ok: "config_ok T s" and chunk: "chunk_at T s p n perm start"
  shows "\<exists>ret s'. config_chunk K iswrite buf p n perm start s = Some (ret, s') \<and> config_ok T s' \<and>
    dev_step s s' \<and> (ret < 0 \<or> ret = int n)"
proof (cases iswrite)
  case w: True
  show ?thesis
  proof (cases "pwritefn perm")
    case None
    with w ok show ?thesis by (simp add: config_chunk_def)
  next
    case (Some f)
    obtain rc val t where t: "copy_from_user K buf n s = (rc, val, t)" by (metis prod_cases3)
    then have st: "cfg_step s t" using copy_from_user_step [of s K buf n] by simp
    then have okt: "config_ok T t" and ct: "chunk_at T t p n perm start"
      using ok chunk by (simp_all add: config_ok_step chunk_at_step)
    obtain ret u where u: "call_writefn f K p n perm (p - start) val t = Some (ret, u)"
      "cfg_step t u" "ret < 0 \<or> ret = int n"
      by (rule write_postD [OF call_writefn_post [OF law okt ct Some]])
    with okt have "config_ok T u" by (simp add: config_ok_step)
    moreover have "dev_step s t" "dev_step s u" using st u(2) cfg_step_trans dev_step_cfg by blast+
    ultimately show ?thesis using w Some t u okt by (auto simp: config_chunk_def)
  qed
next
  case rd: False
  obtain ret v t where t: "(case preadfn perm of None \<Rightarrow> Some (int n, 0, s)
      | Some f \<Rightarrow> call_readfn f K p n perm (p - start) 0 s) = Some (ret, v, t)"
    "cfg_step s t" "ret < 0 \<or> ret = int n"
  proof (cases "preadfn perm")
    case None
    with that show ?thesis by simp
  next
    case (Some f)
    show ?thesis
      by (rule read_postD [OF call_readfn_post [OF law ok chunk Some, of 0]]) (use that Some in auto)
  qed
  obtain rc u where u: "copy_to_user K buf n v t = (rc, u)" by fastforce
  have "config_ok T t" using config_ok_step [OF t(2) ok] .
  moreover from this have "config_ok T u" using copy_to_user_ok [of T t K buf n v] u by simp
  moreover have "dev_step s t" using t(2) by (rule dev_step_cfg)
  moreover from this have "dev_step s u" using copy_to_user_dev [of s t K buf n v] u by simp
  ultimately show ?thesis using rd t(1,3) u by (auto simp: config_chunk_def)
qed

lemma do_rw_post:
  assumes law: "user_cfg_law K" and ok: "config_ok T s" and count: "count \<noteq> 0"
  shows "\<exists>ret s'. vfio_config_do_rw K T iswrite buf count pos s = Some (ret, s') \<and> config_ok T s' \<and> dev_step s s' \<and>
    (ret < 0 \<or> 0 < ret \<and> ret \<le> int (unat count))"
proof (cases rule: do_rw_chunk [OF ok count, of K iswrite buf pos])
  case 1
  with ok show ?thesis by simp
next
  case (2 p n perm start)
  then have "0 < n" by auto
  obtain ret s' where "config_chunk K iswrite buf p n perm start s = Some (ret, s')" "config_ok T s'"
    "dev_step s s'" "ret < 0 \<or> ret = int n"
    using config_chunk_post [OF law ok 2(2), of iswrite buf] by blast
  moreover have "int n \<le> int (unat count)" using 2(4) by (simp only: of_nat_le_iff)
  ultimately show ?thesis using 2(1) \<open>0 < n\<close> by auto
qed

interpretation config_chunks: chunk_client "vfio_config_do_rw K T iswrite" "\<lambda>s. user_cfg_law K \<and> config_ok T s"
  for K T iswrite
  by unfold_locales (use do_rw_post in blast)

text \<open>A whole access: it is total, and of the device it changes only what a step may change.\<close>

lemma config_rw_total:
  assumes law: "user_cfg_law K" and ok: "config_ok T s"
  shows "\<exists>r ppos' s'. vfio_pci_config_rw K T buf count ppos iswrite s = Some (r, ppos', s') \<and> config_ok T s' \<and>
    dev_step s s' \<and> (r < 0 \<and> ppos' = ppos \<or> r = int (unat count) \<and> ppos' = ppos + r)"
proof -
  obtain r s' where loop: "chunk_loop (vfio_config_do_rw K T iswrite) (unat count) buf count (ppos AND VFIO_PCI_OFFSET_MASK) 0 s
      = Some (r, s')" and post: "config_ok T s'" "r < 0 \<or> r = int 0 + int (unat count)"
    using config_chunks.loop_total [of K T s count "unat count" iswrite buf] assms by blast
  have keep: "dev_step s t'" if "user_cfg_law K \<and> config_ok T t" "dev_step s t" "count \<noteq> 0"
    "vfio_config_do_rw K T iswrite buf count pos t = Some (ret, t')" for buf count pos t ret t'
    using do_rw_post [of K T t count iswrite buf pos] that dev_step_trans [OF that(2)] by auto
  have "dev_step s s'"
    by (rule config_chunks.loop_keeps [where P = "dev_step s", OF keep _ _ loop]) (use assms in auto)
  with loop post show ?thesis by (auto simp: vfio_pci_config_rw_def)
qed

end
