(* ===== verification/Config_Bits.thy ===== *)
theory Config_Bits
  imports Config_Safe
begin

text \<open>
  What the default handlers do to each bit: a bit of the access is \<^emph>\<open>virtual\<close> or not, and writable or
  not, as the permission table says.
\<close>

definition virt_bit :: "perm_bits \<Rightarrow> nat \<Rightarrow> nat \<Rightarrow> bool" where
  "virt_bit perm offset j = bit (pvirt perm ! (offset + j div 8)) (j mod 8)"

definition write_bit :: "perm_bits \<Rightarrow> nat \<Rightarrow> nat \<Rightarrow> bool" where
  "write_bit perm offset j = bit (pwrite perm ! (offset + j div 8)) (j mod 8)"

lemma bit_load_virt: "load (pvirt perm) offset n = Some v \<Longrightarrow> bit v j \<longleftrightarrow> j < 32 \<and> j < 8 * n \<and> virt_bit perm offset j"
  by (simp add: bit_load virt_bit_def)

lemma bit_load_write: "load (pwrite perm) offset n = Some v \<Longrightarrow> bit v j \<longleftrightarrow> j < 32 \<and> j < 8 * n \<and> write_bit perm offset j"
  by (simp add: bit_load write_bit_def)

text \<open>The bits of the virtual space, numbered from the start of the access.\<close>

definition vbit :: "vfio_pci_device \<Rightarrow> nat \<Rightarrow> nat \<Rightarrow> bool" where
  "vbit s pos j = bit (vconfig s ! (pos + j div 8)) (j mod 8)"

lemma bit_vload: "vload pos n s = Some v \<Longrightarrow> bit v j \<longleftrightarrow> j < 32 \<and> j < 8 * n \<and> vbit s pos j"
  by (simp add: vload_def bit_load vbit_def)

lemma vbit_vstore:
  assumes st: "vstore p n v s = Some s'" and n: "n \<le> 4" and p: "pos + j div 8 < length (vconfig s)"
  shows "vbit s' pos j =
    (if p \<le> pos + j div 8 \<and> pos + j div 8 < p + n then bit v (8 * (pos + j div 8 - p) + j mod 8)
     else vbit s pos j)"
proof -
  obtain bs where bs: "store (vconfig s) p n v = Some bs" "s' = s\<lparr>vconfig := bs\<rparr>"
    using st by (auto simp: vstore_def)
  then show ?thesis using nth_store [OF bs(1) p]
    by (auto simp: vbit_def bit_nth_le_bytes)
qed

lemma vconfig_kcalls [simp]: "vbit (kcall_do K c s) = vbit s" "vbit (snd (kcall_rc K c s)) = vbit s"
    "vbit (snd (kcall K c s)) = vbit s"
  by (simp_all add: vbit_def fun_eq_iff)

lemma user_read_vbit [simp]: "vbit (snd (snd (vfio_user_config_read K off n s))) = vbit s"
  by (simp add: vfio_user_config_read_def case_prod_unfold)

lemma user_write_vbit [simp]: "vbit (snd (vfio_user_config_write K off v n s)) = vbit s"
  by (simp add: vfio_user_config_write_def)

lemma write_virtual_vbit:
  assumes run: "write_virtual pos n m val s = Some s'" and n: "n \<le> 4" and j: "j < 8 * n"
  shows "vbit s' pos j = (if bit m j then bit val j else vbit s pos j)"
proof (cases "m = 0")
  case True
  with run show ?thesis by (simp add: write_virtual_def)
next
  case False
  with run obtain v where v: "vload pos n s = Some v"
    and st: "vstore pos n ((v AND NOT m) OR (val AND m)) s = Some s'"
    by (auto simp: write_virtual_def bind_eq_Some_conv)
  have d: "j div 8 < n" using j by (simp add: div8_less)
  with v have "pos + j div 8 < length (vconfig s)" by (auto simp: vload_def dest: load_Some_bound)
  from vbit_vstore [OF st n this] d n j show ?thesis
    using bit_vload [OF v, of j] by (auto simp: bit_or_iff bit_and_iff bit_not_iff)
qed

text \<open>Outside of the access nothing changes.\<close>

lemma write_virtual_outside:
  assumes run: "write_virtual pos n m val s = Some s'" and i: "i < pos \<or> pos + n \<le> i" "i < length (vconfig s)"
  shows "vconfig s' ! i = vconfig s ! i"
  using assms nth_store_outside
  by (fastforce simp: write_virtual_def vstore_def bind_eq_Some_conv split: if_splits)

lemma write_physical_vconfig [simp]: "vconfig (snd (write_physical K pos n m val s)) = vconfig s"
  by (simp add: write_physical_def vfio_user_config_read_def vfio_user_config_write_def case_prod_unfold)

text \<open>
  What a physical write emits: nothing, or the read of the register and a write of the same register
  in which every bit outside \<open>m\<close> is the one just read.
\<close>

definition rmw_call :: "kernel \<Rightarrow> nat \<Rightarrow> nat \<Rightarrow> u32 \<Rightarrow> u32 \<Rightarrow> vfio_pci_device \<Rightarrow> kcall" where
  "rmw_call K pos n m val s =
     (let phys = fst (snd (vfio_user_config_read K pos n s)) in
      Config (User_write_config n pos (((phys AND NOT m) OR (val AND m)) AND low_mask n)))"

lemma write_physical_calls:
  assumes "n \<in> {1, 2, 4}"
  shows "extends s (snd (write_physical K pos n m val s)) \<and>
    calls s (snd (write_physical K pos n m val s)) =
     (if m = 0 then []
      else if fst (vfio_user_config_read K pos n s) \<noteq> 0 then [Config (User_read_config n pos)]
      else [Config (User_read_config n pos), rmw_call K pos n m val s])"
  using assms
  by (auto simp: write_physical_def vfio_user_config_read_def vfio_user_config_write_def case_prod_unfold
      rmw_call_def kcall_simps calls_def new_events_def Let_def extends_def)

lemma vconfig_vbit: "j < 8 \<Longrightarrow> vbit s (pos + k) j = vbit s pos (8 * k + j)"
  by (simp add: vbit_def)

lemma default_write_cases:
  assumes run: "vfio_default_config_write K pos n perm offset val s = Some (ret, s')"
  obtains (dropped) w where "load (pwrite perm) offset n = Some w" "w = 0" "s' = s" "ret = int n"
  | (wr) w v t where "load (pwrite perm) offset n = Some w" "load (pvirt perm) offset n = Some v"
    "write_virtual pos n (w AND v) val s = Some t"
    "(ret, s') = write_physical K pos n (w AND NOT v) val t"
  using run by (auto simp: vfio_default_config_write_def bind_eq_Some_conv split: if_splits)

lemma default_write_vbit:
  assumes run: "vfio_default_config_write K pos n perm offset val s = Some (ret, s')" and n: "n \<le> 4"
    and j: "j < 8 * n"
  shows "vbit s' pos j =
    (if write_bit perm offset j \<and> virt_bit perm offset j then bit val j else vbit s pos j)"
proof -
  have j32: "j < 32" using n j by simp
  from run show ?thesis
  proof (cases rule: default_write_cases)
    case (dropped w)
    then have "\<not> write_bit perm offset j" using bit_load_write [OF dropped(1), of j] j j32 by simp
    with dropped show ?thesis by simp
  next
    case (wr w v t)
    have "vbit s' = vbit t" using wr(4) by (simp add: vbit_def fun_eq_iff) (metis snd_conv write_physical_vconfig)
    moreover have "bit (w AND v) j \<longleftrightarrow> write_bit perm offset j \<and> virt_bit perm offset j"
      using bit_load_write [OF wr(1), of j] bit_load_virt [OF wr(2), of j] j j32
      by (auto simp: bit_and_iff)
    ultimately show ?thesis using write_virtual_vbit [OF wr(3) n j] by simp
  qed
qed

lemma default_write_outside:
  assumes run: "vfio_default_config_write K pos n perm offset val s = Some (ret, s')"
    and i: "i < pos \<or> pos + n \<le> i" "i < length (vconfig s)"
  shows "vconfig s' ! i = vconfig s ! i"
  using run
proof (cases rule: default_write_cases)
  case (wr w v t)
  then have "vconfig s' = vconfig t" by (metis snd_conv write_physical_vconfig)
  with write_virtual_outside [OF wr(3) i] show ?thesis by simp
qed simp

lemma write_virtual_trace: "write_virtual pos n m val s = Some s' \<Longrightarrow> trace s' = trace s"
  by (auto simp: write_virtual_def vstore_def bind_eq_Some_conv split: if_splits)

lemma calls_trace: "trace t = trace s \<Longrightarrow> calls t u = calls s u"
  by (simp add: calls_def new_events_def)

lemma extends_trace: "trace t = trace s \<Longrightarrow> extends t u = extends s u"
  by (simp add: extends_def)

text \<open>The physical mask of an access: the writable bits that are not virtual.\<close>

definition phys_mask :: "perm_bits \<Rightarrow> nat \<Rightarrow> nat \<Rightarrow> u32" where
  "phys_mask perm offset n =
     (case (load (pwrite perm) offset n, load (pvirt perm) offset n) of
        (Some w, Some v) \<Rightarrow> w AND NOT v | _ \<Rightarrow> 0)"

lemma bit_phys_mask:
  assumes "offset + n \<le> length (pwrite perm)" "offset + n \<le> length (pvirt perm)"
  shows "bit (phys_mask perm offset n) j \<longleftrightarrow>
    j < 32 \<and> j < 8 * n \<and> write_bit perm offset j \<and> \<not> virt_bit perm offset j"
proof -
  obtain w v where "load (pwrite perm) offset n = Some w" "load (pvirt perm) offset n = Some v"
    using assms load_ex by meson
  then show ?thesis using bit_load_write [of perm offset n w j] bit_load_virt [of perm offset n v j]
    by (auto simp: phys_mask_def bit_and_iff bit_not_iff)
qed

lemma default_write_calls:
  assumes run: "vfio_default_config_write K pos n perm offset val s = Some (ret, s')"
    and n: "n \<in> {1, 2, 4}"
  obtains t where "trace t = trace s" "extends s s'"
    "calls s s' =
     (if phys_mask perm offset n = 0 then []
      else if fst (vfio_user_config_read K pos n t) \<noteq> 0 then [Config (User_read_config n pos)]
      else [Config (User_read_config n pos), rmw_call K pos n (phys_mask perm offset n) val t])"
  using run
proof (cases rule: default_write_cases)
  case (dropped w)
  then have "phys_mask perm offset n = 0" by (simp add: phys_mask_def split: option.split)
  with dropped that [of s] show ?thesis by simp
next
  case (wr w v t)
  from wr(1,2) have m: "phys_mask perm offset n = w AND NOT v" by (simp add: phys_mask_def)
  have "s' = snd (write_physical K pos n (w AND NOT v) val t)" using wr(4) by (metis snd_conv)
  with write_physical_calls [OF n, of t K pos "w AND NOT v" val] that [of t] write_virtual_trace [OF wr(3)]
  show ?thesis by (simp add: m calls_trace [of t s] extends_trace [of t s])
qed

lemma default_read_bits:
  assumes run: "vfio_default_config_read K pos n perm offset val s = Some (ret, v, s')"
    and n: "n \<in> {1, 2, 4}" and ok: "0 \<le> ret" and law: "user_cfg_law K" and j: "j < 8 * n"
  shows "bit v j = (if virt_bit perm offset j then vbit s pos j
                    else bit (fst (snd (vfio_user_config_read K pos n s))) j)"
proof -
  have j32: "j < 32" using n j by auto
  from run obtain x w where x: "vload pos n s = Some x" and w: "load (pvirt perm) offset n = Some w"
    and body: "(if drop_bit (32 - n * 8) (- 1) \<noteq> w then
       (case vfio_user_config_read K pos n s of
          (ret, phys_val, s) \<Rightarrow>
            if ret \<noteq> 0 then Some (ret, copy_low val n x, s)
            else Some (int n, (phys_val AND NOT w) OR (copy_low val n x AND w), s))
     else Some (int n, copy_low val n x, s)) = Some (ret, v, s')"
    by (auto simp: vfio_default_config_read_def bind_eq_Some_conv Let_def)
  have bw: "bit w j = virt_bit perm offset j" using bit_load_virt [OF w, of j] j j32 by simp
  have bx: "bit (copy_low val n x) j = vbit s pos j"
    using bit_vload [OF x, of j] j j32 by (simp add: bit_copy_low)
  show ?thesis
  proof (cases "drop_bit (32 - n * 8) (- 1) = w")
    case True
    have "bit (drop_bit (32 - n * 8) (- 1) :: u32) j" using j n by (auto simp: bit_drop_bit_eq bit_mask_iff)
    with True bw body bx show ?thesis by simp
  next
    case False
    then show ?thesis using body bw bx ok user_read_rc [OF law, of pos n s] j32
      by (auto simp: case_prod_unfold bit_or_iff bit_and_iff bit_not_iff split: if_splits)
  qed
qed
end
