(* ===== verification/Config_Tables.thy ===== *)
theory Config_Tables
  imports Config_Perms
begin

text \<open>
  What the initialisation of the permission tables produces, byte by byte: the reference for which
  bits of configuration space a user may change and which are virtual.
\<close>

definition zero_table :: "nat \<Rightarrow> perm_bits" where
  "zero_table n = \<lparr>pvirt = replicate n 0, pwrite = replicate n 0,
     preadfn = Some Default_config_read, pwritefn = Some Default_config_write\<rparr>"

definition basic_table :: perm_bits where
  "basic_table =
    \<lparr>pvirt = [0xff, 0xff, 0xff, 0xff, 0, 0x04, 0x10, 0, 0, 0, 0, 0, 0, 0, 0, 0] @
       replicate 24 0xff @ [0, 0, 0, 0, 0, 0, 0, 0, 0xff, 0xff, 0xff, 0xff, 0xff, 0, 0, 0,
       0, 0, 0, 0, 0xff, 0xff, 0, 0],
     pwrite = [0, 0, 0, 0, 0xff, 0xff, 0, 0, 0, 0, 0, 0, 0xff, 0xff, 0, 0xff] @
       replicate 24 0xff @ [0, 0, 0, 0, 0, 0, 0, 0, 0xff, 0xff, 0xff, 0xff, 0, 0, 0, 0,
       0, 0, 0, 0, 0xff, 0, 0, 0],
     preadfn = Some Basic_config_read, pwritefn = Some Basic_config_write\<rparr>"

definition pm_table :: perm_bits where
  "pm_table = \<lparr>pvirt = [0, 0xff, 0, 0, 0, 0, 0, 0], pwrite = [0, 0, 0, 0, 0xfc, 0xff, 0xff, 0xff],
     preadfn = Some Default_config_read, pwritefn = Some Pm_config_write\<rparr>"

definition vpd_table :: perm_bits where
  "vpd_table = \<lparr>pvirt = [0, 0xff, 0xff, 0xff, 0xff, 0xff, 0xff, 0xff],
     pwrite = [0, 0, 0xff, 0xff, 0xff, 0xff, 0xff, 0xff],
     preadfn = Some Default_config_read, pwritefn = Some Vpd_config_write\<rparr>"

definition pcix_table :: perm_bits where
  "pcix_table = \<lparr>pvirt = [0, 0xff] @ replicate 22 0,
     pwrite = [0, 0, 0xff, 0xff, 0, 0, 0, 0, 0xff, 0xff, 0xff, 0xff] @ replicate 12 0,
     preadfn = Some Default_config_read, pwritefn = Some Default_config_write\<rparr>"

definition exp_table :: perm_bits where
  "exp_table = \<lparr>pvirt = [0, 0xff, 0, 0, 0, 0, 0, 0, 0xe0, 0xf0] @ replicate 42 0,
     pwrite = replicate 8 0 @ [0xff, 0xfd] @ replicate 30 0 @ [0xdf, 0xff] @ replicate 10 0,
     preadfn = Some Default_config_read, pwritefn = Some Exp_config_write\<rparr>"

definition af_table :: perm_bits where
  "af_table = \<lparr>pvirt = [0, 0xff, 0, 0, 1, 0, 0, 0], pwrite = [0, 0, 0, 0, 1, 0, 0, 0],
     preadfn = Some Default_config_read, pwritefn = Some Af_config_write\<rparr>"

definition err_table :: perm_bits where
  "err_table = \<lparr>pvirt = [0xff, 0xff, 0xff, 0xff] @ replicate 40 0,
     pwrite = [0, 0, 0, 0, 0x31, 0xf0, 0xff, 0x03, 0x31, 0xf0, 0xff, 0x03, 0x31, 0xf0, 0xff, 0x03,
       0xc1, 0xf1, 0, 0, 0xc1, 0xf1, 0, 0, 0x40, 0x01] @ replicate 18 0,
     preadfn = Some Default_config_read, pwritefn = Some Default_config_write\<rparr>"

definition pwr_table :: perm_bits where
  "pwr_table = \<lparr>pvirt = [0xff, 0xff, 0xff, 0xff] @ replicate 12 0,
     pwrite = replicate 8 0 @ [0xff] @ replicate 7 0,
     preadfn = Some Default_config_read, pwritefn = Some Default_config_write\<rparr>"

definition raw_write_perm :: perm_bits where
  "raw_write_perm = direct_perm\<lparr>pwritefn := Some Raw_config_write\<rparr>"

definition ready_tables :: perm_tables where
  "ready_tables =
    \<lparr>cap_perms = (replicate (PCI_CAP_ID_MAX + 1) direct_perm)
       [0 := basic_table, PCI_CAP_ID_PM := pm_table, PCI_CAP_ID_VPD := vpd_table,
        PCI_CAP_ID_PCIX := pcix_table, PCI_CAP_ID_VNDR := raw_write_perm,
        PCI_CAP_ID_EXP := exp_table, PCI_CAP_ID_AF := af_table],
     ecap_perms = (replicate (PCI_EXT_CAP_ID_MAX + 1) direct_perm)
       [PCI_EXT_CAP_ID_ERR := err_table, PCI_EXT_CAP_ID_PWR := pwr_table,
        PCI_EXT_CAP_ID_VNDR := raw_write_perm]\<rparr>"

text \<open>The settings of each capability, applied to a zeroed table of the allocated length.\<close>

lemma entries_tables:
  "cap_basic_entries (zero_table 64) = Some basic_table"
  "cap_pm_entries (zero_table 8) = Some pm_table"
  "cap_vpd_entries (zero_table 8) = Some vpd_table"
  "cap_pcix_entries (zero_table 24) = Some pcix_table"
  "cap_exp_entries (zero_table 52) = Some exp_table"
  "cap_af_entries (zero_table 8) = Some af_table"
  "ext_cap_err_entries (zero_table 44) = Some err_table"
  "ext_cap_pwr_entries (zero_table 16) = Some pwr_table"
  by code_simp+

section \<open>Running the initialisation\<close>

lemma round_up_lengths [simp]:
  "round_up PCI_STD_HEADER_SIZEOF 4 = 64" "round_up (pci_cap_length ! PCI_CAP_ID_PM) 4 = 8"
  "round_up (pci_cap_length ! PCI_CAP_ID_VPD) 4 = 8" "round_up PCI_CAP_PCIX_SIZEOF_V2 4 = 24"
  "round_up PCI_CAP_EXP_ENDPOINT_SIZEOF_V2 4 = 52" "round_up (pci_cap_length ! PCI_CAP_ID_AF) 4 = 8"
  "round_up (pci_ext_cap_length ! PCI_EXT_CAP_ID_ERR) 4 = 44"
  "round_up (pci_ext_cap_length ! PCI_EXT_CAP_ID_PWR) 4 = 16"
  by (simp_all add: round_up_def pci_cap_length_def pci_ext_cap_length_def)

text \<open>A kernel on which no allocation fails.\<close>

definition alloc_succeeds :: "kernel \<Rightarrow> bool" where
  "alloc_succeeds K \<longleftrightarrow> (\<forall>h. fst (respond K h (Mem Alloc)) \<noteq> 0)"

definition perm_result :: "kernel \<Rightarrow> perm_bits \<Rightarrow> int \<Rightarrow> perm_bits \<Rightarrow> bool" where
  "perm_result K t r p \<longleftrightarrow>
     (r = 0 \<and> p = t \<or> r = - ENOMEM \<and> p = free_perm_bits direct_perm) \<and> (alloc_succeeds K \<longrightarrow> r = 0)"

lemma init_perm_ex:
  assumes "entries (zero_table (round_up len 4)) = Some t"
  shows "\<exists>r p s'. init_perm K direct_perm len entries s = Some (r, p, s') \<and> perm_result K t r p"
proof -
  have "direct_perm\<lparr>pvirt := replicate (round_up len 4) 0, pwrite := replicate (round_up len 4) 0,
      preadfn := Some Default_config_read, pwritefn := Some Default_config_write\<rparr> =
      zero_table (round_up len 4)"
    by (simp add: direct_perm_def zero_table_def)
  with assms show ?thesis
    by (auto simp: init_perm_def alloc_perm_bits_def perm_result_def alloc_succeeds_def Let_def
        case_prod_unfold kcall_rc_Pair)
qed

lemma init_perms_ex:
  fixes s :: "'a kstate_scheme"
  shows
  "\<exists>r p s'. init_pci_cap_basic_perm K direct_perm s = Some (r, p, s') \<and> perm_result K basic_table r p"
  "\<exists>r p s'. init_pci_cap_pm_perm K direct_perm s = Some (r, p, s') \<and> perm_result K pm_table r p"
  "\<exists>r p s'. init_pci_cap_vpd_perm K direct_perm s = Some (r, p, s') \<and> perm_result K vpd_table r p"
  "\<exists>r p s'. init_pci_cap_pcix_perm K direct_perm s = Some (r, p, s') \<and> perm_result K pcix_table r p"
  "\<exists>r p s'. init_pci_cap_exp_perm K direct_perm s = Some (r, p, s') \<and> perm_result K exp_table r p"
  "\<exists>r p s'. init_pci_cap_af_perm K direct_perm s = Some (r, p, s') \<and> perm_result K af_table r p"
  "\<exists>r p s'. init_pci_ext_cap_err_perm K direct_perm s = Some (r, p, s') \<and> perm_result K err_table r p"
  "\<exists>r p s'. init_pci_ext_cap_pwr_perm K direct_perm s = Some (r, p, s') \<and> perm_result K pwr_table r p"
  unfolding init_pci_cap_basic_perm_def init_pci_cap_pm_perm_def init_pci_cap_vpd_perm_def
    init_pci_cap_pcix_perm_def init_pci_cap_exp_perm_def init_pci_cap_af_perm_def
    init_pci_ext_cap_err_perm_def init_pci_ext_cap_pwr_perm_def
  by (rule init_perm_ex; simp only: round_up_lengths entries_tables)+

text \<open>The entries that stay without a table of their own after a failed initialisation.\<close>

definition freed :: "perm_bits \<Rightarrow> bool" where
  "freed p \<longleftrightarrow> pvirt p = [] \<and> pwrite p = []"

lemma init_perm_bits_cases:
  fixes s :: "'a kstate_scheme"
  shows "\<exists>r T s'. vfio_pci_init_perm_bits K initial_tables s = Some (r, T, s') \<and>
     (r = 0 \<and> T = ready_tables \<or> r \<noteq> 0 \<and> list_all freed (cap_perms T) \<and> list_all freed (ecap_perms T)) \<and>
     (alloc_succeeds K \<longrightarrow> r = 0)"
proof -
  obtain r0 p0 s0 where 0: "init_pci_cap_basic_perm K direct_perm s = Some (r0, p0, s0)"
    "perm_result K basic_table r0 p0" using init_perms_ex(1) by blast
  obtain r1 p1 s1 where 1: "init_pci_cap_pm_perm K direct_perm s0 = Some (r1, p1, s1)"
    "perm_result K pm_table r1 p1" using init_perms_ex(2) by blast
  obtain r2 p2 s2 where 2: "init_pci_cap_vpd_perm K direct_perm s1 = Some (r2, p2, s2)"
    "perm_result K vpd_table r2 p2" using init_perms_ex(3) by blast
  obtain r3 p3 s3 where 3: "init_pci_cap_pcix_perm K direct_perm s2 = Some (r3, p3, s3)"
    "perm_result K pcix_table r3 p3" using init_perms_ex(4) by blast
  obtain r4 p4 s4 where 4: "init_pci_cap_exp_perm K direct_perm s3 = Some (r4, p4, s4)"
    "perm_result K exp_table r4 p4" using init_perms_ex(5) by blast
  obtain r5 p5 s5 where 5: "init_pci_cap_af_perm K direct_perm s4 = Some (r5, p5, s5)"
    "perm_result K af_table r5 p5" using init_perms_ex(6) by blast
  obtain r6 p6 s6 where 6: "init_pci_ext_cap_err_perm K direct_perm s5 = Some (r6, p6, s6)"
    "perm_result K err_table r6 p6" using init_perms_ex(7) by blast
  obtain r7 p7 s7 where 7: "init_pci_ext_cap_pwr_perm K direct_perm s6 = Some (r7, p7, s7)"
    "perm_result K pwr_table r7 p7" using init_perms_ex(8) by blast
  define T where "T = initial_tables\<lparr>
     cap_perms := (cap_perms initial_tables)[0 := p0, PCI_CAP_ID_PM := p1, PCI_CAP_ID_VPD := p2,
       PCI_CAP_ID_PCIX := p3, PCI_CAP_ID_VNDR := raw_write_perm, PCI_CAP_ID_EXP := p4, PCI_CAP_ID_AF := p5],
     ecap_perms := (ecap_perms initial_tables)[PCI_EXT_CAP_ID_ERR := p6, PCI_EXT_CAP_ID_PWR := p7,
       PCI_EXT_CAP_ID_VNDR := raw_write_perm]\<rparr>"
  define ret where "ret = (r0 OR r1 OR r2 OR r3 OR r4 OR r5 OR r6 OR r7)"
  have run: "vfio_pci_init_perm_bits K initial_tables s =
      Some (ret, if ret \<noteq> 0 then vfio_pci_uninit_perm_bits T else T, s7)"
    using 0 1 2 3 4 5 6 7 unfolding vfio_pci_init_perm_bits_def
    by (simp add: cap_upd_def ecap_upd_def initial_tables_def T_def ret_def raw_write_perm_def)
  have ok: "alloc_succeeds K \<longrightarrow> ret = 0" using 0 1 2 3 4 5 6 7 by (simp add: perm_result_def ret_def)
  show ?thesis
  proof (cases "ret = 0")
    case True
    then have "r0 = 0" "r1 = 0" "r2 = 0" "r3 = 0" "r4 = 0" "r5 = 0" "r6 = 0" "r7 = 0"
      by (simp_all add: ret_def or_eq_0_iff)
    then have "T = ready_tables" using 0 1 2 3 4 5 6 7
      by (simp add: T_def ready_tables_def initial_tables_def perm_result_def)
    with run True show ?thesis by auto
  next
    case False
    have "list_all freed (cap_perms (vfio_pci_uninit_perm_bits T)) \<and>
        list_all freed (ecap_perms (vfio_pci_uninit_perm_bits T))"
      by (simp add: T_def vfio_pci_uninit_perm_bits_def cap_upd_def ecap_upd_def initial_tables_def
          freed_def free_perm_bits_def direct_perm_def raw_write_perm_def list_all_length nth_list_update Let_def)
    with run False ok show ?thesis by auto
  qed
qed

end
