(* ===== verification/Config_Layout.thy ===== *)
theory Config_Layout
  imports Config_Safe Config_Tables
begin

text \<open>
  The map of configuration space as a layout: a list of capabilities, each with its position, its identifier
  and the bytes the map gives it. The layouts of this theory are those in which every table of permission
  bits is long enough for the capabilities it governs, so that a device whose map has such a layout meets the
  precondition of the user's accesses.
\<close>

type_synonym extent = "nat \<times> u8 \<times> nat"

text \<open>The capabilities with a permission table of their own; one table serves all capabilities of that kind.\<close>

definition tabled :: "nat \<Rightarrow> u8 \<Rightarrow> bool" where
  "tabled q i \<longleftrightarrow> (if q < PCI_CFG_SPACE_SIZE then unat i \<in> {PCI_CAP_ID_PM, PCI_CAP_ID_VPD, PCI_CAP_ID_MSI,
       PCI_CAP_ID_PCIX, PCI_CAP_ID_EXP, PCI_CAP_ID_AF}
     else unat i \<in> {PCI_EXT_CAP_ID_ERR, PCI_EXT_CAP_ID_PWR})"

text \<open>Two capabilities are apart: they share no byte, and no table if they are in the same list.\<close>

fun apart :: "extent \<Rightarrow> extent \<Rightarrow> bool" where
  "apart (q, i, l) (q', i', l') \<longleftrightarrow>
     (q + l \<le> q' \<or> q' + l' \<le> q) \<and>
     (i = i' \<longrightarrow> tabled q i \<longrightarrow> (q < PCI_CFG_SPACE_SIZE) \<noteq> (q' < PCI_CFG_SPACE_SIZE))"

lemma apart_sym: "apart a b \<Longrightarrow> apart b a"
  by (cases a; cases b) (auto simp: tabled_def split: if_splits)

lemma apart_shrink: "apart a (q, i, r) \<Longrightarrow> l \<le> r \<Longrightarrow> apart a (q, i, l)"
  by (cases a) auto

lemma sorted_wrt_members:
  assumes "sorted_wrt P xs" "\<And>x y. P x y \<Longrightarrow> P y x" "a \<in> set xs" "b \<in> set xs"
  shows "a = b \<or> P a b"
  using assms(1,3,4) by (induction xs) (auto dest: assms(2))

text \<open>The map \<open>m\<close> gives the bytes of each extent to its capability, and no other byte to any.\<close>

definition mapped :: "extent list \<Rightarrow> u8 list \<Rightarrow> bool" where
  "mapped A m \<longleftrightarrow>
     sorted_wrt apart A \<and>
     (\<forall>p < 64. m ! p = 0) \<and>
     (\<forall>p. 64 \<le> p \<longrightarrow> p < length m \<longrightarrow>
        m ! p = PCI_CAP_ID_INVALID \<or> (\<exists>(q, i, l) \<in> set A. q \<le> p \<and> p < q + l \<and> m ! p = i)) \<and>
     (\<forall>(q, i, l) \<in> set A. 64 \<le> q \<and> q + l \<le> length m \<and> (q < PCI_CFG_SPACE_SIZE \<longrightarrow> q + l \<le> PCI_CFG_SPACE_SIZE) \<and>
        (\<forall>k < l. m ! (q + k) = i))"

lemma mapped_extent:
  assumes "mapped A m" "(q, i, l) \<in> set A"
  shows "64 \<le> q" "q + l \<le> length m" "q < PCI_CFG_SPACE_SIZE \<Longrightarrow> q + l \<le> PCI_CFG_SPACE_SIZE"
    and "k < l \<Longrightarrow> m ! (q + k) = i"
  using assms unfolding mapped_def by fast+

lemma mapped_byte:
  assumes "mapped A m" "64 \<le> p" "p < length m" "m ! p \<noteq> PCI_CAP_ID_INVALID"
  obtains q i l where "(q, i, l) \<in> set A" "q \<le> p" "p < q + l" "m ! p = i"
  using assms unfolding mapped_def by blast

lemma mapped_fill:
  assumes "mapped A m" "fill m q l i = Some m'" "64 \<le> q" "\<forall>a \<in> set A. apart (q, i, l) a"
    and "q < PCI_CFG_SPACE_SIZE \<longrightarrow> q + l \<le> PCI_CFG_SPACE_SIZE"
  shows "mapped ((q, i, l) # A) m'"
proof -
  have byte: "m' ! p = (if q \<le> p \<and> p < q + l then i else m ! p)" if "p < length m" for p
    using nth_fill [OF assms(2) that] .
  have len: "length m' = length m" "q + l \<le> length m"
    using length_fill [OF assms(2)] assms(2) by (auto simp: fill_def split: if_splits)
  have other: "m' ! (r + k) = j" if "(r, j, n) \<in> set A" "k < n" for r j n k
  proof -
    have "apart (q, i, l) (r, j, n)" using assms(4) that(1) by blast
    then have "\<not> (q \<le> r + k \<and> r + k < q + l)" using that(2) by auto
    moreover have "r + k < length m" using mapped_extent(2) [OF assms(1) that(1)] that(2) by linarith
    ultimately show ?thesis using byte mapped_extent(4) [OF assms(1) that] by auto
  qed
  have low: "m' ! p = 0" if "p < 64" for p
  proof (cases "p < length m")
    case True
    with byte that assms(1,3) show ?thesis by (simp add: mapped_def)
  next
    case False
    with len assms(3) that have "m' = m" using assms(2) by (auto simp: fill_def split: if_splits)
    with that assms(1) show ?thesis by (simp add: mapped_def)
  qed
  have "m' ! p = PCI_CAP_ID_INVALID \<or> (\<exists>(r, j, n) \<in> set ((q, i, l) # A). r \<le> p \<and> p < r + n \<and> m' ! p = j)"
    if "64 \<le> p" "p < length m'" for p
  proof (cases "q \<le> p \<and> p < q + l")
    case True
    with byte that len show ?thesis by auto
  next
    case False
    with byte that len have "m' ! p = m ! p" by auto
    with assms(1) that len show ?thesis unfolding mapped_def by fastforce
  qed
  with assms(1,3-5) low other byte len show ?thesis
    unfolding mapped_def by (auto dest: mapped_extent(1-3) [OF assms(1)])
qed

section \<open>The start of a capability\<close>

lemma tabled_start:
  assumes "mapped A (pci_config_map s)" "(q, i, l) \<in> set A" "tabled q i" "q \<le> p" "p < q + l"
  shows "vfio_find_cap_start s p = Some q"
proof -
  let ?m = "pci_config_map s"
  define base :: nat where "base = (if PCI_CFG_SPACE_SIZE \<le> p then PCI_CFG_SPACE_SIZE else PCI_STD_HEADER_SIZEOF)"
  have q: "64 \<le> q" "q + l \<le> length ?m" "\<And>k. k < l \<Longrightarrow> ?m ! (q + k) = i" "q < 256 \<longrightarrow> q + l \<le> 256"
    using mapped_extent [OF assms(1,2)] by auto
  have base: "base \<le> q" "q < 256 \<longleftrightarrow> p < 256" using assms(4,5) q(1,4) by (auto simp: base_def)
  have i: "i \<noteq> 0" "i \<noteq> PCI_CAP_ID_INVALID" using assms(3) by (auto simp: tabled_def split: if_splits)
  have at: "?m ! p = i" using q(3) [of "p - q"] assms(4,5) by simp
  have down: "find_cap_loop ?m base i p = find_cap_loop ?m base i q"
    using find_cap_loop_down [of base q "p - q" ?m i] base(1) q assms(4,5) by simp
  have stop: "find_cap_loop ?m base i q = Some q"
  proof (cases "q = base")
    case True
    then show ?thesis using q(1) by (cases q) auto
  next
    case False
    then obtain r where r: "q = Suc r" "base \<le> r" using base(1) by (cases q) auto
    have "?m ! r \<noteq> i"
    proof
      assume same: "?m ! r = i"
      have "64 \<le> r" using r(2) by (simp add: base_def split: if_splits)
      moreover have "r < length ?m" using q(2) r(1) assms(4,5) by linarith
      ultimately obtain q' l' where e: "(q', i, l') \<in> set A" "q' \<le> r" "r < q' + l'"
        using mapped_byte [OF assms(1), of r] same i(2) by metis
      have "(q, i, l) = (q', i, l') \<or> apart (q, i, l) (q', i, l')"
        using sorted_wrt_members [of apart A] apart_sym assms(1,2) e(1) unfolding mapped_def by blast
      moreover have "(q < 256) = (q' < 256)"
        using mapped_extent(3) [OF assms(1) e(1)] e(2,3) r base(2) by (auto simp: base_def split: if_splits)
      ultimately show False using assms(3) e(2) r(1) by auto
    qed
    moreover have "nth_opt ?m r = Some (?m ! r)" using q(2) r(1) assms(4,5) by (simp add: nth_opt_def)
    ultimately show ?thesis using r by simp
  qed
  have "nth_opt ?m p = Some i" using at q(2) assms(4,5) by (simp add: nth_opt_def)
  then show ?thesis using i(1) down stop by (simp add: vfio_find_cap_start_def base_def Let_def)
qed

section \<open>Tables that are long enough\<close>

text \<open>The condition of \<open>caps_fit\<close> at one position, as a computation.\<close>

definition fits_check :: "perm_tables \<Rightarrow> vfio_pci_device \<Rightarrow> nat \<Rightarrow> bool" where
  "fits_check T s p =
     (case config_perm T s p of None \<Rightarrow> False
      | Some (perm, start) \<Rightarrow> perm_fits perm start p (cfg_size (pdev s)))"

lemma fits_check_Some:
  "fits_check T s p \<longleftrightarrow>
     (\<exists>perm start. config_perm T s p = Some (perm, start) \<and> perm_fits perm start p (cfg_size (pdev s)))"
  by (cases "config_perm T s p") (auto simp: fits_check_def)

lemma caps_fit_check: "caps_fit T s \<longleftrightarrow> (\<forall>p < cfg_size (pdev s). fits_check T s p)"
  by (simp only: caps_fit_def fits_check_Some)

lemma fits_header:
  assumes "p < 64" "nth_opt (pci_config_map s) p = Some 0" "64 \<le> cfg_size (pdev s)"
  shows "fits_check ready_tables s p"
  using assms
  by (simp add: fits_check_def config_perm_def perm_fits_def ready_tables_def basic_table_def nth_opt_def
      cap_reach_def)

lemma fits_unassigned:
  "nth_opt (pci_config_map s) p = Some PCI_CAP_ID_INVALID \<Longrightarrow> p < cfg_size (pdev s) \<Longrightarrow> fits_check T s p"
  by (simp add: fits_check_def config_perm_def perm_fits_def)

definition table_of :: "vfio_pci_device \<Rightarrow> nat \<Rightarrow> u8 \<Rightarrow> perm_bits" where
  "table_of s q i =
     (if PCI_CFG_SPACE_SIZE \<le> q then ecap_perms ready_tables ! unat i
      else if unat i = PCI_CAP_ID_MSI then (case msi_perm s of Ptr t \<Rightarrow> t | _ \<Rightarrow> direct_perm)
      else cap_perms ready_tables ! unat i)"

text \<open>
  An extent the driver can serve: its identifier is in the range of the tables, its own table, if it has one,
  is as long as the extent, and the registers the write handler emulates are inside the extent.
\<close>

fun served :: "vfio_pci_device \<Rightarrow> extent \<Rightarrow> bool" where
  "served s (q, i, l) \<longleftrightarrow>
     (if q < PCI_CFG_SPACE_SIZE then 0 < unat i \<and> unat i \<le> PCI_CAP_ID_MAX else unat i \<le> PCI_EXT_CAP_ID_MAX) \<and>
     (q < PCI_CFG_SPACE_SIZE \<and> unat i = PCI_CAP_ID_MSI \<longrightarrow> (\<exists>t. msi_perm s = Ptr t)) \<and>
     (tabled q i \<longrightarrow> l \<le> length (pvirt (table_of s q i)) \<and> l \<le> length (pwrite (table_of s q i)) \<and>
        cap_reach (table_of s q i) \<le> l)"

lemma untabled:
  assumes "\<not> tabled q i" "if q < PCI_CFG_SPACE_SIZE then 0 < unat i \<and> unat i \<le> PCI_CAP_ID_MAX else unat i \<le> PCI_EXT_CAP_ID_MAX"
  shows "\<not> read_tabled (table_of s q i) \<and> \<not> write_tabled (table_of s q i) \<and> cap_reach (table_of s q i) = 0"
proof -
  have "table_of s q i \<in> {direct_perm, raw_write_perm}"
    using assms by (auto simp: table_of_def tabled_def ready_tables_def nth_list_update split: if_splits)
  then show ?thesis
    by (auto simp: read_tabled_def write_tabled_def cap_reach_def direct_perm_def raw_write_perm_def)
qed

lemma config_perm_extent:
  assumes "mapped A (pci_config_map s)" "(q, i, l) \<in> set A" "q \<le> p" "p < q + l" "served s (q, i, l)"
  shows "\<exists>start. config_perm ready_tables s p = Some (table_of s q i, start) \<and> start \<le> p \<and> (tabled q i \<longrightarrow> start = q)"
proof -
  let ?m = "pci_config_map s"
  have q: "q + l \<le> length ?m" "?m ! p = i" "(p < 256) = (q < 256)"
    using mapped_extent [OF assms(1,2)] mapped_extent(4) [OF assms(1,2), of "p - q"] assms(3,4) by auto
  have at: "nth_opt ?m p = Some i" using q assms(4) by (simp add: nth_opt_def)
  obtain start where start: "vfio_find_cap_start s p = Some start" "start \<le> p"
    using find_cap_start_ex [of p s] q(1) assms(4) by auto
  have head: "tabled q i \<longrightarrow> start = q"
    using tabled_start [OF assms(1,2)] assms(3,4) start(1) by auto
  have range: "if q < 256 then 0 < unat i \<and> unat i \<le> PCI_CAP_ID_MAX else unat i \<le> PCI_EXT_CAP_ID_MAX"
    and msi: "q < 256 \<Longrightarrow> unat i = PCI_CAP_ID_MSI \<Longrightarrow> \<exists>t. msi_perm s = Ptr t"
    using assms(5) by simp_all
  have valid: "i \<noteq> PCI_CAP_ID_INVALID" "i \<noteq> PCI_CAP_ID_INVALID_VIRT" using range by (auto split: if_splits)
  show ?thesis
  proof (cases "q < 256")
    case True
    then have "0 < i" "unat i < length (cap_perms ready_tables)"
      using range by (auto simp: word_greater_zero_iff ready_tables_def)
    with True start head at valid msi q(3) show ?thesis
      by (auto simp: config_perm_def table_of_def nth_opt_def)
  next
    case False
    then have "unat i < length (ecap_perms ready_tables)" using range by (simp add: ready_tables_def)
    with False start head at valid q(3) show ?thesis by (auto simp: config_perm_def table_of_def nth_opt_def)
  qed
qed

lemma layout_caps_fit:
  assumes map: "mapped A (pci_config_map s)" and served: "\<forall>a \<in> set A. served s a"
    and len: "length (pci_config_map s) = cfg_size (pdev s)" "64 \<le> cfg_size (pdev s)"
  shows "caps_fit ready_tables s"
  unfolding caps_fit_check
proof (intro allI impI)
  fix p assume p: "p < cfg_size (pdev s)"
  consider "p < 64" | "64 \<le> p" "pci_config_map s ! p = PCI_CAP_ID_INVALID"
    | q i l where "(q, i, l) \<in> set A" "q \<le> p" "p < q + l"
    using mapped_byte [OF map, of p] p len(1) by (metis not_le)
  then show "fits_check ready_tables s p"
  proof cases
    case 1
    with map p len show ?thesis by (intro fits_header) (auto simp: mapped_def nth_opt_def)
  next
    case 2
    with p len show ?thesis by (intro fits_unassigned) (auto simp: nth_opt_def)
  next
    case (3 q i l)
    have srv: "served s (q, i, l)" using served 3(1) by blast
    obtain start where c: "config_perm ready_tables s p = Some (table_of s q i, start)" "start \<le> p"
      "tabled q i \<longrightarrow> start = q" using config_perm_extent [OF map 3 srv] by blast
    have "perm_fits (table_of s q i) start p (cfg_size (pdev s))"
    proof (cases "tabled q i")
      case True
      with srv c 3 mapped_extent(2) [OF map 3(1)] len(1) show ?thesis by (auto simp: perm_fits_def)
    next
      case False
      with untabled [OF False, of s] srv c p show ?thesis by (simp add: perm_fits_def)
    qed
    with c(1) show ?thesis by (simp add: fits_check_def)
  qed
qed

end
