(* ===== verification/Config_Sample.thy ===== *)
theory Config_Sample
  imports Config_Layout Samples
begin

text \<open>
  The sample device with its virtual configuration space in place: the header, power management at
  0x40, vital product data at 0x48, advanced features at 0x50.
\<close>

definition sample_map :: "u8 list" where
  "sample_map = replicate 64 0 @ replicate 8 1 @ replicate 8 3 @ replicate 6 0x13 @ replicate 170 0xff"

definition sample_vconfig :: "u8 list" where
  "sample_vconfig = [0xde, 0x10, 0x80, 0x1b, 0x06, 0, 0x10, 0] @ replicate 8 0 @
     [0, 0, 0, 0xf0] @ replicate 32 0 @ [0x40, 0, 0, 0, 0, 0, 0, 0, 11, 1, 0, 0] @
     [0x01, 0x48, 0x03, 0, 0x08, 0, 0, 0] @ [0x03, 0x50, 0, 0, 0, 0, 0, 0] @
     [0x13, 0, 0x06, 0x03, 0, 0] @ replicate 170 0"

definition sample_config_device :: vfio_pci_device where
  "sample_config_device = sample_device\<lparr>pci_config_map := sample_map, vconfig := sample_vconfig,
     rbar := [0xf0000000, 0, 0, 0, 0, 0, 0]\<rparr>"

lemma sample_caps_check: "list_all (fits_check ready_tables sample_config_device) [64..<86]"
  by code_simp

lemma sample_config_fields:
  "pci_config_map sample_config_device = sample_map" "vconfig sample_config_device = sample_vconfig"
  "cfg_size (pdev sample_config_device) = 256" "length sample_map = 256" "length sample_vconfig = 256"
  by (simp_all add: sample_config_device_def sample_device_def sample_pdev_def sample_map_def sample_vconfig_def)

lemma sample_caps_fit: "caps_fit ready_tables sample_config_device"
  unfolding caps_fit_check
proof (intro allI impI)
  fix p assume "p < cfg_size (pdev sample_config_device)"
  then have p: "p < 256" by (simp add: sample_config_fields)
  consider "p < 64" | "64 \<le> p" "p < 86" | "86 \<le> p" by linarith
  then show "fits_check ready_tables sample_config_device p"
  proof cases
    case 1
    then show ?thesis
      by (intro fits_header) (simp_all add: sample_config_fields nth_opt_def sample_map_def nth_append)
  next
    case 2
    then have "p \<in> set [64..<86]" by (simp only: set_upt atLeastLessThan_iff simp_thms)
    with sample_caps_check show ?thesis by (simp only: list_all_iff)
  next
    case 3
    with p show ?thesis
      by (intro fits_unassigned) (auto simp: sample_config_fields nth_opt_def sample_map_def nth_append)
  qed
qed

lemma sample_config_ok: "config_ok ready_tables sample_config_device"
proof -
  have "irq_ok sample_config_device" "intx_armed sample_config_device"
    by (simp_all add: irq_ok_def irq_inv_def balanced_def sample_config_device_def sample_device_def
        refs_def lines_def held_refs_def held_lines_def intx_armed_def split: irq_cookie.splits)
  moreover have "config_sized sample_config_device"
    by (simp add: config_sized_def sample_config_fields sample_map_def nth_append)
      (simp add: sample_config_device_def)
  ultimately show ?thesis using sample_caps_fit by (simp add: config_ok_def)
qed
end
