(* ===== verification/Config_Isolation.thy ===== *)
theory Config_Isolation
  imports Config_Bits Config_Sample
begin

text \<open>
  No access of a user reaches the BARs of the device. \<open>bar_safe\<close> is the property of a call shown here: it does not write a byte
  of a BAR register, or it is the restoration of a whole BAR with the value saved when the device was
  opened.
\<close>

lemma emits_ctx_upd [simp]: "emits P s (ctx_upd i f t) = emits P s t"
  by (rule emits_cong) simp

definition saved_bar :: "u32 list \<Rightarrow> nat \<Rightarrow> u32 \<Rightarrow> bool" where
  "saved_bar rb off v \<longleftrightarrow>
     (\<exists>k < 6. off = PCI_BASE_ADDRESS_0 + 4 * k \<and> v = rb ! k) \<or> off = PCI_ROM_ADDRESS \<and> v = rb ! 6"

definition no_bar :: "nat \<Rightarrow> nat \<Rightarrow> bool" where
  "no_bar off n \<longleftrightarrow> (\<forall>i. off \<le> i \<longrightarrow> i < off + n \<longrightarrow> \<not> is_bar i)"

fun bar_safe :: "u32 list \<Rightarrow> kcall \<Rightarrow> bool" where
  "bar_safe rb (Config (User_write_config n off v)) = (no_bar off n \<or> n = 4 \<and> saved_bar rb off v)"
| "bar_safe rb (Config (Write_config n off v)) = (no_bar off n \<or> n = 4 \<and> saved_bar rb off v)"
| "bar_safe rb c = True"

lemma no_bar_high: "64 \<le> off \<Longrightarrow> no_bar off n"
  by (auto simp: no_bar_def is_bar_def)

lemma no_bar_command [simp]: "no_bar PCI_COMMAND 2"
  by (auto simp: no_bar_def is_bar_def)

section \<open>Handlers\<close>

lemma user_read_emits: "emits (bar_safe rb) s (snd (snd (vfio_user_config_read K off n s)))"
  by (simp add: vfio_user_config_read_def case_prod_unfold)

lemma user_write_emits: "no_bar off n \<Longrightarrow> emits (bar_safe rb) s (snd (vfio_user_config_write K off v n s))"
  by (simp add: vfio_user_config_write_def)

lemma default_write_emits:
  assumes run: "vfio_default_config_write K pos n perm offset val s = Some (ret, s')"
    and n: "n \<in> {1, 2, 4}" and safe: "phys_mask perm offset n = 0 \<or> no_bar pos n"
  shows "emits (bar_safe rb) s s'"
proof -
  obtain t where t: "extends s s'"
    "calls s s' = (if phys_mask perm offset n = 0 then []
      else if fst (vfio_user_config_read K pos n t) \<noteq> 0 then [Config (User_read_config n pos)]
      else [Config (User_read_config n pos), rmw_call K pos n (phys_mask perm offset n) val t])"
    by (rule default_write_calls [OF run n])
  with safe show ?thesis by (auto simp: emits_def rmw_call_def Let_def split: if_splits)
qed

lemma default_read_emits:
  "vfio_default_config_read K pos n perm offset val s = Some (ret, v, s') \<Longrightarrow> emits (bar_safe rb) s s'"
  using user_read_emits [of rb s K pos n]
  by (auto simp: vfio_default_config_read_def bind_eq_Some_conv Let_def case_prod_unfold split: if_splits)

lemma direct_read_emits:
  "vfio_direct_config_read K pos n perm offset val s = Some (ret, v, s') \<Longrightarrow> emits (bar_safe rb) s s'"
  using user_read_emits [of rb s K pos n]
  by (auto simp: vfio_direct_config_read_def bind_eq_Some_conv case_prod_unfold split: if_splits)

lemma vstore_trace: "vstore p n v s = Some s' \<Longrightarrow> trace s' = trace s"
  by (auto simp: vstore_def)

lemma bar_fixup_loop_trace: "bar_fixup_loop i s = Some s' \<Longrightarrow> trace s' = trace s"
proof (induction "6 - i" arbitrary: i s rule: less_induct)
  case less
  show ?case
  proof (cases "i < 6")
    case False
    with less.prems show ?thesis by (simp add: bar_fixup_loop.simps)
  next
    case True
    have rec: "trace s' = trace t" if "bar_fixup_loop j t = Some s'" "i < j" for j t
      using less.hyps [of j t] that True by (simp add: diff_less_mono2)
    have step: "trace s' = trace s" if "bar_fixup_loop j t = Some s'" "i < j" "trace t = trace s" for j t
      using rec [OF that(1,2)] that(3) by simp
    from less.prems [unfolded bar_fixup_loop.simps [of i s]] True show ?thesis
      by (auto simp: bind_eq_Some_conv Let_def dest!: vstore_trace intro: step split: if_splits)
  qed
qed

lemma bar_fixup_trace: "vfio_bar_fixup s = Some s' \<Longrightarrow> trace s' = trace s"
  by (auto simp: vfio_bar_fixup_def bind_eq_Some_conv dest!: bar_fixup_loop_trace vstore_trace
      split: if_splits)

lemma basic_read_emits:
  assumes "vfio_basic_config_read K pos n perm offset val s = Some (ret, v, s')"
  shows "emits (bar_safe rb) s s'"
proof -
  from assms obtain t r w where t: "(if is_bar offset then vfio_bar_fixup s else Some s) = Some t"
    and "vfio_default_config_read K pos n perm offset val t = Some (r, w, s')"
    by (auto simp: vfio_basic_config_read_def bind_eq_Some_conv split: if_splits)
  moreover have "emits (bar_safe rb) s t"
    using t by (auto intro: emits_trace bar_fixup_trace split: if_splits)
  ultimately show ?thesis by (blast intro: emits_trans default_read_emits)
qed

lemma bar_restore_loop_emits:
  assumes "bar_restore_loop K is s = Some s'" "\<forall>i \<in> set is. i < 6"
  shows "emits (bar_safe (rbar s)) s s' \<and> rbar s' = rbar s"
  using assms
proof (induction "is" arbitrary: s)
  case (Cons i "is")
  define t where "t = kcall_do K (Config (User_write_config 4 (PCI_BASE_ADDRESS_0 + 4 * i) (rbar s ! i))) s"
  from Cons.prems(1) have "bar_restore_loop K is t = Some s'"
    by (auto simp: bind_eq_Some_conv nth_opt_Some t_def)
  from Cons.IH [OF this] Cons.prems(2) have "emits (bar_safe (rbar s)) t s'" "rbar s' = rbar s"
    by (simp_all add: t_def)
  moreover have "saved_bar (rbar s) (PCI_BASE_ADDRESS_0 + 4 * i) (rbar s ! i)"
    unfolding saved_bar_def using Cons.prems(2) by (intro disjI1 exI [of _ i]) simp
  then have "emits (bar_safe (rbar s)) s t" unfolding t_def by (intro emits_then(1)) simp_all
  ultimately show ?case by (blast intro: emits_trans)
qed simp

lemma bar_restore_emits:
  assumes "vfio_bar_restore K s = Some s'"
  shows "emits (bar_safe (rbar s)) s s'"
proof (cases "is_virtfn (pdev s)")
  case True
  with assms show ?thesis by (simp add: vfio_bar_restore_def)
next
  case False
  with assms obtain t where t: "bar_restore_loop K [0..<6] s = Some t" "6 < length (rbar t)"
    by (auto simp: vfio_bar_restore_def bind_eq_Some_conv nth_opt_Some)
  define u where "u = kcall_do K (Config (User_write_config 4 PCI_ROM_ADDRESS (rbar t ! 6))) t"
  from bar_restore_loop_emits [OF t(1)] have "emits (bar_safe (rbar s)) s u"
    unfolding u_def by (intro emits_then(1)) (auto simp: saved_bar_def)
  with assms False t show ?thesis
    by (auto simp: vfio_bar_restore_def nth_opt_def u_def [symmetric] case_prod_unfold Let_def split: if_splits)
qed

lemma need_bar_restore_loop_emits:
  "need_bar_restore_loop K is s = Some (b, s') \<Longrightarrow> emits (bar_safe rb) s s' \<and> rbar s' = rbar s"
proof (induction "is" arbitrary: s)
  case (Cons i "is")
  define t where "t = snd (kcall K (Config (User_read_config 4 (PCI_BASE_ADDRESS_0 + 4 * i))) s)"
  have t: "emits (bar_safe rb) s t" "rbar t = rbar s" by (simp_all add: t_def)
  from Cons.prems consider "need_bar_restore_loop K is s = Some (b, s')"
    | "need_bar_restore_loop K is t = Some (b, s')" | "s' = t"
    by (auto simp: bind_eq_Some_conv case_prod_unfold t_def split: if_splits)
  then show ?case using Cons.IH t by cases (auto intro: emits_trans)
qed simp

lemma intx_mask_emits: "vfio_pci_intx_mask K s = Some s' \<Longrightarrow> emits (bar_safe rb) s s'"
  by (auto simp: vfio_pci_intx_mask_def bind_eq_Some_conv Let_def split: if_splits)

lemma send_emits: "vfio_send_intx_eventfd K s = Some s' \<Longrightarrow> emits (bar_safe rb) s s'"
  by (auto simp: vfio_send_intx_eventfd_def eventfd_signal_def bind_eq_Some_conv split: if_splits)

lemma unmask_handler_emits: "vfio_pci_intx_unmask_handler K s = Some (r, s') \<Longrightarrow> emits (bar_safe rb) s s'"
  by (auto simp: vfio_pci_intx_unmask_handler_def bind_eq_Some_conv Let_def case_prod_unfold split: if_splits)

lemma intx_unmask_emits: "vfio_pci_intx_unmask K s = Some s' \<Longrightarrow> emits (bar_safe rb) s s'"
  by (auto simp: vfio_pci_intx_unmask_def bind_eq_Some_conv split: if_splits
      dest: unmask_handler_emits send_emits intro: emits_trans)


lemma vstore_emits: "vstore p n v s = Some s' \<Longrightarrow> emits P s s'"
  by (intro emits_trace vstore_trace)

lemma vstore_emits_iff: "vstore p n v s = Some s' \<Longrightarrow> emits P r s' = emits P r s"
  by (intro emits_cong vstore_trace)

section \<open>What holds of every result\<close>

text \<open>
  \<open>opt_all Q m\<close>: if \<open>m\<close> is defined, its result satisfies \<open>Q\<close>. The rules walk through a handler.
\<close>

definition opt_all :: "('a \<Rightarrow> bool) \<Rightarrow> 'a option \<Rightarrow> bool" where
  "opt_all Q m \<longleftrightarrow> (\<forall>x. m = Some x \<longrightarrow> Q x)"

lemma opt_allD: "opt_all Q m \<Longrightarrow> m = Some x \<Longrightarrow> Q x"
  by (simp add: opt_all_def)

lemma opt_all_bind: "opt_all (\<lambda>x. opt_all Q (f x)) m \<Longrightarrow> opt_all Q (m \<bind> f)"
  by (auto simp: opt_all_def bind_eq_Some_conv)

lemma opt_all_Some: "Q x \<Longrightarrow> opt_all Q (Some x)"
  by (simp add: opt_all_def)

lemma opt_all_if: "(b \<Longrightarrow> opt_all Q x) \<Longrightarrow> (\<not> b \<Longrightarrow> opt_all Q y) \<Longrightarrow> opt_all Q (if b then x else y)"
  by simp

lemma opt_all_let: "opt_all Q (f x) \<Longrightarrow> opt_all Q (Let x f)"
  by simp

lemma opt_all_prod: "(\<And>a b. p = (a, b) \<Longrightarrow> opt_all Q (f a b)) \<Longrightarrow> opt_all Q (case p of (a, b) \<Rightarrow> f a b)"
  by (cases p) simp

lemma opt_all_vload: "(\<And>v. Q v) \<Longrightarrow> opt_all Q (vload p n s)"
  by (simp add: opt_all_def)

lemma opt_all_prod2: "(\<And>x y. a = (x, y) \<Longrightarrow> opt_all Q (f x y b)) \<Longrightarrow> opt_all Q (case_prod f a b)"
  by (cases a) simp

lemma opt_all_vstore:
  assumes "\<And>t. (\<And>P r. emits P r t = emits P r s) \<Longrightarrow> Q t"
  shows "opt_all Q (vstore p n v s)"
proof -
  have "Q t" if "vstore p n v s = Some t" for t by (rule assms) (rule vstore_emits_iff [OF that])
  then show ?thesis by (simp add: opt_all_def)
qed

lemma opt_all_lift: "(\<And>x. m = Some x \<Longrightarrow> Q x) \<Longrightarrow> opt_all Q m"
  by (simp add: opt_all_def)

lemmas opt_all_rules = opt_all_bind opt_all_Some opt_all_if opt_all_let opt_all_prod opt_all_prod2 opt_all_vload opt_all_vstore

lemma kcall_eqs: "kcall K c s = (r, t) \<Longrightarrow> t = snd (kcall K c s)"
  "kcall_rc K c s = (q, t) \<Longrightarrow> t = snd (kcall_rc K c s)"
  by simp_all

lemma need_bar_restore_emits:
  "vfio_need_bar_restore K s = Some (b, s') \<Longrightarrow> emits (bar_safe rb) s s' \<and> rbar s' = rbar s"
  unfolding vfio_need_bar_restore_def by (rule need_bar_restore_loop_emits)

lemma basic_write_command_emits:
  assumes "basic_write_command K val s = Some (err, cmd, s')"
  shows "emits (bar_safe (rbar s)) s s'"
proof -
  define t where "t = snd (kcall K (Config (User_read_config 2 PCI_COMMAND)) s)"
  have t: "emits (bar_safe (rbar s)) s t" "rbar t = rbar s" by (simp_all add: t_def)
  have restore: "emits (bar_safe (rbar s)) s v"
    if "emits (bar_safe (rbar s)) s u" "rbar u = rbar s" "vfio_bar_restore K u = Some v" for u v
    using bar_restore_emits [OF that(3)] that(1,2) by (metis emits_trans)
  have need: "emits (bar_safe (rbar s)) s u \<and> rbar u = rbar s" if "vfio_need_bar_restore K t = Some (b, u)" for b u
    using need_bar_restore_emits [OF that, of "rbar s"] t by (metis emits_trans)
  from assms show ?thesis
    using t restore need
    by (auto simp: basic_write_command_def Let_def case_prod_unfold bind_eq_Some_conv t_def [symmetric]
        split: if_splits)
qed

lemma emits_bardirty [simp]: "emits P s (t\<lparr>bardirty := b\<rparr>) = emits P s t"
  by (rule emits_cong) simp

lemma emulate_intx_disable_emits:
  assumes "emulate_intx_disable K s = Some s'"
  shows "emits (bar_safe rb) s s'"
proof -
  have flag: "emits (bar_safe rb) s (s\<lparr>virq_disabled := b\<rparr>)" for b by (rule emits_trace) simp
  from assms show ?thesis
    by (auto simp: emulate_intx_disable_def bind_eq_Some_conv Let_def split: if_splits
        intro: emits_trans [OF flag intx_mask_emits] emits_trans [OF flag intx_unmask_emits])
qed

text \<open>A write to the header, or, at other positions, by a handler that was meant for the header.\<close>

lemma opt_all_default_write:
  assumes "n \<in> {1, 2, 4}" "phys_mask perm offset n = 0 \<or> no_bar pos n"
    and "\<And>r t. emits (bar_safe rb) s t \<Longrightarrow> Q (r, t)"
  shows "opt_all Q (vfio_default_config_write K pos n perm offset val s)"
  using assms default_write_emits [OF _ assms(1,2), of K val s _ _ rb] by (auto simp: opt_all_def)

lemma basic_write_emits:
  assumes run: "vfio_basic_config_write K pos n perm offset val s = Some (ret, s')"
    and n: "n \<in> {1, 2, 4}" and safe: "phys_mask perm offset n = 0 \<or> no_bar pos n"
  shows "emits (bar_safe (rbar s)) s s'"
proof -
  have cmd: "opt_all (\<lambda>(err, cmd, t). emits (bar_safe (rbar s)) s t)
      (if offset = PCI_COMMAND then basic_write_command K val s else Some (0, 0, s))"
    using basic_write_command_emits by (auto simp: opt_all_def)
  have "opt_all (\<lambda>(ret, s'). emits (bar_safe (rbar s)) s s') (vfio_basic_config_write K pos n perm offset val s)"
    unfolding vfio_basic_config_write_def
  proof (rule opt_all_bind, rule opt_all_lift, clarify)
    fix err cmd t
    assume "(if offset = PCI_COMMAND then basic_write_command K val s else Some (0, 0, s)) = Some (err, cmd, t)"
    then have t: "emits (bar_safe (rbar s)) s t" using opt_allD [OF cmd] by fastforce
    have emu: "opt_all Q (emulate_intx_disable K u)"
      if "emits (bar_safe (rbar s)) s u" "\<And>v. emits (bar_safe (rbar s)) s v \<Longrightarrow> Q v" for u Q
      using that emulate_intx_disable_emits [of K u _ "rbar s"] by (auto simp: opt_all_def intro: emits_trans)
    show "opt_all (\<lambda>(ret, s'). emits (bar_safe (rbar s)) s s')
      (if err \<noteq> 0 then Some (err, t)
       else do {
         (ret, s) \<leftarrow> vfio_default_config_write K pos n perm offset val t;
         if ret < 0 then Some (ret, s)
         else do {
           s \<leftarrow> (if offset = PCI_COMMAND then do {
                  virt \<leftarrow> vload PCI_COMMAND 2 s;
                  let mask = PCI_COMMAND_MEMORY OR PCI_COMMAND_IO;
                  vstore PCI_COMMAND 2 (ucast (((ucast virt :: u16) AND NOT mask) OR (cmd AND mask))) s
                } else Some s);
           s \<leftarrow> (if PCI_COMMAND \<le> offset \<and> offset \<le> PCI_COMMAND + 1 then emulate_intx_disable K s
                else Some s);
           Some (ret, if is_bar offset then s\<lparr>bardirty := True\<rparr> else s) } })"
      using t emits_trans [OF t]
      by (intro opt_all_rules opt_all_default_write [OF n safe, of "rbar s"])
        (auto intro!: opt_all_rules emu)
  qed
  from opt_allD [OF this run] show ?thesis by simp
qed

section \<open>Capabilities\<close>

lemma pm_write_emits:
  assumes run: "vfio_pm_config_write K pos n perm offset val s = Some (ret, s')" and n: "n \<in> {1, 2, 4}" "no_bar pos n"
  shows "emits (bar_safe rb) s s'"
proof -
  have "opt_all (\<lambda>(ret, s'). emits (bar_safe rb) s s') (vfio_pm_config_write K pos n perm offset val s)"
    unfolding vfio_pm_config_write_def
    by (intro opt_all_rules opt_all_default_write [OF n(1) disjI2 [OF n(2)], of rb]) auto
  from opt_allD [OF this run] show ?thesis by simp
qed

lemma vpd_write_emits:
  assumes run: "vfio_vpd_config_write K pos n perm offset val s = Some (ret, s')" and n: "n \<in> {1, 2, 4}" "no_bar pos n"
  shows "emits (bar_safe rb) s s'"
proof -
  have "opt_all (\<lambda>(ret, s'). emits (bar_safe rb) s s') (vfio_vpd_config_write K pos n perm offset val s)"
    unfolding vfio_vpd_config_write_def vpd_transfer_def
    by (intro opt_all_rules opt_all_default_write [OF n(1) disjI2 [OF n(2)], of rb])
      (auto dest!: kcall_eqs)
  from opt_allD [OF this run] show ?thesis by simp
qed

lemma exp_write_emits:
  assumes run: "vfio_exp_config_write K pos n perm offset val s = Some (ret, s')" and n: "n \<in> {1, 2, 4}" "no_bar pos n"
  shows "emits (bar_safe rb) s s'"
proof -
  have "opt_all (\<lambda>(ret, s'). emits (bar_safe rb) s s') (vfio_exp_config_write K pos n perm offset val s)"
    unfolding vfio_exp_config_write_def exp_flr_def exp_readrq_def
    by (intro opt_all_rules opt_all_default_write [OF n(1) disjI2 [OF n(2)], of rb])
      (auto dest!: kcall_eqs)
  from opt_allD [OF this run] show ?thesis by simp
qed

lemma af_write_emits:
  assumes run: "vfio_af_config_write K pos n perm offset val s = Some (ret, s')" and n: "n \<in> {1, 2, 4}" "no_bar pos n"
  shows "emits (bar_safe rb) s s'"
proof -
  have "opt_all (\<lambda>(ret, s'). emits (bar_safe rb) s s') (vfio_af_config_write K pos n perm offset val s)"
    unfolding vfio_af_config_write_def af_flr_def
    by (intro opt_all_rules opt_all_default_write [OF n(1) disjI2 [OF n(2)], of rb])
      (auto dest!: kcall_eqs)
  from opt_allD [OF this run] show ?thesis by simp
qed

lemma write_virtual_map: "write_virtual pos n m val s = Some t \<Longrightarrow> pci_config_map t = pci_config_map s"
  by (auto simp: write_virtual_def vstore_def bind_eq_Some_conv split: if_splits)

lemma write_physical_map: "pci_config_map (snd (write_physical K pos n m val s)) = pci_config_map s"
  by (simp add: write_physical_def vfio_user_config_read_def vfio_user_config_write_def case_prod_unfold)

lemma default_write_map:
  assumes "vfio_default_config_write K pos n perm offset val s = Some (r, t)"
  shows "pci_config_map t = pci_config_map s"
  using assms
proof (cases rule: default_write_cases)
  case (wr w v u)
  then show ?thesis by (metis snd_conv write_physical_map write_virtual_map)
qed simp

lemma msi_write_emits:
  assumes run: "vfio_msi_config_write K pos n perm offset val s = Some (ret, s')" and n: "n \<in> {1, 2, 4}" "no_bar pos n"
    and start: "\<And>t start. pci_config_map t = pci_config_map s \<Longrightarrow> vfio_find_cap_start t pos = Some start \<Longrightarrow> 64 \<le> start"
  shows "emits (bar_safe rb) s s'"
proof -
  have dflt: "opt_all Q (vfio_default_config_write K pos n perm offset val s)"
    if "\<And>r t. emits (bar_safe rb) s t \<Longrightarrow> (\<And>start. vfio_find_cap_start t pos = Some start \<Longrightarrow> no_bar (start + PCI_MSI_FLAGS) 2)
      \<Longrightarrow> Q (r, t)" for Q
  proof (rule opt_all_lift, clarify)
    fix r t assume t: "vfio_default_config_write K pos n perm offset val s = Some (r, t)"
    then have "emits (bar_safe rb) s t" by (rule default_write_emits) (use n in auto)
    moreover have "no_bar (start + PCI_MSI_FLAGS) 2" if "vfio_find_cap_start t pos = Some start" for start
      using start [OF default_write_map [OF t] that] by (intro no_bar_high) simp
    ultimately show "Q (r, t)" by (rule that)
  qed
  have "opt_all (\<lambda>(ret, s'). emits (bar_safe rb) s s') (vfio_msi_config_write K pos n perm offset val s)"
    unfolding vfio_msi_config_write_def msi_flags_update_def
    by (intro opt_all_rules dflt opt_all_lift [of "vfio_find_cap_start _ _"]) (auto dest!: kcall_eqs)
  from opt_allD [OF this run] show ?thesis by simp
qed

lemma msi_read_emits:
  "vfio_msi_config_read K pos n perm offset val s = Some (ret, v, s') \<Longrightarrow> emits (bar_safe rb) s s'"
  using default_read_emits
  by (auto simp: vfio_msi_config_read_def bind_eq_Some_conv Let_def split: if_splits intro: emits_trans vstore_emits)

section \<open>A whole access\<close>

text \<open>Which positions the header table governs.\<close>

lemma basic_table_bars: "list_all (\<lambda>p. list_all (\<lambda>n. p mod 4 + n \<le> 4 \<longrightarrow> phys_mask basic_table p n = 0) [1, 2, 4])
    ([16..<40] @ [48..<52])"
  by code_simp

lemma basic_table_safe:
  assumes "n \<in> {1, 2, 4}" "p mod 4 + n \<le> 4"
  shows "phys_mask basic_table p n = 0 \<or> no_bar p n"
proof (cases "p \<in> set ([16..<40] @ [48..<52])")
  case True
  with basic_table_bars assms show ?thesis by (auto simp only: list_all_iff list.set insert_iff)
next
  case False
  have "\<not> is_bar i" if i: "p \<le> i" "i < p + n" for i
  proof -
    have low: "16 \<le> i \<Longrightarrow> 16 \<le> p" "48 \<le> i \<Longrightarrow> 48 \<le> p" using assms(2) i by presburger+
    have "\<not> (16 \<le> p \<and> p < 40)" "\<not> (48 \<le> p \<and> p < 52)"
      using False by (auto simp only: set_append set_upt Un_iff atLeastLessThan_iff)
    with low i show ?thesis by (auto simp: is_bar_def)
  qed
  then show ?thesis by (simp add: no_bar_def)
qed

lemma chunk_low:
  assumes ok: "config_ok ready_tables s" and chunk: "chunk_at ready_tables s p n perm start" and p: "p < 64"
  shows "perm = basic_table \<and> start = 0"
proof -
  have "nth_opt (pci_config_map s) p = Some 0"
    using ok p by (simp add: config_ok_def config_sized_def nth_opt_def)
  then have "config_perm ready_tables s p = Some (basic_table, 0)"
    using p by (simp add: config_perm_def ready_tables_def nth_opt_def)
  then show ?thesis using chunk by (simp add: chunk_at_def)
qed

text \<open>A capability that has its own handlers starts above the header.\<close>

lemma find_cap_loop_base: "find_cap_loop m base cap p = Some q \<Longrightarrow> base \<le> p \<Longrightarrow> base \<le> q"
  by (induction m base cap p rule: find_cap_loop.induct) (auto simp: bind_eq_Some_conv split: if_splits)

lemma find_cap_start_high:
  assumes "vfio_find_cap_start s p = Some q" "64 \<le> p" "nth_opt (pci_config_map s) p = Some c" "c \<noteq> 0"
  shows "64 \<le> q"
proof -
  have "64 \<le> (if PCI_CFG_SPACE_SIZE \<le> p then PCI_CFG_SPACE_SIZE else PCI_STD_HEADER_SIZEOF)" by simp
  moreover have "find_cap_loop (pci_config_map s) (if PCI_CFG_SPACE_SIZE \<le> p then PCI_CFG_SPACE_SIZE
      else PCI_STD_HEADER_SIZEOF) c p = Some q"
    using assms by (simp add: vfio_find_cap_start_def)
  ultimately show ?thesis using find_cap_loop_base assms(2)
    by (cases "PCI_CFG_SPACE_SIZE \<le> p") fastforce+
qed

lemma raw_write_emits:
  "vfio_raw_config_write K pos n perm offset val s = Some (ret, s') \<Longrightarrow> no_bar pos n \<Longrightarrow> emits (bar_safe rb) s s'"
  using user_write_emits [of pos n rb s K val] by (auto simp: vfio_raw_config_write_def case_prod_unfold)

lemma raw_read_emits:
  "vfio_raw_config_read K pos n perm offset val s = Some (ret, v, s') \<Longrightarrow> emits (bar_safe rb) s s'"
  using user_read_emits [of rb s K pos n] by (auto simp: vfio_raw_config_read_def case_prod_unfold)

lemma call_readfn_emits:
  "call_readfn f K p n perm offset val s = Some (ret, v, s') \<Longrightarrow> emits (bar_safe rb) s s'"
  by (cases f) (auto simp: vfio_virt_config_read_def bind_eq_Some_conv dest: default_read_emits direct_read_emits
      raw_read_emits basic_read_emits msi_read_emits)

lemma call_writefn_emits:
  assumes ok: "config_ok ready_tables s" and chunk: "chunk_at ready_tables s p n perm start"
    and n: "n \<in> {1, 2, 4}" and f: "pwritefn perm = Some f"
    and run: "call_writefn f K p n perm (p - start) val s = Some (ret, s')"
  shows "emits (bar_safe (rbar s)) s s'"
proof (cases "p < 64")
  case True
  from chunk_low [OF ok chunk True] f have "f = Basic_config_write" "perm = basic_table" "start = 0"
    by (simp_all add: basic_table_def)
  with run basic_table_safe [OF n] chunk show ?thesis
    by (auto simp: chunk_at_def intro!: basic_write_emits [OF _ n])
next
  case False
  then have high: "no_bar p n" by (intro no_bar_high) simp
  show ?thesis
  proof (cases f)
    case Default_config_write
    with run n high show ?thesis by (auto intro: default_write_emits)
  next
    case Raw_config_write
    with run n high show ?thesis by (auto intro: raw_write_emits)
  next
    case Virt_config_write
    with run show ?thesis by (auto simp: vfio_virt_config_write_def bind_eq_Some_conv intro: vstore_emits)
  next
    case Basic_config_write
    with run n high show ?thesis by (auto intro: basic_write_emits)
  next
    case Pm_config_write
    with run n high show ?thesis by (auto intro: pm_write_emits)
  next
    case Vpd_config_write
    with run n high show ?thesis by (auto intro: vpd_write_emits)
  next
    case Exp_config_write
    with run n high show ?thesis by (auto intro: exp_write_emits)
  next
    case Af_config_write
    with run n high show ?thesis by (auto intro: af_write_emits)
  next
    case Msi_config_write
    have map: "nth_opt (pci_config_map s) p = Some (pci_config_map s ! p)"
      using ok chunk by (simp add: config_ok_def config_sized_def chunk_at_def nth_opt_def)
    have "pci_config_map s ! p \<noteq> 0"
    proof
      assume "pci_config_map s ! p = 0"
      with map have "config_perm ready_tables s p = Some (cap_perms ready_tables ! 0, 0) \<or>
          config_perm ready_tables s p = Some (ecap_perms ready_tables ! 0, 0)"
        by (simp add: config_perm_def ready_tables_def nth_opt_def vfio_find_cap_start_def)
      with chunk f Msi_config_write show False
        by (auto simp: chunk_at_def ready_tables_def basic_table_def direct_perm_def)
    qed
    with run n high False map Msi_config_write show ?thesis
      by (auto intro!: msi_write_emits intro: find_cap_start_high)
  qed
qed

lemma config_chunk_emits:
  assumes ok: "config_ok ready_tables s" and chunk: "chunk_at ready_tables s p n perm start" and n: "n \<in> {1, 2, 4}"
    and run: "config_chunk K iswrite buf p n perm start s = Some (ret, s')"
  shows "emits (bar_safe (rbar s)) s s'"
proof (cases iswrite)
  case True
  obtain rc val t where t: "copy_from_user K buf n s = (rc, val, t)" by (metis prod_cases3)
  then have st: "cfg_step s t" and e: "emits (bar_safe (rbar s)) s t"
    using copy_from_user_step [of s K buf n] by (auto simp: copy_from_user_def case_prod_unfold)
  then have "config_ok ready_tables t" "chunk_at ready_tables t p n perm start" "rbar t = rbar s"
    using ok chunk by (simp_all add: config_ok_step chunk_at_step) (simp add: cfg_step_def)
  note wr = call_writefn_emits [OF this(1,2) n] and rb = this(3)
  from True run t consider "s' = s" | "s' = t" | f where "pwritefn perm = Some f"
      "call_writefn f K p n perm (p - start) val t = Some (ret, s')"
    by (auto simp: config_chunk_def split: option.splits if_splits)
  then show ?thesis
  proof cases
    case (3 f)
    from wr [OF this] show ?thesis using emits_trans [OF e] by (simp add: rb)
  qed (use e in auto)
next
  case False
  have "emits (bar_safe (rbar s)) t (snd (copy_to_user K buf n v t))" for t v
    by (simp add: copy_to_user_emits)
  with False run show ?thesis
    by (auto simp: config_chunk_def bind_eq_Some_conv case_prod_unfold split: option.splits if_splits
        dest!: call_readfn_emits [where rb = "rbar s"] intro: emits_trans)
qed

end
