(* ===== verification/Config_Props.thy ===== *)
theory Config_Props
  imports Config_Isolation
begin

text \<open>
  Properties of the user's access to configuration space.
\<close>

section \<open>Whole accesses\<close>

text \<open>C2. Every access of configuration space, at any offset and of any size, is memory safe, keeps the
  device state well-formed, and either fails or transfers everything.\<close>

theorem config_rw_safe:
  assumes "user_cfg_law K" "config_ok T s"
  shows "\<exists>r ppos' s'. vfio_pci_config_rw K T buf count ppos iswrite s = Some (r, ppos', s') \<and> config_ok T s' \<and>
    (r < 0 \<and> ppos' = ppos \<or> r = int (unat count) \<and> ppos' = ppos + r)"
  using config_rw_total [OF assms, of buf count ppos iswrite] by blast

theorem config_rw_safe_witness:
  "\<exists>r ppos' s'. vfio_pci_config_rw (sample_kernel sample_vconfig) ready_tables 0 256 (7 * 2 ^ 40) False
      sample_config_device = Some (r, ppos', s') \<and> config_ok ready_tables s' \<and> (r < 0 \<or> r = 256)"
  using config_rw_safe [OF sample_kernel_laws(1) sample_config_ok, of sample_vconfig 0 256 "7 * 2 ^ 40" False]
  by auto

text \<open>The loop of an access of configuration space ends: any fuel of at least the number of bytes
  gives the same result.\<close>

theorem config_rw_fuel:
  assumes "user_cfg_law K" "config_ok T s" "unat count \<le> fuel"
  shows "\<exists>r s'. chunk_loop (vfio_config_do_rw K T iswrite) fuel buf count (ppos AND VFIO_PCI_OFFSET_MASK) 0 s = Some (r, s') \<and>
    vfio_pci_config_rw K T buf count ppos iswrite s = Some (r, if r < 0 then ppos else ppos + r, s')"
proof -
  have inv: "user_cfg_law K \<and> config_ok T s" using assms by simp
  from config_chunks.loop_fuel [OF inv assms(3) order_refl]
    config_chunks.loop_total [OF inv assms(3)]
  show ?thesis unfolding vfio_pci_config_rw_def
    by (metis (no_types, lifting) Option.bind.bind_lunit case_prod_conv)
qed

theorem config_rw_fuel_witness:
  "\<exists>r s'. chunk_loop (vfio_config_do_rw (sample_kernel sample_vconfig) ready_tables True) 1000 0 8
      (7 * 2 ^ 40 AND VFIO_PCI_OFFSET_MASK) 0 sample_config_device = Some (r, s')"
  using config_rw_fuel [OF sample_kernel_laws(1) sample_config_ok, where count = 8 and fuel = 1000] by simp blast

text \<open>C9. No access of configuration space by the user makes the driver write another value to a BAR of
  the device than the one it had when it was opened.\<close>

theorem config_rw_isolates_bars:
  assumes law: "user_cfg_law K" and ok: "config_ok ready_tables s"
    and run: "vfio_pci_config_rw K ready_tables buf count ppos iswrite s = Some (r, ppos', s')"
  shows "\<forall>c \<in> set (calls s s'). bar_safe (rbar s) c"
proof -
  let ?P = "\<lambda>t. emits (bar_safe (rbar s)) s t \<and> rbar t = rbar s"
  have keep: "?P t'" if inv: "user_cfg_law K \<and> config_ok ready_tables t" and P: "?P t" and count: "count \<noteq> 0"
    and st: "vfio_config_do_rw K ready_tables iswrite buf count pos t = Some (ret, t')" for buf count pos t ret t'
    using conjunct2 [OF inv] count
  proof (cases rule: do_rw_chunk [where K = K and iswrite = iswrite and buf = buf and pos = pos])
    case refused
    with st P show ?thesis by simp
  next
    case (chunk p n perm start)
    with st have c: "config_chunk K iswrite buf p n perm start t = Some (ret, t')" by simp
    from config_chunk_post [OF _ _ chunk(2), of K iswrite buf] inv c have "rbar t' = rbar t" by (auto simp: dev_step_def cfg_step_def)
    moreover have "emits (bar_safe (rbar t)) t t'"
      by (rule config_chunk_emits [OF _ chunk(2,3) c]) (use inv in simp)
    ultimately show ?thesis using P by (metis emits_trans)
  qed
  from run obtain q where loop: "chunk_loop (vfio_config_do_rw K ready_tables iswrite) (unat count) buf count
      (ppos AND VFIO_PCI_OFFSET_MASK) 0 s = Some (q, s')"
    by (auto simp: vfio_pci_config_rw_def bind_eq_Some_conv)
  have "?P s'"
    by (rule config_chunks.loop_keeps [where P = ?P, OF keep _ _ loop]) (use law ok in auto)
  then show ?thesis by (simp add: emits_def)
qed

theorem config_rw_isolates_bars_witness:
  "\<exists>r ppos' s'. vfio_pci_config_rw (sample_kernel sample_vconfig) ready_tables 0 4 (7 * 2 ^ 40 + 0x10) True
      sample_config_device = Some (r, ppos', s') \<and>
    (\<forall>c \<in> set (calls sample_config_device s'). bar_safe [0xf0000000, 0, 0, 0, 0, 0, 0] c)"
proof -
  obtain r ppos' s' where run: "vfio_pci_config_rw (sample_kernel sample_vconfig) ready_tables 0 4 (7 * 2 ^ 40 + 0x10)
      True sample_config_device = Some (r, ppos', s')"
    using config_rw_total [OF sample_kernel_laws(1) sample_config_ok] by blast
  have "rbar sample_config_device = [0xf0000000, 0, 0, 0, 0, 0, 0]" by (simp add: sample_config_device_def)
  with config_rw_isolates_bars [OF sample_kernel_laws(1) sample_config_ok run] run show ?thesis by auto
qed

section \<open>Bits\<close>

lemma default_write_mask:
  assumes run: "vfio_default_config_write K pos n perm offset val s = Some (ret, s')" and n: "n \<in> {1, 2, 4}"
  shows "bit (phys_mask perm offset n) j \<longleftrightarrow> j < 8 * n \<and> write_bit perm offset j \<and> \<not> virt_bit perm offset j"
  using run
proof (cases rule: default_write_cases)
  case (dropped w)
  have "\<not> write_bit perm offset j" if "j < 8 * n"
    using bit_load_write [OF dropped(1), of j] dropped(2) that n by auto
  with dropped show ?thesis by (auto simp: phys_mask_def split: option.split)
next
  case (wr w v t)
  with bit_load_write [OF wr(1), of j] bit_load_virt [OF wr(2), of j] n show ?thesis
    by (auto simp: phys_mask_def bit_and_iff bit_not_iff)
qed



text \<open>The default read handler returns each virtual bit from the virtual space and every other bit
  from the device.\<close>

theorem default_read_value:
  assumes run: "vfio_default_config_read K pos n perm offset val s = Some (ret, v, s')"
    and "n \<in> {1, 2, 4}" "0 \<le> ret" "user_cfg_law K"
  shows "(\<forall>j < 8 * n. bit v j = (if virt_bit perm offset j then vbit s pos j
      else bit (fst (snd (vfio_user_config_read K pos n s))) j)) \<and> vconfig s' = vconfig s"
proof -
  have "vconfig s' = vconfig s"
    using run by (auto simp: vfio_default_config_read_def bind_eq_Some_conv vfio_user_config_read_def
        Let_def case_prod_unfold split: if_splits)
  with default_read_bits [OF run assms(2-4)] show ?thesis by blast
qed

theorem default_read_value_witness:
  "\<exists>v s'. vfio_default_config_read (sample_kernel (sample_vconfig[4 := 0xff])) 4 2 basic_table 4 0 sample_config_device
      = Some (2, v, s') \<and> bit v 0 \<and> \<not> bit v 10"
proof -
  let ?K = "sample_kernel (sample_vconfig[4 := 0xff])"
  have "case vfio_default_config_read ?K 4 2 basic_table 4 0 sample_config_device of
      Some (ret, v, s') \<Rightarrow> ret = 2 | None \<Rightarrow> False"
    by code_simp
  then obtain v s' where run: "vfio_default_config_read ?K 4 2 basic_table 4 0 sample_config_device = Some (2, v, s')"
    by (auto split: option.splits)
  have facts: "virt_bit basic_table 4 10" "\<not> virt_bit basic_table 4 0" "\<not> vbit sample_config_device 4 10"
    "bit (fst (snd (vfio_user_config_read ?K 4 2 sample_config_device))) 0"
    by code_simp+
  from default_read_value [OF run _ _ sample_kernel_laws(1)] facts have "bit v 0" "\<not> bit v 10" by simp_all
  with run show ?thesis by blast
qed

section \<open>Permission tables\<close>

text \<open>C22. Loading the permission tables either sets all of them up or fails with every table freed.\<close>

theorem init_perm_bits_all_or_nothing:
  "\<exists>r T s'. vfio_pci_init_perm_bits K initial_tables s = Some (r, T, s') \<and>
     (r = 0 \<and> T = ready_tables \<or> r \<noteq> 0 \<and> list_all freed (cap_perms T) \<and> list_all freed (ecap_perms T))"
  using init_perm_bits_cases [of K s] by blast

end
