(* ===== verification/Config_Emul.thy ===== *)
theory Config_Emul
  imports Config_Isolation Config_Sample
begin

text \<open>
  What the emulated capabilities promise: function level reset, the MSI flags, and the protocol by which
  the user sizes a BAR.
\<close>

section \<open>Loads, stores and calls\<close>

lemma vload_vstore_same:
  assumes "vstore p n v s = Some t" "n \<le> 4"
  shows "vload p n t = Some (v AND low_mask n)"
  using assms load_store_same by (auto simp: vstore_def vload_def)

lemma vload_vstore_other:
  assumes "vstore p n v s = Some t" "q + m \<le> p \<or> p + n \<le> q"
  shows "vload q m t = vload q m s"
  using assms load_store_other by (auto simp: vstore_def vload_def)

lemma vload_kcall [simp]:
  "vload p n (kcall_do K c s) = vload p n s" "vload p n (snd (kcall_rc K c s)) = vload p n s"
  "vload p n (snd (kcall K c s)) = vload p n s"
  by (simp_all add: vload_def)

lemma ucast_low_mask [simp]:
  "ucast (w :: u16) AND low_mask 2 = (ucast w :: u32)" "ucast (b :: u8) AND low_mask 1 = (ucast b :: u32)"
  by (rule bit_word_eqI; auto simp: bit_ucast_iff bit_and_iff dest: bit_imp_le_length)+

lemma default_write_config_calls:
  assumes "vfio_default_config_write K pos n perm offset val s = Some (ret, s')" "n \<in> {1, 2, 4}"
  shows "emits (\<lambda>c. \<exists>x. c = Config x) s s'"
proof -
  obtain t where "extends s s'" "calls s s' = (if phys_mask perm offset n = 0 then []
      else if fst (vfio_user_config_read K pos n t) \<noteq> 0 then [Config (User_read_config n pos)]
      else [Config (User_read_config n pos), rmw_call K pos n (phys_mask perm offset n) val t])"
    by (rule default_write_calls [OF assms])
  then show ?thesis by (auto simp: emits_def rmw_call_def Let_def split: if_splits)
qed

section \<open>Function level reset\<close>

text \<open>Whether the user's write asks for a reset and the device says that it can do one.\<close>

definition flr_asked :: "kernel \<Rightarrow> nat \<Rightarrow> vfio_pci_device \<Rightarrow> bool" where
  "flr_asked K start t \<longleftrightarrow>
     (case vload (start + PCI_EXP_DEVCTL) 2 t of
        Some c \<Rightarrow> (ucast c :: u16) AND PCI_EXP_DEVCTL_BCR_FLR \<noteq> 0 | None \<Rightarrow> False) \<and>
     (case respond K (trace t) (Config (User_read_config 4 (start + PCI_EXP_DEVCAP))) of
        (rc, cap) \<Rightarrow> rc = 0 \<and> (ucast cap :: u32) AND PCI_EXP_DEVCAP_FLR \<noteq> 0)"

lemma exp_flr_cases:
  assumes run: "exp_flr K start t = Some u"
  shows "(\<exists>c. vload (start + PCI_EXP_DEVCTL) 2 u = Some c \<and> (ucast c :: u16) AND PCI_EXP_DEVCTL_BCR_FLR = 0) \<and>
    extends t u \<and> (Power Try_reset_function \<in> set (calls t u) \<longleftrightarrow> flr_asked K start t)"
proof -
  let ?ctrl = "start + PCI_EXP_DEVCTL" and ?rd = "Config (User_read_config 4 (start + PCI_EXP_DEVCAP))"
  from run obtain c where c: "vload ?ctrl 2 t = Some c" by (auto simp: exp_flr_def bind_eq_Some_conv Let_def)
  show ?thesis
  proof (cases "(ucast c :: u16) AND PCI_EXP_DEVCTL_BCR_FLR = 0")
    case True
    with run c have "u = t" by (simp add: exp_flr_def)
    with True c show ?thesis by (auto simp: flr_asked_def)
  next
    case False
    define c' where "c' = (ucast c :: u16) AND NOT PCI_EXP_DEVCTL_BCR_FLR"
    from run c False obtain w where w: "vstore ?ctrl 2 (ucast c') t = Some w"
      and u: "u = (let ((rc, cap), x) = kcall K ?rd w in
        if rc = 0 \<and> (ucast cap :: u32) AND PCI_EXP_DEVCAP_FLR \<noteq> 0 then kcall_do K (Power Try_reset_function) x else x)"
      by (auto simp: exp_flr_def bind_eq_Some_conv c'_def case_prod_unfold Let_def)
    have tr: "trace w = trace t" by (rule vstore_trace [OF w])
    have "vload ?ctrl 2 u = Some (ucast c')"
      using vload_vstore_same [OF w] unfolding u by (simp add: case_prod_unfold Let_def)
    moreover have "(ucast (ucast c' :: u32) :: u16) AND PCI_EXP_DEVCTL_BCR_FLR = 0"
    proof -
      have "(ucast (ucast c' :: u32) :: u16) = c'" by (rule bit_word_eqI) (simp add: bit_ucast_iff)
      then show ?thesis by (simp add: c'_def and.assoc)
    qed
    moreover have "extends t u \<and> (Power Try_reset_function \<in> set (calls t u) \<longleftrightarrow>
       fst (respond K (trace t) ?rd) = 0 \<and> (ucast (snd (respond K (trace t) ?rd)) :: u32) AND PCI_EXP_DEVCAP_FLR \<noteq> 0)"
      unfolding u by (auto simp: kcall_simps tr case_prod_unfold Let_def extends_def calls_def new_events_def)
    ultimately show ?thesis using c False by (auto simp: flr_asked_def case_prod_unfold)
  qed
qed

lemma exp_readrq_keeps:
  assumes "exp_readrq K start rq u = Some v"
  shows "vload p n v = vload p n u" "emits (\<lambda>c. c = Power Pcie_get_mps \<or> (\<exists>x. c = Power (Pcie_set_readrq x))) u v"
  using assms by (auto simp: exp_readrq_def bind_eq_Some_conv Let_def case_prod_unfold split: if_splits)

text \<open>C24. A write to the PCI Express capability. Afterwards the function level reset bit of the virtual device
  control register is clear, whatever was written; and the driver resets the function exactly if the
  write left that bit set and the device capabilities register, read from the device, announces the
  reset.
\<close>

theorem exp_write_flr:
  assumes run: "vfio_exp_config_write K pos n perm offset val s = Some (ret, s')" and ret: "0 \<le> ret"
    and n: "n \<in> {1, 2, 4}" and start: "start = pos - offset"
  shows "\<exists>t. vfio_default_config_write K pos n perm offset val s = Some (ret, t) \<and>
    (\<exists>c. vload (start + PCI_EXP_DEVCTL) 2 s' = Some c \<and> (ucast c :: u16) AND PCI_EXP_DEVCTL_BCR_FLR = 0) \<and>
    (Power Try_reset_function \<in> set (calls s s') \<longleftrightarrow> flr_asked K start t)"
proof -
  from run ret start obtain t u rq where t: "vfio_default_config_write K pos n perm offset val s = Some (ret, t)"
    and u: "exp_flr K start t = Some u" and v: "exp_readrq K start rq u = Some s'"
    by (auto simp: vfio_exp_config_write_def bind_eq_Some_conv Let_def split: if_splits)
  note em = default_write_config_calls [OF t n] and flr = exp_flr_cases [OF u] and rq = exp_readrq_keeps [OF v]
  have ext: "extends s t" "extends t u" "extends u s'" using em flr rq(2) by (simp_all add: emits_def)
  have "calls s s' = calls s t @ calls t u @ calls u s'"
    using calls_trans [OF ext(1) extends_trans [OF ext(2,3)]] calls_trans [OF ext(2,3)] by simp
  moreover have "Power Try_reset_function \<notin> set (calls s t)" "Power Try_reset_function \<notin> set (calls u s')"
    using em rq(2) by (auto simp: emits_def)
  ultimately show ?thesis using t flr rq(1) by auto
qed

section \<open>MSI\<close>

lemma unat_ucast_8_16: "unat (ucast (q :: u8) :: u16) = unat q"
  using unsigned_less [of q, where 'a = nat] by (simp add: unsigned_ucast_eq take_bit_nat_eq_self_iff)

lemma and_not_or_and: "((f AND NOT m) OR x) AND m = x AND (m :: 'a::len word)"
  by (rule bit_word_eqI) (auto simp: bit_and_iff bit_or_iff bit_not_iff)

lemma clamped_queue:
  "drop_bit 4 (((f AND NOT PCI_MSI_FLAGS_QSIZE) OR push_bit 4 (ucast (q :: u8))) AND PCI_MSI_FLAGS_QSIZE)
    = (ucast q :: u16) AND 7"
proof -
  have "drop_bit 4 (push_bit 4 (ucast q)) = (ucast q :: u16)"
    by (rule bit_word_eqI) (auto simp: bit_drop_bit_eq bit_push_bit_iff bit_ucast_iff dest: bit_imp_le_length)
  then show ?thesis unfolding and_not_or_and by (simp add: drop_bit_and)
qed

lemma msi_flags_allowed_clamped:
  "unat (drop_bit 4 (msi_flags_allowed s flags AND PCI_MSI_FLAGS_QSIZE)) \<le> unat (msi_qmax s)"
proof -
  define f where "f = (if \<not> is_msi s then flags AND NOT PCI_MSI_FLAGS_ENABLE else flags)"
  have "unat ((ucast (msi_qmax s) :: u16) AND 7) \<le> unat (ucast (msi_qmax s) :: u16)"
    using word_and_le2 [of "ucast (msi_qmax s) :: u16" 7] by (simp only: word_le_nat_alt)
  then have "unat ((ucast (msi_qmax s) :: u16) AND 7) \<le> unat (msi_qmax s)" by (simp add: unat_ucast_8_16)
  then show ?thesis
    unfolding msi_flags_allowed_def Let_def f_def [symmetric]
    by (cases "unat (msi_qmax s) < unat (drop_bit 4 (f AND PCI_MSI_FLAGS_QSIZE))")
      (simp_all only: if_P if_not_P if_True if_False clamped_queue)
qed

lemma msi_flags_allowed_enable:
  assumes "\<not> is_msi s"
  shows "msi_flags_allowed s flags AND PCI_MSI_FLAGS_ENABLE = 0"
proof -
  have "bit (msi_flags_allowed s flags) 0 = False"
    using assms by (auto simp: msi_flags_allowed_def Let_def bit_and_iff bit_or_iff bit_not_iff bit_push_bit_iff)
  then show ?thesis by (simp add: and_one_eq bit_0 even_iff_mod_2_eq_zero)
qed

lemma default_write_irq:
  assumes "vfio_default_config_write K pos n perm offset val s = Some (ret, t)"
  shows "msi_qmax t = msi_qmax s" "irq_type t = irq_type s"
proof -
  have "msi_qmax (snd (write_physical K p m k v t)) = msi_qmax t"
    "irq_type (snd (write_physical K p m k v t)) = irq_type t" for p m k v t
    by (simp_all add: write_physical_def vfio_user_config_read_def vfio_user_config_write_def case_prod_unfold)
  moreover have "write_virtual p m k v s = Some t \<Longrightarrow> msi_qmax t = msi_qmax s \<and> irq_type t = irq_type s" for p m k v t
    by (auto simp: write_virtual_def vstore_def bind_eq_Some_conv split: if_splits)
  ultimately have "msi_qmax t = msi_qmax s \<and> irq_type t = irq_type s"
    using default_write_cases [OF assms, of thesis]
    by (rule_tac default_write_cases [OF assms]) (metis snd_conv)+
  then show "msi_qmax t = msi_qmax s" "irq_type t = irq_type s" by simp_all
qed

text \<open>C25. A write that covers the MSI flags. The device and the virtual register get the same flags, in one
  word write at the start of the capability; they enable MSI only if MSI was enabled through the ioctl,
  and ask for no more messages than were enabled there.
\<close>

theorem msi_write_clamps:
  assumes run: "vfio_msi_config_write K pos n perm offset val s = Some (ret, s')" and ret: "0 \<le> ret"
    and n: "n \<in> {1, 2, 4}" and covers: "offset \<le> PCI_MSI_FLAGS" "int PCI_MSI_FLAGS \<le> int offset + ret"
  shows "\<exists>start flags. vfio_find_cap_start s pos = Some start \<and>
    vload (start + PCI_MSI_FLAGS) 2 s' = Some (ucast flags) \<and>
    last (calls s s') = Config (User_write_config 2 (start + PCI_MSI_FLAGS) (ucast flags)) \<and>
    (\<not> is_msi s \<longrightarrow> flags AND PCI_MSI_FLAGS_ENABLE = (0 :: u16)) \<and>
    unat (drop_bit 4 (flags AND PCI_MSI_FLAGS_QSIZE)) \<le> unat (msi_qmax s)"
proof -
  from run ret obtain r t where t: "vfio_default_config_write K pos n perm offset val s = Some (r, t)"
    by (auto simp: vfio_msi_config_write_def bind_eq_Some_conv)
  from run t ret covers have r: "\<not> r < 0" and cov: "offset \<le> PCI_MSI_FLAGS \<and> int PCI_MSI_FLAGS \<le> int offset + r"
    by (auto simp: vfio_msi_config_write_def split: if_splits)
  from run t r cov obtain start rc where start: "vfio_find_cap_start t pos = Some start"
    and upd: "msi_flags_update K start t = Some (rc, s')"
    by (auto simp: vfio_msi_config_write_def bind_eq_Some_conv)
  from upd obtain f x where f: "vload (start + PCI_MSI_FLAGS) 2 t = Some f"
    and x: "vstore (start + PCI_MSI_FLAGS) 2 (ucast (msi_flags_allowed t (ucast f))) t = Some x"
    and s': "s' = snd (kcall_rc K (Config (User_write_config 2 (start + PCI_MSI_FLAGS)
        (ucast (msi_flags_allowed t (ucast f))))) x)"
    by (auto simp: msi_flags_update_def bind_eq_Some_conv Let_def)
  let ?fl = "msi_flags_allowed t (ucast f)"
  have "extends s t" using default_write_config_calls [OF t n] by (simp add: emits_def)
  then obtain es where es: "trace t = es @ trace s" by (auto simp: extends_def)
  have "calls s s' = map fst (rev es) @ [Config (User_write_config 2 (start + PCI_MSI_FLAGS) (ucast ?fl))]"
    by (subst calls_append [of s' "(Config (User_write_config 2 (start + PCI_MSI_FLAGS) (ucast ?fl)),
        respond K (trace x) (Config (User_write_config 2 (start + PCI_MSI_FLAGS) (ucast ?fl)))) # es"])
      (simp_all add: s' kcall_simps es vstore_trace [OF x])
  moreover have "vload (start + PCI_MSI_FLAGS) 2 s' = Some (ucast ?fl)"
    using vload_vstore_same [OF x] by (simp add: s')
  moreover have "vfio_find_cap_start s pos = Some start"
    using start find_cap_start_map [OF default_write_map [OF t]] by simp
  ultimately show ?thesis
    using default_write_irq [OF t] msi_flags_allowed_enable [of t "ucast f"] msi_flags_allowed_clamped [of t "ucast f"]
    by auto
qed


section \<open>Sizing a BAR\<close>

text \<open>
  A device with proper resources: every BAR in use has a size that is a multiple of 8. \<open>bar64\<close> says that
  a BAR takes two registers, \<open>bar_slot d j i\<close> that register \<open>i\<close> is the first one of a BAR when BARs are counted
  from register \<open>j\<close>.
\<close>

definition bars_sized :: "pci_dev \<Rightarrow> bool" where
  "bars_sized d \<longleftrightarrow> (\<forall>i < 6. pci_resource_start d i \<noteq> 0 \<longrightarrow> pci_resource_len d i AND 7 = 0)"

definition bar64 :: "pci_dev \<Rightarrow> nat \<Rightarrow> bool" where
  "bar64 d i \<longleftrightarrow> pci_resource_start d i \<noteq> 0 \<and> pci_resource_flags d i AND IORESOURCE_IO = 0 \<and>
     pci_resource_flags d i AND IORESOURCE_MEM_64 \<noteq> 0"

function bar_slot :: "pci_dev \<Rightarrow> nat \<Rightarrow> nat \<Rightarrow> bool" where
  "bar_slot d j i = (if 6 \<le> j then False else j = i \<or> bar_slot d (if bar64 d j then j + 2 else j + 1) i)"
  by auto
termination
proof (relation "measure (\<lambda>(d, j, i). 6 - j)", goal_cases)
  case (2 d j i)
  then show ?case by (cases "bar64 d j") auto
qed simp

declare bar_slot.simps [simp del]

lemma bar_slot_le: "bar_slot d j i \<Longrightarrow> j \<le> i \<and> i < 6"
proof (induction d j i rule: bar_slot.induct)
  case (1 d j i)
  from "1.prems" have "j < 6" "j = i \<or> bar_slot d (if bar64 d j then j + 2 else j + 1) i"
    by (simp_all add: bar_slot.simps [of d j] split: if_splits)
  with "1.IH" show ?case by (auto split: if_splits)
qed

lemma bar_mask_low:
  assumes "pci_resource_len d i AND 7 = 0"
  shows "\<not> bit (bar_mask d i) 2"
proof -
  let ?l = "pci_resource_len d i"
  have "take_bit 3 ?l = 0" using assms by (simp add: take_bit_eq_mask mask_eq_exp_minus_1)
  then have "?l = push_bit 3 (drop_bit 3 ?l)" using bits_ident [of 3 ?l] by simp
  then have "- ?l = push_bit 3 (- drop_bit 3 ?l)" by (simp add: push_bit_eq_mult)
  moreover have "bar_mask d i = - ?l" by (simp add: bar_mask_def minus_eq_not_minus_1)
  ultimately show ?thesis by (simp add: bit_push_bit_iff)
qed

lemma bar_value_64:
  assumes "bars_sized d" "i < 6" "pci_resource_start d i \<noteq> 0"
  shows "((v AND ucast (bar_mask d i)) OR vfio_generate_bar_flags d i) AND PCI_BASE_ADDRESS_MEM_TYPE_64 \<noteq> 0
    \<longleftrightarrow> bar64 d i"
proof -
  have four: "x AND PCI_BASE_ADDRESS_MEM_TYPE_64 \<noteq> 0 \<longleftrightarrow> bit x 2" for x :: u32
    using and_exp_eq_0_iff_not_bit [of x 2] by simp
  have "\<not> bit (bar_mask d i) 2" using assms by (intro bar_mask_low) (simp add: bars_sized_def)
  moreover have "bit (vfio_generate_bar_flags d i) 2 \<longleftrightarrow> bar64 d i"
    using assms(3) by (auto simp: vfio_generate_bar_flags_def bar64_def Let_def bit_or_iff)
  ultimately show ?thesis by (simp only: four bit_or_iff bit_and_iff bit_ucast_iff) auto
qed

text \<open>One round of the loop that fixes the BARs: an unused register, a BAR of one or one of two registers.\<close>

lemma bar_fixup_cases [consumes 4, case_names unused narrow wide]:
  assumes run: "bar_fixup_loop j s = Some s'" and j: "j < 6" and d: "pdev s = d" and sized: "bars_sized d"
  obtains t where "pci_resource_start d j = 0" "\<not> bar64 d j" "vstore (PCI_BASE_ADDRESS_0 + 4 * j) 4 0 s = Some t"
      "bar_fixup_loop (j + 1) t = Some s'"
  | v t where "pci_resource_start d j \<noteq> 0" "\<not> bar64 d j" "vload (PCI_BASE_ADDRESS_0 + 4 * j) 4 s = Some v"
      "vstore (PCI_BASE_ADDRESS_0 + 4 * j) 4 ((v AND ucast (bar_mask d j)) OR vfio_generate_bar_flags d j) s = Some t"
      "bar_fixup_loop (j + 1) t = Some s'"
  | v t w u where "pci_resource_start d j \<noteq> 0" "bar64 d j" "vload (PCI_BASE_ADDRESS_0 + 4 * j) 4 s = Some v"
      "vstore (PCI_BASE_ADDRESS_0 + 4 * j) 4 ((v AND ucast (bar_mask d j)) OR vfio_generate_bar_flags d j) s = Some t"
      "vload (PCI_BASE_ADDRESS_0 + 4 * j + 4) 4 t = Some w"
      "vstore (PCI_BASE_ADDRESS_0 + 4 * j + 4) 4 (w AND ucast (drop_bit 32 (bar_mask d j))) t = Some u"
      "bar_fixup_loop (j + 2) u = Some s'"
proof (cases "pci_resource_start d j = 0")
  case True
  then have "\<not> bar64 d j" by (simp add: bar64_def)
  moreover from run True j d obtain t where "vstore (PCI_BASE_ADDRESS_0 + 4 * j) 4 0 s = Some t"
      "bar_fixup_loop (j + 1) t = Some s'"
    by (auto simp: bar_fixup_loop.simps [of j s] bind_eq_Some_conv)
  ultimately show thesis using True that(1) by blast
next
  case False
  from run [unfolded bar_fixup_loop.simps [of j s]] False j d obtain v t
    where v: "vload (PCI_BASE_ADDRESS_0 + 4 * j) 4 s = Some v"
      and t: "vstore (PCI_BASE_ADDRESS_0 + 4 * j) 4 ((v AND ucast (bar_mask d j)) OR vfio_generate_bar_flags d j) s = Some t"
      and rest: "(if ((v AND ucast (bar_mask d j)) OR vfio_generate_bar_flags d j) AND PCI_BASE_ADDRESS_MEM_TYPE_64 \<noteq> 0 then do {
          w \<leftarrow> vload (PCI_BASE_ADDRESS_0 + 4 * j + 4) 4 t;
          u \<leftarrow> vstore (PCI_BASE_ADDRESS_0 + 4 * j + 4) 4 (w AND ucast (drop_bit 32 (bar_mask d j))) t;
          bar_fixup_loop (j + 2) u } else bar_fixup_loop (j + 1) t) = Some s'"
    by (simp add: bind_eq_Some_conv Let_def split del: if_split) blast
  show thesis
  proof (cases "bar64 d j")
    case True
    with rest bar_value_64 [OF sized j False, of v] obtain w u where "vload (PCI_BASE_ADDRESS_0 + 4 * j + 4) 4 t = Some w"
      "vstore (PCI_BASE_ADDRESS_0 + 4 * j + 4) 4 (w AND ucast (drop_bit 32 (bar_mask d j))) t = Some u"
      "bar_fixup_loop (j + 2) u = Some s'"
      by (auto simp only: if_True bind_eq_Some_conv)
    with False True v t that(3) show thesis by blast
  next
    case narrow: False
    with rest bar_value_64 [OF sized j False, of v] have "bar_fixup_loop (j + 1) t = Some s'"
      by (simp only: if_False)
    with False narrow v t that(2) show thesis by blast
  qed
qed

text \<open>The loop leaves the registers before the one it starts at alone.\<close>

lemma vstore_pdev: "vstore q n x s = Some t \<Longrightarrow> pdev t = pdev s"
  by (auto simp: vstore_def)

lemma bar_fixup_below:
  assumes "bar_fixup_loop j s = Some s'" "pdev s = d" "bars_sized d" "p + n \<le> PCI_BASE_ADDRESS_0 + 4 * j"
  shows "vload p n s' = vload p n s"
  using assms
proof (induction "6 - j" arbitrary: j s rule: less_induct)
  case less
  show ?case
  proof (cases "j < 6")
    case False
    with less.prems show ?thesis by (simp add: bar_fixup_loop.simps)
  next
    case True
    have step: "vload p n s' = vload p n t" if "bar_fixup_loop k t = Some s'" "j < k" "pdev t = d" for k t
      using less.hyps [of k t] that True less.prems(3,4) by (simp add: diff_less_mono2)
    have keep: "vload p n u = vload p n t" if "vstore q 4 x t = Some u" "PCI_BASE_ADDRESS_0 + 4 * j \<le> q" for q x t u
      using vload_vstore_other [OF that(1), of p n] that(2) less.prems(4) by simp
    from less.prems(1) True less.prems(2,3) show ?thesis
    proof (cases rule: bar_fixup_cases)
      case (unused t)
      with step [of "j + 1" t] keep [of _ 0 s t] less.prems(2) show ?thesis by (auto dest: vstore_pdev)
    next
      case (narrow v t)
      with step [of "j + 1" t] keep [OF narrow(4)] less.prems(2) show ?thesis by (auto dest: vstore_pdev)
    next
      case (wide v t w u)
      with step [of "j + 2" u] keep [OF wide(4)] keep [OF wide(6)] less.prems(2) show ?thesis
        by (auto dest!: vstore_pdev)
    qed
  qed
qed

lemma bar_fixup_slot:
  assumes "bar_fixup_loop j s = Some s'" "pdev s = d" "bars_sized d" "bar_slot d j i"
    "pci_resource_start d i \<noteq> 0" "vload (PCI_BASE_ADDRESS_0 + 4 * i) 4 s = Some v"
  shows "vload (PCI_BASE_ADDRESS_0 + 4 * i) 4 s' =
    Some ((v AND ucast (bar_mask d i)) OR vfio_generate_bar_flags d i)"
  using assms
proof (induction "6 - j" arbitrary: j s rule: less_induct)
  case less
  let ?i = "PCI_BASE_ADDRESS_0 + 4 * i"
  have j: "j < 6" "j = i \<or> bar_slot d (if bar64 d j then j + 2 else j + 1) i"
    using less.prems(4) by (simp_all add: bar_slot.simps [of _ j] split: if_splits)
  have rest: "vload ?i 4 s' = Some ((v AND ucast (bar_mask d i)) OR vfio_generate_bar_flags d i)"
    if "bar_fixup_loop k t = Some s'" "pdev t = d" "j < k" "bar_slot d k i" "vload ?i 4 t = vload ?i 4 s" for k t
    using less.hyps [of k t] that j less.prems by (simp add: diff_less_mono2)
  have kept: "vload ?i 4 u = vload ?i 4 t" if "vstore q 4 x t = Some u" "q + 4 \<le> ?i" for q x t u
    using vload_vstore_other [OF that(1), of ?i 4] that(2) by simp
  have stays: "vload ?i 4 s' = Some x" if "bar_fixup_loop k u = Some s'" "pdev u = d" "i < k"
    "vload ?i 4 u = Some x" for k u x
    using bar_fixup_below [OF that(1,2) less.prems(3), of ?i 4] that(3,4) by simp
  from less.prems(1) j(1) less.prems(2,3) show ?case
  proof (cases rule: bar_fixup_cases)
    case (unused t)
    then have slot: "bar_slot d (j + 1) i" using j(2) less.prems(5) by auto
    then have "j < i" using bar_slot_le by fastforce
    with kept [OF unused(3)] rest [OF unused(4) _ _ slot] vstore_pdev [OF unused(3)] less.prems(2) show ?thesis by simp
  next
    case (narrow w t)
    show ?thesis
    proof (cases "j = i")
      case True
      with narrow less.prems(2,6) vload_vstore_same [OF narrow(4)] vstore_pdev [OF narrow(4)] show ?thesis
        by (intro stays [of "j + 1" t]) simp_all
    next
      case False
      then have slot: "bar_slot d (j + 1) i" using j(2) narrow(2) by simp
      then have "j < i" using bar_slot_le by fastforce
      with kept [OF narrow(4)] rest [OF narrow(5) _ _ slot] vstore_pdev [OF narrow(4)] less.prems(2) show ?thesis by simp
    qed
  next
    case (wide w t x u)
    show ?thesis
    proof (cases "j = i")
      case True
      have "vload ?i 4 u = vload ?i 4 t"
        using vload_vstore_other [OF wide(6), of ?i 4] True by simp
      with True wide less.prems(2,6) vload_vstore_same [OF wide(4)] vstore_pdev [OF wide(4)] vstore_pdev [OF wide(6)]
      show ?thesis by (intro stays [of "j + 2" u]) simp_all
    next
      case False
      then have slot: "bar_slot d (j + 2) i" using j(2) wide(2) by simp
      then have "j + 1 < i" using bar_slot_le by fastforce
      with kept [OF wide(4)] kept [OF wide(6)] rest [OF wide(7) _ _ slot] vstore_pdev [OF wide(4)]
        vstore_pdev [OF wide(6)] less.prems(2)
      show ?thesis by simp
    qed
  qed
qed

lemma copy_low_4: "copy_low old 4 w = w"
  by (rule bit_word_eqI) (auto simp: bit_copy_low)

lemma basic_table_bar: 
  assumes "i < 6"
  shows "load (pvirt basic_table) (PCI_BASE_ADDRESS_0 + 4 * i) 4 = Some (- 1)"
    "load (pwrite basic_table) (PCI_BASE_ADDRESS_0 + 4 * i) 4 = Some (- 1)"
proof -
  have "list_all (\<lambda>i. load (pvirt basic_table) (PCI_BASE_ADDRESS_0 + 4 * i) 4 = Some (- 1) \<and>
      load (pwrite basic_table) (PCI_BASE_ADDRESS_0 + 4 * i) 4 = Some (- 1)) [0..<6]"
    by code_simp
  with assms show "load (pvirt basic_table) (PCI_BASE_ADDRESS_0 + 4 * i) 4 = Some (- 1)"
    "load (pwrite basic_table) (PCI_BASE_ADDRESS_0 + 4 * i) 4 = Some (- 1)"
    by (simp_all only: list_all_iff set_upt atLeastLessThan_iff) simp_all
qed

text \<open>C23. Sizing a BAR. Whatever the user writes to a BAR in use reads back with the bits below the size of
  the resource replaced by the flags of the resource, so that writing ones and reading back tells the
  size; and neither access reaches the device.
\<close>

theorem bar_sizing:
  assumes sized: "bars_sized (pdev s)" and slot: "bar_slot (pdev s) 0 i" and used: "pci_resource_start (pdev s) i \<noteq> 0"
    and len: "64 \<le> length (vconfig s)"
  shows "\<exists>t u. vfio_basic_config_write K (PCI_BASE_ADDRESS_0 + 4 * i) 4 basic_table (PCI_BASE_ADDRESS_0 + 4 * i) val s
      = Some (4, t) \<and>
    vfio_basic_config_read K (PCI_BASE_ADDRESS_0 + 4 * i) 4 basic_table (PCI_BASE_ADDRESS_0 + 4 * i) old t
      = Some (4, (val AND ucast (bar_mask (pdev s) i)) OR vfio_generate_bar_flags (pdev s) i, u) \<and>
    trace u = trace s"
proof -
  let ?b = "PCI_BASE_ADDRESS_0 + 4 * i"
  let ?x = "(val AND ucast (bar_mask (pdev s) i)) OR vfio_generate_bar_flags (pdev s) i"
  have i: "i < 6" using bar_slot_le [OF slot] by simp
  note table = basic_table_bar [OF i]
  have b: "is_bar ?b" "?b \<noteq> PCI_COMMAND" "\<not> ?b \<le> PCI_COMMAND + 1" using i by (auto simp: is_bar_def)
  have room: "?b + 4 \<le> length (vconfig s)" using i len by simp
  obtain v where v: "vload ?b 4 s = Some v" using vload_in [OF room] by blast
  obtain t where t: "vstore ?b 4 val s = Some t" using vstore_ex [OF room] by blast
  have wr: "vfio_basic_config_write K ?b 4 basic_table ?b val s = Some (4, t\<lparr>bardirty := True\<rparr>)"
    using b v t by (simp add: vfio_basic_config_write_def vfio_default_config_write_def table write_virtual_def
        write_physical_def)
  have ts: "pdev t = pdev s" "length (vconfig t) = length (vconfig s)" "trace t = trace s"
    using t by (auto simp: vstore_def dest: length_store)
  let ?t = "t\<lparr>bardirty := True\<rparr>"
  obtain u where u: "vfio_bar_fixup ?t = Some u" using bar_fixup_post [of ?t] len ts(2) by auto
  then obtain w y w' where w: "bar_fixup_loop 0 ?t = Some w" and y: "vstore PCI_ROM_ADDRESS 4 y w = Some w'"
    and u': "u = w'\<lparr>bardirty := False\<rparr>"
    unfolding vfio_bar_fixup_def bind_eq_Some_conv by (auto split: if_splits)
  have "vload ?b 4 ?t = Some val" using vload_vstore_same [OF t] by (simp add: vload_def)
  from bar_fixup_slot [OF w _ sized slot used this] have "vload ?b 4 w = Some ?x" using ts(1) by simp
  with vload_vstore_other [OF y, of ?b 4] i u' have x: "vload ?b 4 u = Some ?x" by (simp add: vload_def)
  have "vfio_default_config_read K ?b 4 basic_table ?b old u = Some (4, ?x, u)"
    by (simp add: vfio_default_config_read_def x table Let_def copy_low_4)
  with wr u b bar_fixup_trace [OF u] ts(3) show ?thesis
    by (simp add: vfio_basic_config_read_def)
qed

section \<open>Errors\<close>

text \<open>C26. The MSI read handler updates the wrong word. On a read that covers the MSI flags it means to put
  the number of messages the user may ask for into the flags, but it stores it into the first word of
  the capability, the identifier and the pointer to the next one; the flags keep what they were.
\<close>

theorem msi_read_misplaces_queue_size:
  assumes run: "vfio_msi_config_read K pos n perm offset val s = Some (ret, v, s')"
    and covers: "offset \<le> PCI_MSI_FLAGS" "PCI_MSI_FLAGS \<le> offset + n"
  shows "\<exists>start w. vfio_find_cap_start s pos = Some start \<and> vload start 2 s = Some w \<and>
    vload start 2 s' = Some (ucast ((ucast w AND NOT PCI_MSI_FLAGS_QMASK) OR push_bit 1 (ucast (msi_qmax s) :: u16))) \<and>
    vload (start + PCI_MSI_FLAGS) 2 s' = vload (start + PCI_MSI_FLAGS) 2 s"
proof -
  define f where "f w = (ucast (w :: u32) AND NOT PCI_MSI_FLAGS_QMASK) OR push_bit 1 (ucast (msi_qmax s) :: u16)" for w
  from run covers obtain start w t where st: "vfio_find_cap_start s pos = Some start" and w: "vload start 2 s = Some w"
    and t: "vstore start 2 (ucast (f w)) s = Some t"
    and rd: "vfio_default_config_read K pos n perm offset val t = Some (ret, v, s')"
    by (auto simp: vfio_msi_config_read_def bind_eq_Some_conv Let_def f_def)
  have "vconfig s' = vconfig t"
    using rd by (auto simp: vfio_default_config_read_def bind_eq_Some_conv vfio_user_config_read_def
        Let_def case_prod_unfold split: if_splits)
  then have "vload p k s' = vload p k t" for p k by (simp add: vload_def)
  with st w vload_vstore_same [OF t] vload_vstore_other [OF t, of "start + PCI_MSI_FLAGS" 2] show ?thesis
    by (simp add: f_def)
qed

text \<open>C27. A capability with identifier zero. The map marks its bytes as those of the header, whose table of
  64 entries is then read beyond its end.
\<close>

theorem null_capability_is_undefined:
  assumes mapped: "nth_opt (pci_config_map s) p = Some 0" and p: "64 \<le> p" "p < 256"
    and inside: "p < cfg_size (pdev s)" "word_of_int (int p) + count \<le> (word_of_nat (cfg_size (pdev s)) :: u64)"
  shows "vfio_config_do_rw K ready_tables False buf count (int p) s = None"
proof -
  have len: "length (pvirt basic_table) = 64" by code_simp
  have rd: "vfio_basic_config_read K p n basic_table p val s = None" if "0 < n" for n val
  proof -
    have "load (pvirt basic_table) p n = None" using len p that by simp
    then show ?thesis using p
      by (simp add: vfio_basic_config_read_def vfio_default_config_read_def is_bar_def Let_def bind_eq_None_conv)
  qed
  have perm: "config_perm ready_tables s p = Some (basic_table, 0)"
    using mapped p by (simp add: config_perm_def ready_tables_def nth_opt_def)
  have "preadfn basic_table = Some Basic_config_read" by code_simp
  then have chunk: "config_chunk K False buf p n basic_table 0 s = None" if "0 < n" for n
    using rd [OF that] by (simp add: config_chunk_def)
  have "0 < fill_size p x" for x by (simp add: fill_size_def)
  then show ?thesis using inside perm chunk
    by (cases "vfio_pci_cap_remaining_dword s p") (simp_all add: vfio_config_do_rw_def Let_def)
qed

section \<open>The properties at work\<close>

text \<open>A device whose virtual configuration space holds the sample capabilities.\<close>

definition sample_caps_device :: vfio_pci_device where
  "sample_caps_device = sample_device\<lparr>vconfig := sample_cfg,
     pci_config_map := replicate 64 0 @ replicate 8 1 @ replicate 16 5 @ replicate 8 0 @ replicate 160 0xff\<rparr>"

theorem exp_write_flr_witness:
  "\<exists>s'. vfio_exp_config_write (sample_kernel sample_cfg) 0x78 2 exp_table 8 0xa810 sample_caps_device = Some (2, s') \<and>
     (\<exists>c. vload 0x78 2 s' = Some c \<and> (ucast c :: u16) AND PCI_EXP_DEVCTL_BCR_FLR = 0) \<and>
     Power Try_reset_function \<in> set (calls sample_caps_device s')"
proof -
  let ?w = "\<lambda>f. f (sample_kernel sample_cfg) 0x78 2 exp_table 8 0xa810 sample_caps_device"
  have "case ?w vfio_exp_config_write of Some (ret, t) \<Rightarrow> ret = 2 | None \<Rightarrow> False"
    "case ?w vfio_default_config_write of Some (ret, t) \<Rightarrow> flr_asked (sample_kernel sample_cfg) 0x70 t | None \<Rightarrow> False"
    by code_simp+
  then obtain s' ret t where run: "?w vfio_exp_config_write = Some (2, s')"
    and t: "?w vfio_default_config_write = Some (ret, t)" "flr_asked (sample_kernel sample_cfg) 0x70 t"
    by (auto split: option.splits)
  from exp_write_flr [OF run] t run show ?thesis by auto
qed

theorem msi_write_clamps_witness:
  "\<exists>s' flags. vfio_msi_config_write (sample_kernel sample_cfg) 0x4a 2 (zero_table 24\<lparr>pvirt := replicate 24 0xff,
       pwrite := replicate 24 0xff\<rparr>) 2 0x71 sample_caps_device = Some (2, s') \<and>
     last (calls sample_caps_device s') = Config (User_write_config 2 0x4a (ucast flags)) \<and>
     flags AND PCI_MSI_FLAGS_ENABLE = (0 :: u16) \<and> unat (drop_bit 4 (flags AND PCI_MSI_FLAGS_QSIZE)) = 0"
proof -
  let ?p = "zero_table 24\<lparr>pvirt := replicate 24 0xff, pwrite := replicate 24 0xff\<rparr>"
  have "case vfio_msi_config_write (sample_kernel sample_cfg) 0x4a 2 ?p 2 0x71 sample_caps_device of
      Some (ret, t) \<Rightarrow> ret = 2 | None \<Rightarrow> False"
    by code_simp
  then obtain s' where run: "vfio_msi_config_write (sample_kernel sample_cfg) 0x4a 2 ?p 2 0x71 sample_caps_device
      = Some (2, s')"
    by (auto split: option.splits)
  have start: "vfio_find_cap_start sample_caps_device 0x4a = Some 0x48" "\<not> is_msi sample_caps_device"
    "msi_qmax sample_caps_device = 0"
    by code_simp+
  from msi_write_clamps [OF run] start run show ?thesis by auto
qed

theorem bar_sizing_witness:
  "\<exists>t u. vfio_basic_config_write (sample_kernel sample_cfg) 0x10 4 basic_table 0x10 (- 1) sample_caps_device
      = Some (4, t) \<and>
    vfio_basic_config_read (sample_kernel sample_cfg) 0x10 4 basic_table 0x10 0 t = Some (4, 0xfffff000, u)"
proof -
  let ?d = "pdev sample_caps_device"
  have "bars_sized ?d" by (auto simp: bars_sized_def sample_caps_device_def sample_device_def sample_pdev_def)
  moreover have "bar_slot ?d 0 0" by (simp add: bar_slot.simps)
  moreover have "pci_resource_start ?d 0 \<noteq> 0" "64 \<le> length (vconfig sample_caps_device)"
    "((- 1) AND ucast (bar_mask ?d 0)) OR vfio_generate_bar_flags ?d 0 = 0xfffff000"
    by code_simp+
  ultimately show ?thesis
    using bar_sizing [of sample_caps_device 0 "sample_kernel sample_cfg" "- 1" 0] by auto
qed

theorem msi_read_misplaces_queue_size_witness:
  "\<exists>v s'. vfio_msi_config_read (sample_kernel sample_cfg) 0x4a 2 (zero_table 24) 2 0 (sample_caps_device\<lparr>msi_qmax := 5\<rparr>)
      = Some (2, v, s') \<and> vload 0x48 2 s' = Some 0x600b \<and> vload 0x4a 2 s' = Some 0x88"
proof -
  let ?s = "sample_caps_device\<lparr>msi_qmax := 5\<rparr>"
  have "case vfio_msi_config_read (sample_kernel sample_cfg) 0x4a 2 (zero_table 24) 2 0 ?s of
      Some (ret, v, t) \<Rightarrow> ret = 2 | None \<Rightarrow> False"
    by code_simp
  then obtain v s' where run: "vfio_msi_config_read (sample_kernel sample_cfg) 0x4a 2 (zero_table 24) 2 0 ?s = Some (2, v, s')"
    by (auto split: option.splits)
  have start: "vfio_find_cap_start ?s 0x4a = Some 0x48" "vload 0x48 2 ?s = Some 0x6005" "vload 0x4a 2 ?s = Some 0x88"
    "msi_qmax ?s = 5"
    by code_simp+
  from msi_read_misplaces_queue_size [OF run] start run show ?thesis by auto
qed

theorem null_capability_witness:
  "vfio_config_do_rw (sample_kernel sample_cfg) ready_tables False 0 4 0x58 sample_caps_device = None"
proof -
  have "nth_opt (pci_config_map sample_caps_device) 0x58 = Some 0" "0x58 < cfg_size (pdev sample_caps_device)"
    "word_of_int (int 0x58) + 4 \<le> (word_of_nat (cfg_size (pdev sample_caps_device)) :: u64)"
    by code_simp+
  from null_capability_is_undefined [OF this(1) _ _ this(2,3)] show ?thesis by simp
qed

end
