(* ===== verification/Rdwr.thy ===== *)
theory Rdwr
  imports Config_RW
begin

text \<open>
  Access to the BARs, the expansion ROM and the legacy VGA ranges, and writes bound to an eventfd:
  \<^verbatim>\<open>src/device/vfio_pci_rdwr.c\<close>. Offsets and counts inside a region are \<open>nat\<close>: every caller of \<^verbatim>\<open>do_io_rw\<close>
  has cut them to the region, so that the 64-bit arithmetic of the C code cannot wrap. The end of the
  excluded range is computed in 32 bits, as in the code.
\<close>

section \<open>Reads and writes with an excluded range\<close>

definition io_fillable :: "nat \<Rightarrow> nat \<Rightarrow> nat \<Rightarrow> nat \<Rightarrow> nat" where
  "io_fillable off count x_start x_end =
     (if off < x_start then min count (x_start - off) else if x_end \<le> off then count else 0)"

text \<open>One access of \<open>n\<close> bytes.\<close>

definition io_access ::
    "kernel \<Rightarrow> int \<Rightarrow> nat \<Rightarrow> nat \<Rightarrow> nat \<Rightarrow> bool \<Rightarrow> vfio_pci_device \<Rightarrow> int \<times> vfio_pci_device" where
  "io_access K io buf off n iswrite s =
     (if iswrite then
        (case copy_from_user K buf n s of (rc, val, s) \<Rightarrow>
           if rc \<noteq> 0 then (- EFAULT, s)
           else (0, kcall_do K (Io (Iowrite n (io + int off) (ucast val))) s))
      else
        (case kcall K (Io (Ioread n (io + int off))) s of ((_, v), s) \<Rightarrow>
           case copy_to_user K buf n (ucast v) s of (rc, s) \<Rightarrow>
             (if rc \<noteq> 0 then - EFAULT else 0, s)))"

text \<open>Bytes of the excluded range read as ones.\<close>

fun fill_ones :: "kernel \<Rightarrow> nat \<Rightarrow> nat \<Rightarrow> vfio_pci_device \<Rightarrow> int \<times> vfio_pci_device" where
  "fill_ones K buf 0 s = (0, s)"
| "fill_ones K buf (Suc n) s =
     (case copy_to_user K buf 1 0xff s of (rc, s) \<Rightarrow>
        if rc \<noteq> 0 then (- EFAULT, s) else fill_ones K (buf + 1) n s)"

definition io_step ::
    "kernel \<Rightarrow> int \<Rightarrow> nat \<Rightarrow> nat \<Rightarrow> nat \<Rightarrow> nat \<Rightarrow> nat \<Rightarrow> bool \<Rightarrow> vfio_pci_device
      \<Rightarrow> int \<times> nat \<times> vfio_pci_device" where
  "io_step K io buf off count x_start x_end iswrite s =
     (let fillable = io_fillable off count x_start x_end in
      if 0 < fillable then
        (let n = fill_size off fillable in
         case io_access K io buf off n iswrite s of (err, s) \<Rightarrow> (err, n, s))
      else
        (let filled = min count (x_end - off) in
         if iswrite then (0, filled, s)
         else case fill_ones K buf filled s of (err, s) \<Rightarrow> (err, filled, s)))"

lemma io_step_progress:
  assumes "0 < count"
  shows "0 < fst (snd (io_step K io buf off count xs xe iswrite s)) \<and>
    fst (snd (io_step K io buf off count xs xe iswrite s)) \<le> count"
  using assms fill_size_pos(1) [of off] fill_size_pos(2) [of "io_fillable off count xs xe" off]
  by (auto simp: io_step_def Let_def case_prod_unfold io_fillable_def split: if_splits)

function do_io_rw ::
    "kernel \<Rightarrow> int \<Rightarrow> nat \<Rightarrow> nat \<Rightarrow> nat \<Rightarrow> nat \<Rightarrow> nat \<Rightarrow> bool \<Rightarrow> nat \<Rightarrow> vfio_pci_device
      \<Rightarrow> int \<times> vfio_pci_device" where
  "do_io_rw K io buf off count x_start x_end iswrite done s =
     (if count = 0 then (int done, s)
      else case io_step K io buf off count x_start x_end iswrite s of (err, filled, s) \<Rightarrow>
        if err \<noteq> 0 then (err, s)
        else do_io_rw K io (buf + filled) (off + filled) (count - filled) x_start x_end iswrite
               (done + filled) s)"
  by auto
termination
proof (relation "measure (\<lambda>(K, io, buf, off, count, xs, xe, iswrite, d, s). count)", goal_cases)
  case 1
  show ?case by simp
next
  case (2 K io buf off count xs xe iswrite d s x err filled s')
  then have "fst (snd (io_step K io buf off count xs xe iswrite s)) = filled" "0 < count"
    by (auto dest: sym [of "(_, _, _)"])
  with io_step_progress [of count K io buf off xs xe iswrite s] show ?case by simp
qed

declare do_io_rw.simps [simp del]

section \<open>BARs\<close>

text \<open>A BAR number outside of the array \<open>barmap\<close> is undefined.\<close>

definition vfio_pci_setup_barmap ::
    "kernel \<Rightarrow> nat \<Rightarrow> vfio_pci_device \<Rightarrow> (int \<times> vfio_pci_device) option" where
  "vfio_pci_setup_barmap K bar s =
     (if PCI_STD_RESOURCE_END < bar then None
      else if barmap s bar \<noteq> None then Some (0, s)
      else case kcall_rc K (Io (Request_selected_regions bar)) s of (ret, s) \<Rightarrow>
        if ret \<noteq> 0 then Some (ret, s)
        else case kcall_rc K (Io (Iomap bar)) s of (io, s) \<Rightarrow>
          if io = 0 then Some (- ENOMEM, kcall_do K (Io (Release_selected_regions bar)) s)
          else Some (0, s\<lparr>barmap := (barmap s)(bar := Some io)\<rparr>))"

text \<open>The excluded range of a BAR, and its size; \<open>None\<close> if there is no BAR.\<close>

definition msix_range :: "vfio_pci_device \<Rightarrow> nat \<times> nat" where
  "msix_range s = (unat (msix_offset s), unat (msix_offset s + ucast (msix_size s)))"

definition bar_end :: "vfio_pci_device \<Rightarrow> nat \<Rightarrow> nat option" where
  "bar_end s bar =
     (if pci_resource_start (pdev s) bar \<noteq> 0 then Some (unat (pci_resource_len (pdev s) bar))
      else if bar = PCI_ROM_RESOURCE \<and> pci_resource_flags (pdev s) bar AND IORESOURCE_ROM_SHADOW \<noteq> 0
      then Some 0x20000 else None)"

text \<open>
  The part of \<^verbatim>\<open>vfio_pci_bar_rw\<close> before the transfer: the address and the excluded range.
\<close>

definition bar_window ::
    "kernel \<Rightarrow> nat \<Rightarrow> nat \<Rightarrow> vfio_pci_device \<Rightarrow> (int \<times> int \<times> (nat \<times> nat) \<times> vfio_pci_device) option" where
  "bar_window K bar e s =
     (if bar = PCI_ROM_RESOURCE then
        (case kcall K (Io Map_rom) s of ((io, sz), s) \<Rightarrow>
           Some (if io = 0 then - ENOMEM else 0, io, (unat sz, e), s))
      else do {
        (ret, s) \<leftarrow> vfio_pci_setup_barmap K bar s;
        Some (ret, case barmap s bar of None \<Rightarrow> 0 | Some io \<Rightarrow> io, (0, 0), s) })"

text \<open>The result is the return value, the new file position and the state.\<close>

definition vfio_pci_bar_rw ::
    "kernel \<Rightarrow> nat \<Rightarrow> u64 \<Rightarrow> int \<Rightarrow> bool \<Rightarrow> vfio_pci_device
      \<Rightarrow> (int \<times> int \<times> vfio_pci_device) option" where
  "vfio_pci_bar_rw K buf count ppos iswrite s =
     (let pos = nat (ppos AND VFIO_PCI_OFFSET_MASK);
          bar = VFIO_PCI_OFFSET_TO_INDEX ppos in
      if bar < 0 then None
      else case bar_end s (nat bar) of
        None \<Rightarrow> Some (- EINVAL, ppos, s)
      | Some end \<Rightarrow>
          if end \<le> pos then Some (- EINVAL, ppos, s)
          else do {
            let bar = nat bar;
            let count = min (unat count) (end - pos);
            (err, io, range, s) \<leftarrow> bar_window K bar end s;
            if err \<noteq> 0 then Some (err, ppos, s)
            else do {
              let (x_start, x_end) = (if bar = unat (msix_bar s) then msix_range s else range);
              let (ret, s) = do_io_rw K io buf pos count x_start x_end iswrite 0 s;
              Some (ret, if 0 \<le> ret then ppos + ret else ppos,
                if bar = PCI_ROM_RESOURCE then kcall_do K (Io (Unmap_rom io)) s else s) } })"

section \<open>The legacy VGA ranges\<close>

text \<open>The range a position falls into: its start, its end, and whether it is a port range.\<close>

definition vga_range :: "nat \<Rightarrow> (nat \<times> nat \<times> bool) option" where
  "vga_range pos =
     (if 0xa0000 \<le> pos \<and> pos \<le> 0xbffff then Some (0xa0000, 0xc0000, False)
      else if 0x3b0 \<le> pos \<and> pos \<le> 0x3bb then Some (0x3b0, 0x3bc, True)
      else if 0x3c0 \<le> pos \<and> pos \<le> 0x3df then Some (0x3c0, 0x3e0, True)
      else None)"

definition vga_unmap :: "kernel \<Rightarrow> bool \<Rightarrow> int \<Rightarrow> vfio_pci_device \<Rightarrow> vfio_pci_device" where
  "vga_unmap K is_ioport iomem = kcall_do K (Io (if is_ioport then Ioport_unmap iomem else Iounmap iomem))"

definition vfio_pci_vga_rw ::
    "kernel \<Rightarrow> nat \<Rightarrow> u64 \<Rightarrow> int \<Rightarrow> bool \<Rightarrow> vfio_pci_device \<Rightarrow> int \<times> int \<times> vfio_pci_device" where
  "vfio_pci_vga_rw K buf count ppos iswrite s =
     (let pos = nat (ppos AND VFIO_PCI_OFFSET_MASK) in
      if \<not> has_vga s then (- EINVAL, ppos, s)
      else if 0xbffff < pos then (- EINVAL, ppos, s)
      else case vga_range pos of
        None \<Rightarrow> (- EINVAL, ppos, s)
      | Some (lo, hi, is_ioport) \<Rightarrow>
          let count = min (unat count) (hi - pos);
              rsrc = (if is_ioport then VGA_RSRC_LEGACY_IO else VGA_RSRC_LEGACY_MEM) in
          case kcall_rc K (Io (if is_ioport then Ioport_map lo (hi - lo) else Ioremap_nocache lo (hi - lo))) s of
            (iomem, s) \<Rightarrow>
              if iomem = 0 then (- ENOMEM, ppos, s)
              else case kcall_rc K (Io (Vga_get rsrc)) s of (ret, s) \<Rightarrow>
                if ret \<noteq> 0 then (ret, ppos, vga_unmap K is_ioport iomem s)
                else case do_io_rw K iomem buf (pos - lo) count 0 0 iswrite 0 s of (ret, s) \<Rightarrow>
                  let s = vga_unmap K is_ioport iomem (kcall_do K (Io (Vga_put rsrc)) s) in
                  (ret, if 0 \<le> ret then ppos + ret else ppos, s))"

section \<open>Writes bound to an eventfd\<close>

abbreviation (input) VFIO_PCI_IOEVENTFD_MAX :: nat where "VFIO_PCI_IOEVENTFD_MAX \<equiv> 1000"

text \<open>What runs when the eventfd fires: a write of the low bytes of the data.\<close>

definition vfio_pci_ioeventfd_handler ::
    "kernel \<Rightarrow> vfio_pci_ioeventfd \<Rightarrow> vfio_pci_device \<Rightarrow> vfio_pci_device" where
  "vfio_pci_ioeventfd_handler K e s =
     (if ioev_count e \<in> {1, 2, 4} \<or> ioev_count e = 8 \<and> has_iowrite64 K
      then kcall_do K (Io (Iowrite (ioev_count e) (ioev_addr e) (take_bit (8 * ioev_count e) (ioev_data e)))) s
      else s)"

definition ioev_matches :: "int \<Rightarrow> nat \<Rightarrow> u64 \<Rightarrow> nat \<Rightarrow> vfio_pci_ioeventfd \<Rightarrow> bool" where
  "ioev_matches pos bar data count e \<longleftrightarrow>
     ioev_pos e = pos \<and> ioev_bar e = bar \<and> ioev_data e = data \<and> ioev_count e = count"

text \<open>The list walk with the lock held, and the addition of an entry.\<close>

definition ioeventfd_update ::
    "kernel \<Rightarrow> nat \<Rightarrow> nat \<Rightarrow> u64 \<Rightarrow> nat \<Rightarrow> int \<Rightarrow> vfio_pci_device \<Rightarrow> (int \<times> vfio_pci_device) option" where
  "ioeventfd_update K pos bar data count fd s =
     (let same = ioev_matches (int pos) bar data count in
      case List.extract same (ioeventfds_list s) of
        Some (before, e, after) \<Rightarrow>
          if fd = - 1 then
            (let s = kcall_do K (Evt (Virqfd_disable (Some (ioev_virqfd e)))) s in
             Some (0, s\<lparr>ioeventfds_list := before @ after, ioeventfds_nr := ioeventfds_nr s - 1\<rparr>))
          else Some (- EEXIST, s)
      | None \<Rightarrow>
          if fd < 0 then Some (- ENODEV, s)
          else if VFIO_PCI_IOEVENTFD_MAX \<le> ioeventfds_nr s then Some (- ENOSPC, s)
          else case kcall_rc K (Mem Alloc) s of (p, s) \<Rightarrow>
            if p = 0 then Some (- ENOMEM, s)
            else do {
              io \<leftarrow> barmap s bar;
              let ((ret, h), s) = kcall K (Evt (Virqfd_enable Virqfd_ioeventfd fd)) s;
              if ret \<noteq> 0 then Some (ret, s)
              else
                let e = \<lparr>ioev_virqfd = uint h, ioev_addr = io + int pos, ioev_data = data,
                         ioev_pos = int pos, ioev_bar = bar, ioev_count = count\<rparr> in
                Some (0, s\<lparr>ioeventfds_list := e # ioeventfds_list s,
                          ioeventfds_nr := ioeventfds_nr s + 1\<rparr>) })"

text \<open>A negative BAR number is below the array of resources and undefined.\<close>

definition vfio_pci_ioeventfd ::
    "kernel \<Rightarrow> int \<Rightarrow> u64 \<Rightarrow> nat \<Rightarrow> int \<Rightarrow> vfio_pci_device \<Rightarrow> (int \<times> vfio_pci_device) option" where
  "vfio_pci_ioeventfd K offset data count fd s =
     (let pos = nat (offset AND VFIO_PCI_OFFSET_MASK);
          bar = VFIO_PCI_OFFSET_TO_INDEX offset in
      if int VFIO_PCI_BAR5_REGION_INDEX < bar then Some (- EINVAL, s)
      else if bar < 0 then None
      else let bar = nat bar in
        if unat (pci_resource_len (pdev s) bar) < pos + count then Some (- EINVAL, s)
        else if bar = unat (msix_bar s) \<and>
            \<not> (pos + count \<le> fst (msix_range s) \<or> snd (msix_range s) \<le> pos) then Some (- EINVAL, s)
        else if count = 8 \<and> \<not> has_iowrite64 K then Some (- EINVAL, s)
        else do {
          (ret, s) \<leftarrow> vfio_pci_setup_barmap K bar s;
          if ret \<noteq> 0 then Some (ret, s)
          else ioeventfd_update K pos bar data count fd s })"

end
