(* ===== verification/Rdwr_Safe.thy ===== *)
theory Rdwr_Safe
  imports Rdwr Samples
begin

text \<open>
  Facts about the loop of \<^verbatim>\<open>Rdwr\<close>: which accesses of mapped I/O it makes, and that it transfers what an
  access byte by byte would transfer.
\<close>


section \<open>What a region access does to the hardware\<close>

text \<open>
  \<open>io_safe io lo hi xs xe c\<close>: the call \<open>c\<close> copies from or to the user, or it is one naturally aligned
  read or write of 1, 2 or 4 bytes of mapped I/O inside \<open>[lo, hi)\<close> that touches no byte of \<open>[xs, xe)\<close>.
\<close>

definition io_range_ok :: "nat \<Rightarrow> nat \<Rightarrow> nat \<Rightarrow> nat \<Rightarrow> nat \<Rightarrow> nat \<Rightarrow> bool" where
  "io_range_ok lo hi xs xe off n \<longleftrightarrow>
     n \<in> {1, 2, 4} \<and> off mod n = 0 \<and> lo \<le> off \<and> off + n \<le> hi \<and>
     (\<forall>i. off \<le> i \<and> i < off + n \<longrightarrow> \<not> (xs \<le> i \<and> i < xe))"

fun io_safe :: "int \<Rightarrow> nat \<Rightarrow> nat \<Rightarrow> nat \<Rightarrow> nat \<Rightarrow> kcall \<Rightarrow> bool" where
  "io_safe io lo hi xs xe (Io (Ioread n a)) = (\<exists>off. a = io + int off \<and> io_range_ok lo hi xs xe off n)"
| "io_safe io lo hi xs xe (Io (Iowrite n a v)) = (\<exists>off. a = io + int off \<and> io_range_ok lo hi xs xe off n)"
| "io_safe io lo hi xs xe (Mem (Copy_from_user a n)) = True"
| "io_safe io lo hi xs xe (Mem (Copy_to_user a n)) = True"
| "io_safe io lo hi xs xe c = False"

lemma fill_size_cases: "fill_size off n \<in> {1, 2, 4}" "off mod fill_size off n = 0"
  by (auto simp: fill_size_def)

lemma io_range_mono:
  "io_range_ok lo hi xs xe off n \<Longrightarrow> lo' \<le> lo \<Longrightarrow> hi \<le> hi' \<Longrightarrow> io_range_ok lo' hi' xs xe off n"
  by (auto simp: io_range_ok_def)

lemma io_safe_mono:
  "io_safe io lo hi xs xe c \<Longrightarrow> lo' \<le> lo \<Longrightarrow> hi \<le> hi' \<Longrightarrow> io_safe io lo' hi' xs xe c"
  by (induction io lo hi xs xe c rule: io_safe.induct) (auto intro: io_range_mono)

lemma fillable_range_ok:
  assumes "0 < io_fillable off count xs xe"
  shows "io_range_ok off (off + count) xs xe off (fill_size off (io_fillable off count xs xe))"
  using assms fill_size_cases [of off "io_fillable off count xs xe"]
    fill_size_pos(2) [of "io_fillable off count xs xe" off]
  by (auto simp: io_range_ok_def io_fillable_def split: if_splits)

lemma io_access_emits:
  assumes "io_range_ok lo hi xs xe off n"
  shows "emits (io_safe io lo hi xs xe) s (snd (io_access K io buf off n iswrite s))"
proof -
  have safe: "io_safe io lo hi xs xe (Io (Ioread n (io + int off)))"
    "io_safe io lo hi xs xe (Io (Iowrite n (io + int off) v))" for v
    using assms by auto
  have rd: "emits (io_safe io lo hi xs xe) s (snd (kcall K (Io (Ioread n (io + int off))) s))"
    using safe by (intro emits_then) simp_all
  show ?thesis using safe emits_trans [OF rd copy_to_user_emits]
    by (auto simp: io_access_def case_prod_unfold copy_from_user_emits)
qed

lemma fill_ones_emits:
  assumes "\<And>a n. P (Mem (Copy_to_user a n))"
  shows "emits P s (snd (fill_ones K buf n s))"
proof (induction n arbitrary: buf s)
  case (Suc n)
  have "emits P s (snd (copy_to_user K buf 1 0xff s))" by (intro copy_to_user_emits assms)
  from emits_trans [OF this Suc] this show ?case by (simp add: case_prod_unfold)
qed simp

lemma io_step_emits:
  assumes "0 < count"
  shows "emits (io_safe io off (off + count) xs xe) s (snd (snd (io_step K io buf off count xs xe iswrite s)))"
  using fillable_range_ok [of off count xs xe]
  by (simp add: io_step_def Let_def case_prod_unfold io_access_emits fill_ones_emits)

lemma do_io_rw_emits:
  "emits (io_safe io off (off + count) xs xe) s (snd (do_io_rw K io buf off count xs xe iswrite d s))"
proof (induction K io buf off count xs xe iswrite d s rule: do_io_rw.induct)
  case (1 K io buf off count xs xe iswrite d s)
  show ?case
  proof (cases "count = 0")
    case True
    then show ?thesis by (simp add: do_io_rw.simps)
  next
    case False
    obtain err n t where st: "io_step K io buf off count xs xe iswrite s = (err, n, t)"
      by (metis prod_cases3)
    from False have first: "emits (io_safe io off (off + count) xs xe) s t"
      using io_step_emits [of count io off xs xe s K buf iswrite] st by simp
    have n: "n \<le> count" using False io_step_progress [of count K io buf off xs xe iswrite s] st by simp
    show ?thesis
    proof (cases "err = 0")
      case True
      from "1.IH" [OF False st [symmetric] refl] True
      have "emits (io_safe io (off + n) (off + n + (count - n)) xs xe) t
        (snd (do_io_rw K io (buf + n) (off + n) (count - n) xs xe iswrite (d + n) t))" by simp
      then have "emits (io_safe io off (off + count) xs xe) t
        (snd (do_io_rw K io (buf + n) (off + n) (count - n) xs xe iswrite (d + n) t))"
        by (rule emits_mono) (rule io_safe_mono, auto simp: n)
      from emits_trans [OF first this] show ?thesis
        using False True st by (simp add: do_io_rw.simps [of K io buf off])
    next
      case err: False
      with first False st show ?thesis by (simp add: do_io_rw.simps [of K io buf off])
    qed
  qed
qed

text \<open>The result of an access: the error of a failed copy, or everything that was asked for.\<close>

lemma io_access_result: "fst (io_access K io buf off n iswrite s) \<in> {0, - EFAULT}"
  by (simp add: io_access_def case_prod_unfold)

lemma fill_ones_result: "fst (fill_ones K buf n s) \<in> {0, - EFAULT}"
  by (induction n arbitrary: buf s) (simp_all add: case_prod_unfold)

lemma io_step_result: "fst (io_step K io buf off count xs xe iswrite s) \<in> {0, - EFAULT}"
  using io_access_result fill_ones_result by (simp add: io_step_def Let_def case_prod_unfold)

lemma do_io_rw_result:
  "fst (do_io_rw K io buf off count xs xe iswrite d s) \<in> {- EFAULT, int (d + count)}"
proof (induction K io buf off count xs xe iswrite d s rule: do_io_rw.induct)
  case (1 K io buf off count xs xe iswrite d s)
  obtain err n t where st: "io_step K io buf off count xs xe iswrite s = (err, n, t)"
    by (metis prod_cases3)
  show ?case
  proof (cases "count = 0 \<or> err \<noteq> 0")
    case True
    then show ?thesis using st io_step_result [of K io buf off count xs xe iswrite s]
      by (auto simp: do_io_rw.simps [of K io buf off])
  next
    case False
    then have "n \<le> count" using io_step_progress [of count K io buf off xs xe iswrite s] st by simp
    with False "1.IH" [OF _ st [symmetric] refl] show ?thesis
      by (simp add: do_io_rw.simps [of K io buf off] st)
  qed
qed


section \<open>Equivalence with an access byte by byte\<close>

text \<open>
  Documented behaviour assumed here: mapped memory answers a read of 1, 2 or 4 bytes with the
  little-endian value of its bytes; the memory of the user can be read, or written.
\<close>

definition io_memory :: "kernel \<Rightarrow> (int \<Rightarrow> u8) \<Rightarrow> bool" where
  "io_memory K mem \<longleftrightarrow>
     (\<forall>h n a. n \<in> {1, 2, 4} \<longrightarrow>
        ucast (snd (respond K h (Io (Ioread n a)))) = le_val (map (\<lambda>i. mem (a + int i)) [0..<n]))"

definition user_writable :: "kernel \<Rightarrow> bool" where
  "user_writable K \<longleftrightarrow> (\<forall>h a n. fst (respond K h (Mem (Copy_to_user a n))) = 0)"

definition user_readable :: "kernel \<Rightarrow> bool" where
  "user_readable K \<longleftrightarrow> (\<forall>h a n. fst (respond K h (Mem (Copy_from_user a n))) = 0)"

text \<open>The reference: byte \<open>i\<close> of the region, and a buffer of \<open>n\<close> bytes filled from offset \<open>off\<close> on.\<close>

definition region_byte :: "(int \<Rightarrow> u8) \<Rightarrow> int \<Rightarrow> nat \<Rightarrow> nat \<Rightarrow> nat \<Rightarrow> u8" where
  "region_byte mem io xs xe i = (if xs \<le> i \<and> i < xe then 0xff else mem (io + int i))"

definition overlay :: "(nat \<Rightarrow> u8) \<Rightarrow> nat \<Rightarrow> nat \<Rightarrow> nat \<Rightarrow> (nat \<Rightarrow> u8) \<Rightarrow> nat \<Rightarrow> u8" where
  "overlay f buf n off m = (\<lambda>a. if buf \<le> a \<and> a < buf + n then f (off + (a - buf)) else m a)"

lemma overlay_0 [simp]: "overlay f buf 0 off m = m"
  by (auto simp: overlay_def fun_eq_iff)

lemma overlay_append:
  "overlay f (buf + n) k (off + n) (overlay f buf n off m) = overlay f buf (n + k) off m"
  by (auto simp: overlay_def fun_eq_iff)

lemma overlay_cong:
  assumes "\<And>i. i < n \<Longrightarrow> f (off + i) = g (off + i)"
  shows "overlay f buf n off m = overlay g buf n off m"
proof
  fix a
  show "overlay f buf n off m a = overlay g buf n off m a"
    using assms [of "a - buf"] by (auto simp: overlay_def)
qed

lemma put_bytes_overlay:
  assumes "n \<le> 4"
  shows "put_bytes buf n (le_val (map (\<lambda>i. f (off + i)) [0..<n])) m = overlay f buf n off m"
proof
  fix a
  let ?bs = "map (\<lambda>i. f (off + i)) [0..<n]"
  show "put_bytes buf n (le_val ?bs) m a = overlay f buf n off m a"
  proof (cases "buf \<le> a \<and> a < buf + n")
    case True
    then have lt: "a - buf < n" by auto
    have "ucast (drop_bit (8 * (a - buf)) (le_val ?bs)) = le_bytes n (le_val ?bs) ! (a - buf)"
      by (simp add: nth_le_bytes lt)
    also have "\<dots> = f (off + (a - buf))" using assms lt by (simp add: le_bytes_le_val)
    finally show ?thesis using True by (simp add: put_bytes_def overlay_def)
  qed (auto simp: put_bytes_def overlay_def)
qed

lemma copy_to_user_fields:
  assumes "user_writable K"
  shows "fst (copy_to_user K buf n v s) = 0"
    "user_mem (snd (copy_to_user K buf n v s)) = put_bytes buf n v (user_mem s)"
  using assms by (simp_all add: copy_to_user_def user_writable_def kcall_rc_Pair)

lemma fill_ones_overlay:
  assumes "user_writable K"
  shows "fst (fill_ones K buf n s) = 0 \<and>
    user_mem (snd (fill_ones K buf n s)) = overlay (\<lambda>_. 0xff) buf n off (user_mem s)"
proof (induction n arbitrary: buf off s)
  case (Suc n)
  have one: "put_bytes buf 1 0xff m = overlay (\<lambda>_. 0xff) buf 1 off m" for m
    by (auto simp: put_bytes_def overlay_def fun_eq_iff)
  show ?case using overlay_append [of "\<lambda>_. 0xff" buf 1 n off]
    by (simp add: case_prod_unfold copy_to_user_fields [OF assms] Suc.IH [of "Suc buf" _ "Suc off"] one [simplified])
qed simp

lemma io_access_overlay:
  assumes "io_memory K mem" "user_writable K" "n \<in> {1, 2, 4}"
  shows "fst (io_access K io buf off n False s) = 0 \<and>
    user_mem (snd (io_access K io buf off n False s)) = overlay (\<lambda>i. mem (io + int i)) buf n off (user_mem s)"
proof -
  have "ucast (snd (respond K h (Io (Ioread n (io + int off))))) =
      le_val (map (\<lambda>i. mem (io + int (off + i))) [0..<n])" for h
    using assms(1) [unfolded io_memory_def, rule_format, OF assms(3), of h "io + int off"]
    by (simp add: add.assoc)
  moreover have "n \<le> 4" using assms(3) by auto
  ultimately show ?thesis
    using put_bytes_overlay [of n buf "\<lambda>i. mem (io + int i)" off]
    by (simp add: io_access_def case_prod_unfold copy_to_user_fields [OF assms(2)]) (simp add: kcall_Pair)
qed

lemma io_step_overlay:
  assumes "io_memory K mem" "user_writable K" "0 < count"
    and st: "io_step K io buf off count xs xe False s = (err, n, t)"
  shows "err = 0 \<and> user_mem t = overlay (region_byte mem io xs xe) buf n off (user_mem s)"
proof (cases "0 < io_fillable off count xs xe")
  case True
  let ?n = "fill_size off (io_fillable off count xs xe)"
  have free: "\<not> (xs \<le> off + i \<and> off + i < xe)" if "i < ?n" for i
    using fillable_range_ok [OF True] that by (auto simp: io_range_ok_def)
  have "overlay (\<lambda>i. mem (io + int i)) buf ?n off m = overlay (region_byte mem io xs xe) buf ?n off m" for m
    by (rule overlay_cong) (use free in \<open>auto simp: region_byte_def\<close>)
  with True st io_access_overlay [OF assms(1,2) fill_size_cases(1)] show ?thesis
    by (auto simp: io_step_def Let_def case_prod_unfold)
next
  case False
  with assms(3) have ex: "xs \<le> off" "off < xe" by (auto simp: io_fillable_def split: if_splits)
  let ?n = "min count (xe - off)"
  have "overlay (\<lambda>_. 0xff) buf ?n off m = overlay (region_byte mem io xs xe) buf ?n off m" for m
    by (rule overlay_cong) (use ex in \<open>auto simp: region_byte_def\<close>)
  with False st fill_ones_overlay [OF assms(2), of buf ?n s off] show ?thesis
    by (auto simp: io_step_def Let_def case_prod_unfold)
qed

lemma do_io_rw_overlay:
  assumes "io_memory K mem" "user_writable K"
  shows "fst (do_io_rw K io buf off count xs xe False d s) = int (d + count) \<and>
    user_mem (snd (do_io_rw K io buf off count xs xe False d s)) =
      overlay (region_byte mem io xs xe) buf count off (user_mem s)"
proof (induction count arbitrary: buf off d s rule: less_induct)
  case (less count)
  show ?case
  proof (cases "count = 0")
    case True
    then show ?thesis by (simp add: do_io_rw.simps)
  next
    case False
    obtain err n t where st: "io_step K io buf off count xs xe False s = (err, n, t)"
      by (metis prod_cases3)
    from False have pos: "0 < count" by simp
    have n: "0 < n" "n \<le> count" using io_step_progress [OF pos, of K io buf off xs xe False s] st by simp_all
    note step = io_step_overlay [OF assms pos st]
    from n have "count - n < count" by simp
    from less.IH [OF this, of "buf + n" "off + n" "d + n" t] step n
    show ?thesis using False overlay_append [of "region_byte mem io xs xe" buf n "count - n" off "user_mem s"]
      by (simp add: do_io_rw.simps [of K io buf off] st)
  qed
qed

text \<open>The bytes a call writes to mapped I/O, with their addresses.\<close>

fun io_bytes :: "kcall \<Rightarrow> (int \<times> u8) list" where
  "io_bytes (Io (Iowrite n a v)) = map (\<lambda>i. (a + int i, ucast (drop_bit (8 * i) v))) [0..<n]"
| "io_bytes c = []"

definition io_written :: "vfio_pci_device \<Rightarrow> vfio_pci_device \<Rightarrow> (int \<times> u8) list" where
  "io_written s t = concat (map io_bytes (calls s t))"

lemma io_written_trans: "extends s t \<Longrightarrow> extends t u \<Longrightarrow> io_written s u = io_written s t @ io_written t u"
  by (simp add: io_written_def calls_trans [of s t u])

definition bytes_out :: "nat \<Rightarrow> nat \<Rightarrow> (nat \<Rightarrow> u8) \<Rightarrow> int \<Rightarrow> nat \<Rightarrow> nat \<Rightarrow> nat \<Rightarrow> (int \<times> u8) list" where
  "bytes_out xs xe m io buf off n =
     map (\<lambda>i. (io + int (off + i), m (buf + i))) (filter (\<lambda>i. \<not> (xs \<le> off + i \<and> off + i < xe)) [0..<n])"

lemma bytes_out_append:
  "bytes_out xs xe m io buf off (n + k) =
     bytes_out xs xe m io buf off n @ bytes_out xs xe m io (buf + n) (off + n) k"
proof -
  have "[n..<n + k] = map (\<lambda>i. n + i) [0..<k]" by (simp add: map_add_upt add.commute [of n])
  then have split: "[0..<n + k] = [0..<n] @ map (\<lambda>i. n + i) [0..<k]"
    using upt_add_eq_append [of 0 n k] by simp
  show ?thesis by (simp add: bytes_out_def split filter_map o_def add.assoc)
qed

lemma io_access_written:
  assumes "user_readable K" "n \<in> {1, 2, 4}"
    and t: "t = snd (io_access K io buf off n True s)"
  shows "fst (io_access K io buf off n True s) = 0 \<and> user_mem t = user_mem s \<and> extends s t \<and>
    io_written s t = map (\<lambda>i. (io + int (off + i), user_mem s (buf + i))) [0..<n]"
proof -
  let ?bs = "map (\<lambda>i. user_mem s (buf + i)) [0..<n]"
  have n: "n \<le> 4" using assms(2) by auto
  have byte: "ucast (drop_bit (8 * i) (ucast (le_val ?bs) :: u64)) = user_mem s (buf + i)" if "i < n" for i
  proof (rule bit_word_eqI)
    fix j assume "j < LENGTH(8)"
    then show "bit (ucast (drop_bit (8 * i) (ucast (le_val ?bs) :: u64)) :: u8) j = bit (user_mem s (buf + i)) j"
      using n that by (auto simp: bit_ucast_iff bit_drop_bit_eq bit_le_val)
  qed
  show ?thesis unfolding t using assms(1)
    by (auto simp: io_access_def copy_from_user_def user_readable_def kcall_rc_Pair kcall_do_eq io_written_def
        calls_def new_events_def extends_def byte)
qed

lemma io_step_written:
  assumes "user_readable K" "0 < count" and st: "io_step K io buf off count xs xe True s = (err, n, t)"
  shows "err = 0 \<and> user_mem t = user_mem s \<and> extends s t \<and>
    io_written s t = bytes_out xs xe (user_mem s) io buf off n"
proof (cases "0 < io_fillable off count xs xe")
  case True
  let ?n = "fill_size off (io_fillable off count xs xe)"
  have "filter (\<lambda>i. \<not> (xs \<le> off + i \<and> off + i < xe)) [0..<?n] = [0..<?n]"
    by (rule filter_True) (use fillable_range_ok [OF True] in \<open>auto simp: io_range_ok_def\<close>)
  with True st io_access_written [OF assms(1) fill_size_cases(1) refl, of io buf off _ _ s] show ?thesis
    by (auto simp: io_step_def Let_def case_prod_unfold bytes_out_def)
next
  case False
  with assms(2) have ex: "xs \<le> off" "off < xe" by (auto simp: io_fillable_def split: if_splits)
  then have "filter (\<lambda>i. \<not> (xs \<le> off + i \<and> off + i < xe)) [0..<min count (xe - off)] = []"
    by (auto simp: filter_empty_conv)
  with False st show ?thesis by (auto simp: io_step_def Let_def bytes_out_def io_written_def)
qed

lemma do_io_rw_written:
  assumes "user_readable K"
  shows "fst (do_io_rw K io buf off count xs xe True d s) = int (d + count) \<and>
    extends s (snd (do_io_rw K io buf off count xs xe True d s)) \<and>
    io_written s (snd (do_io_rw K io buf off count xs xe True d s)) =
      bytes_out xs xe (user_mem s) io buf off count"
proof (induction count arbitrary: buf off d s rule: less_induct)
  case (less count)
  show ?case
  proof (cases "count = 0")
    case True
    then show ?thesis by (simp add: do_io_rw.simps bytes_out_def io_written_def)
  next
    case False
    obtain err n t where st: "io_step K io buf off count xs xe True s = (err, n, t)"
      by (metis prod_cases3)
    from False have pos: "0 < count" by simp
    have n: "0 < n" "n \<le> count" using io_step_progress [OF pos, of K io buf off xs xe True s] st by simp_all
    note step = io_step_written [OF assms(1) pos st]
    from n have "count - n < count" by simp
    from less.IH [OF this, of "buf + n" "off + n" "d + n" t] step n
    show ?thesis using False bytes_out_append [of xs xe "user_mem s" io buf off n "count - n"]
      by (simp add: do_io_rw.simps [of K io buf off] st extends_trans io_written_trans [of s t])
        (metis extends_trans)
  qed
qed

end
