(* ===== verification/Rdwr_Props.thy ===== *)
theory Rdwr_Props
  imports Rdwr_Safe
begin

text \<open>
  Properties of region accesses.
\<close>

section \<open>BARs\<close>

fun is_io :: "kcall \<Rightarrow> bool" where
  "is_io (Io (Ioread n a)) = True"
| "is_io (Io (Iowrite n a v)) = True"
| "is_io c = False"

text \<open>
  \<open>bar_contained s bar io c\<close>: if \<open>c\<close> reads or writes mapped I/O, it is an aligned access of the BAR mapped
  at \<open>io\<close>, inside its size and, in the BAR of the MSI-X table, outside of the table.
\<close>

definition bar_contained :: "vfio_pci_device \<Rightarrow> nat \<Rightarrow> int \<Rightarrow> kcall \<Rightarrow> bool" where
  "bar_contained s bar io c \<longleftrightarrow>
     (is_io c \<longrightarrow>
      (\<exists>e. bar_end s bar = Some e \<and>
        (let (xs, xe) = (if bar = unat (msix_bar s) then msix_range s else (0, 0)) in
         io_safe io 0 e xs xe c)))"

lemma io_safe_weaken: "io_safe io lo hi xs xe c \<Longrightarrow> io_safe io lo hi 0 0 c"
  by (induction io lo hi xs xe c rule: io_safe.induct) (auto simp: io_range_ok_def)

lemma setup_barmap_cases:
  assumes "bar < 6"
  obtains (ok) io t where "vfio_pci_setup_barmap K bar s = Some (0, t)" "barmap t bar = Some io"
    "\<And>P. (\<And>c. \<not> is_io c \<Longrightarrow> P c) \<Longrightarrow> emits P s t"
    "pdev t = pdev s" "msix_bar t = msix_bar s" "msix_range t = msix_range s" "user_mem t = user_mem s"
    "ioeventfds_list t = ioeventfds_list s" "ioeventfds_nr t = ioeventfds_nr s"
    "\<forall>b. barmap s b \<noteq> None \<longrightarrow> barmap t b = barmap s b"
  | (failed) r t where "vfio_pci_setup_barmap K bar s = Some (r, t)" "r \<noteq> 0"
    "\<And>P. (\<And>c. \<not> is_io c \<Longrightarrow> P c) \<Longrightarrow> emits P s t" "pdev t = pdev s" "msix_bar t = msix_bar s"
    "msix_range t = msix_range s" "barmap t = barmap s"
    "ioeventfds_list t = ioeventfds_list s" "ioeventfds_nr t = ioeventfds_nr s"
proof (cases "barmap s bar")
  case (Some io)
  with assms show ?thesis by (intro ok [of s]) (auto simp: vfio_pci_setup_barmap_def)
next
  case None
  define t1 where "t1 = snd (kcall_rc K (Io (Request_selected_regions bar)) s)"
  define t2 where "t2 = snd (kcall_rc K (Io (Iomap bar)) t1)"
  have em: "emits P s t1" "emits P s t2" "emits P s (kcall_do K (Io (Release_selected_regions bar)) t2)"
    if "\<And>c. \<not> is_io c \<Longrightarrow> P c" for P
    using that by (simp_all add: t1_def t2_def)
  have eqs: "pdev t1 = pdev s" "pdev t2 = pdev s" "barmap t1 = barmap s" "barmap t2 = barmap s"
    "msix_bar t1 = msix_bar s" "msix_bar t2 = msix_bar s" "msix_range t1 = msix_range s"
    "msix_range t2 = msix_range s" "user_mem t2 = user_mem s"
    "ioeventfds_list t2 = ioeventfds_list s" "ioeventfds_nr t2 = ioeventfds_nr s"
    "ioeventfds_list t1 = ioeventfds_list s" "ioeventfds_nr t1 = ioeventfds_nr s"
    by (simp_all add: t1_def t2_def msix_range_def)
  show ?thesis
  proof (cases "fst (kcall_rc K (Io (Request_selected_regions bar)) s) = 0")
    case False
    with assms None em eqs show ?thesis
      by (intro failed [of _ t1]) (auto simp: vfio_pci_setup_barmap_def case_prod_unfold t1_def)
  next
    case got: True
    show ?thesis
    proof (cases "fst (kcall_rc K (Io (Iomap bar)) t1) = 0")
      case True
      with got assms None em eqs show ?thesis
        by (intro failed [of _ "kcall_do K (Io (Release_selected_regions bar)) t2"])
          (auto simp: vfio_pci_setup_barmap_def case_prod_unfold msix_range_def simp flip: t1_def t2_def)
    next
      case False
      let ?t = "t2\<lparr>barmap := (barmap t2)(bar := Some (fst (kcall_rc K (Io (Iomap bar)) t1)))\<rparr>"
      have "emits P s ?t = emits P s t2" for P by (rule emits_cong) simp
      with False got assms None em eqs show ?thesis
        by (intro ok [of ?t]) (auto simp: vfio_pci_setup_barmap_def case_prod_unfold msix_range_def
            simp flip: t1_def t2_def)
    qed
  qed
qed

lemma bar_contained_io:
  assumes "bar_end s bar = Some e" "io_safe io lo hi xs xe c" "hi \<le> e"
    and "bar = unat (msix_bar s) \<Longrightarrow> (xs, xe) = msix_range s"
  shows "bar_contained s bar io c"
proof -
  have "io_safe io 0 e xs xe c" by (rule io_safe_mono [OF assms(2)]) (use assms(3) in auto)
  then show ?thesis using assms(1,4) io_safe_weaken
    by (auto simp: bar_contained_def split: prod.split if_splits)
qed

lemma bar_window_cases:
  assumes "bar \<le> 6"
  obtains err io range t where "bar_window K bar e s = Some (err, io, range, t)"
    "\<And>P. (\<And>c. \<not> is_io c \<Longrightarrow> P c) \<Longrightarrow> emits P s t"
    "msix_bar t = msix_bar s" "msix_range t = msix_range s"
proof (cases "bar = 6")
  case True
  then show ?thesis
    by (intro that [of _ _ _ "snd (kcall K (Io Map_rom) s)"])
      (auto simp: bar_window_def case_prod_unfold msix_range_def)
next
  case False
  with assms have "bar < 6" by simp
  then show ?thesis
  proof (cases rule: setup_barmap_cases [of bar K s])
    case (ok io t)
    with False that show ?thesis by (auto simp: bar_window_def)
  next
    case (failed r t)
    with False that show ?thesis by (auto simp: bar_window_def)
  qed
qed




text \<open>C28. Reading a mapped BAR fills the buffer with what a read byte by byte would give, ones in the
  MSI-X table.\<close>

theorem bar_read_bytewise:
  assumes bar: "VFIO_PCI_OFFSET_TO_INDEX ppos = int bar" "bar < 6" "pos = nat (ppos AND VFIO_PCI_OFFSET_MASK)"
    and inside: "bar_end s bar = Some e" "pos < e" and mapped: "barmap s bar = Some io"
    and env: "io_memory K mem" "user_writable K"
    and n: "n = min (unat count) (e - pos)"
    and x: "(xs, xe) = (if bar = unat (msix_bar s) then msix_range s else (0, 0))"
  shows "\<exists>s'. vfio_pci_bar_rw K buf count ppos False s = Some (int n, ppos + int n, s') \<and>
    user_mem s' = overlay (region_byte mem io xs xe) buf n pos (user_mem s)"
proof -
  have "bar_window K bar e s = Some (0, io, (0, 0), s)"
    using bar mapped by (simp add: bar_window_def vfio_pci_setup_barmap_def)
  moreover obtain r u where u: "do_io_rw K io buf pos n xs xe False 0 s = (r, u)" by fastforce
  ultimately show ?thesis using bar inside n x do_io_rw_overlay [OF env, of io buf pos n xs xe 0 s]
    by (auto simp: vfio_pci_bar_rw_def Let_def simp flip: x)
qed

lemma ram_kernel_laws:
  "io_memory (ram_kernel mem) mem" "user_writable (ram_kernel mem)" "user_readable (ram_kernel mem)"
proof -
  have "ucast (ucast v :: u64) = v" for v :: u32
    by (rule bit_word_eqI) (auto simp: bit_ucast_iff)
  then show "io_memory (ram_kernel mem) mem" by (simp add: io_memory_def ram_kernel_def)
  show "user_writable (ram_kernel mem)" "user_readable (ram_kernel mem)"
    by (simp_all add: user_writable_def user_readable_def ram_kernel_def)
qed

lemma sample_msix_fields:
  "bar_end sample_msix_device 0 = Some 0x1000" "barmap sample_msix_device 0 = Some 4096"
  "(8, 24) = (if 0 = unat (msix_bar sample_msix_device) then msix_range sample_msix_device else (0, 0))"
  "VFIO_PCI_OFFSET_TO_INDEX 4 = int 0" "4 = nat (4 AND VFIO_PCI_OFFSET_MASK)"
  by (simp_all add: bar_end_def msix_range_def sample_msix_device_def sample_device_def sample_pdev_def
      VFIO_PCI_OFFSET_TO_INDEX_def drop_bit_eq_div offset_mask_mod)

text \<open>Bytes 4 to 35 of a BAR whose bytes 8 to 23 are the MSI-X table, into a buffer at 100.\<close>

theorem bar_read_bytewise_witness:
  "\<exists>s'. vfio_pci_bar_rw (ram_kernel (\<lambda>a. word_of_int a)) 100 32 4 False sample_msix_device = Some (32, 36, s') \<and>
    user_mem s' 100 = 4 \<and> user_mem s' 104 = 0xff \<and> user_mem s' 119 = 0xff \<and> user_mem s' 120 = 24"
  using bar_read_bytewise [OF sample_msix_fields(4) _ sample_msix_fields(5,1) _ sample_msix_fields(2)
      ram_kernel_laws(1,2) refl sample_msix_fields(3), where count = 32 and buf = 100
      and mem = "\<lambda>a. word_of_int a"]
  by (auto simp: overlay_def region_byte_def)

text \<open>C29. Writing a mapped BAR writes the bytes of the buffer in order, those for the MSI-X table
  dropped.\<close>

theorem bar_write_bytewise:
  assumes bar: "VFIO_PCI_OFFSET_TO_INDEX ppos = int bar" "bar < 6" "pos = nat (ppos AND VFIO_PCI_OFFSET_MASK)"
    and inside: "bar_end s bar = Some e" "pos < e" and mapped: "barmap s bar = Some io"
    and env: "user_readable K"
    and n: "n = min (unat count) (e - pos)"
    and x: "(xs, xe) = (if bar = unat (msix_bar s) then msix_range s else (0, 0))"
  shows "\<exists>s'. vfio_pci_bar_rw K buf count ppos True s = Some (int n, ppos + int n, s') \<and>
    io_written s s' = bytes_out xs xe (user_mem s) io buf pos n"
proof -
  have "bar_window K bar e s = Some (0, io, (0, 0), s)"
    using bar mapped by (simp add: bar_window_def vfio_pci_setup_barmap_def)
  moreover obtain r u where u: "do_io_rw K io buf pos n xs xe True 0 s = (r, u)" by fastforce
  ultimately show ?thesis using bar inside n x do_io_rw_written [OF env, of io buf pos n xs xe 0 s]
    by (auto simp: vfio_pci_bar_rw_def Let_def simp flip: x)
qed

theorem bar_write_bytewise_witness:
  "\<exists>s'. vfio_pci_bar_rw (ram_kernel (\<lambda>a. 0)) 100 24 4 True
      (sample_msix_device\<lparr>user_mem := \<lambda>a. word_of_nat a\<rparr>) = Some (24, 28, s') \<and>
    io_written (sample_msix_device\<lparr>user_mem := \<lambda>a. word_of_nat a\<rparr>) s' =
      [(4100, 100), (4101, 101), (4102, 102), (4103, 103), (4120, 120), (4121, 121), (4122, 122), (4123, 123)]"
proof -
  let ?s = "sample_msix_device\<lparr>user_mem := \<lambda>a. word_of_nat a\<rparr>"
  have s: "bar_end ?s 0 = Some 0x1000" "barmap ?s 0 = Some 4096"
    "(8, 24) = (if 0 = unat (msix_bar ?s) then msix_range ?s else (0, 0))"
    using sample_msix_fields(1-3) by (simp_all add: bar_end_def msix_range_def split: if_splits)
  have "bytes_out 8 24 (user_mem ?s) 4096 100 4 24 =
      [(4100, 100), (4101, 101), (4102, 102), (4103, 103), (4120, 120), (4121, 121), (4122, 122), (4123, 123)]"
    by (simp add: bytes_out_def upt_rec)
  then show ?thesis
    using bar_write_bytewise [OF sample_msix_fields(4) _ sample_msix_fields(5) s(1) _ s(2)
        ram_kernel_laws(3) [of "\<lambda>a. 0"] refl s(3), where count = 24 and buf = 100]
    by simp
qed

section \<open>Legacy VGA ranges\<close>

text \<open>What the events of a run leave held: mappings of a VGA range, and locks of the arbiter.\<close>

fun mapping_delta :: "kevent \<Rightarrow> int" where
  "mapping_delta (Io (Ioremap_nocache a n), r) = (if fst r = 0 then 0 else 1)"
| "mapping_delta (Io (Ioport_map a n), r) = (if fst r = 0 then 0 else 1)"
| "mapping_delta (Io (Iounmap a), r) = - 1"
| "mapping_delta (Io (Ioport_unmap a), r) = - 1"
| "mapping_delta _ = 0"

fun vga_lock_delta :: "kevent \<Rightarrow> int" where
  "vga_lock_delta (Io (Vga_get rsrc), r) = (if fst r = 0 then 1 else 0)"
| "vga_lock_delta (Io (Vga_put rsrc), r) = - 1"
| "vga_lock_delta _ = 0"

definition held :: "(kevent \<Rightarrow> int) \<Rightarrow> vfio_pci_device \<Rightarrow> vfio_pci_device \<Rightarrow> int" where
  "held f s s' = sum_list (map f (new_events s s'))"

lemma held_refl [simp]: "held f s s = 0"
  by (simp add: held_def new_events_def)

lemma held_trans: "extends s t \<Longrightarrow> extends t u \<Longrightarrow> held f s u = held f s t + held f t u"
  by (auto simp: held_def extends_def new_events_append)

lemma held_kcall:
  assumes "extends s t"
  shows "held f s (kcall_do K c t) = held f s t + f (c, respond K (trace t) c)"
    "held f s (snd (kcall_rc K c t)) = held f s t + f (c, respond K (trace t) c)"
  using assms by (auto simp: held_def extends_def new_events_append kcall_simps)

lemma fst_kcall_rc: "fst (kcall_rc K c s) = fst (respond K (trace s) c)"
  by (simp add: kcall_rc_Pair)

lemma extends_kcall [simp]:
  "extends s t \<Longrightarrow> extends s (kcall_do K c t)" "extends s t \<Longrightarrow> extends s (snd (kcall_rc K c t))"
  by (auto simp: extends_def kcall_simps)

lemma held_emits:
  assumes "emits P s s'" "\<And>c r. P c \<Longrightarrow> f (c, r) = 0"
  shows "held f s s' = 0"
proof -
  have "\<forall>e \<in> set (new_events s s'). f e = 0"
    using assms by (force simp: emits_def calls_def)
  then have "map f (new_events s s') = map (\<lambda>_. 0) (new_events s s')" by simp
  then show ?thesis unfolding held_def by (simp only: sum_list_0)
qed


lemma io_safe_delta: "io_safe io lo hi xs xe c \<Longrightarrow> mapping_delta (c, x) = 0 \<and> vga_lock_delta (c, x) = 0"
  by (induction io lo hi xs xe c rule: io_safe.induct) auto

lemma io_safe_holds_nothing:
  assumes "emits (io_safe io lo hi xs xe) s s'"
  shows "held mapping_delta s s' = 0" "held vga_lock_delta s s' = 0"
  using assms by (auto elim!: held_emits simp: io_safe_delta)




section \<open>Writes bound to an eventfd\<close>

definition ioev_key :: "vfio_pci_ioeventfd \<Rightarrow> int \<times> nat \<times> u64 \<times> nat" where
  "ioev_key e = (ioev_pos e, ioev_bar e, ioev_data e, ioev_count e)"

text \<open>An entry writes inside its BAR, at the address where it is mapped, and not into the MSI-X table.\<close>

definition ioev_entry_ok :: "vfio_pci_device \<Rightarrow> vfio_pci_ioeventfd \<Rightarrow> bool" where
  "ioev_entry_ok s e \<longleftrightarrow>
     ioev_bar e < 6 \<and> 0 \<le> ioev_pos e \<and>
     nat (ioev_pos e) + ioev_count e \<le> unat (pci_resource_len (pdev s) (ioev_bar e)) \<and>
     (ioev_bar e = unat (msix_bar s) \<longrightarrow>
        nat (ioev_pos e) + ioev_count e \<le> fst (msix_range s) \<or> snd (msix_range s) \<le> nat (ioev_pos e)) \<and>
     (\<exists>io. barmap s (ioev_bar e) = Some io \<and> ioev_addr e = io + ioev_pos e)"

definition ioev_inv :: "vfio_pci_device \<Rightarrow> bool" where
  "ioev_inv s \<longleftrightarrow>
     ioeventfds_nr s = length (ioeventfds_list s) \<and> ioeventfds_nr s \<le> VFIO_PCI_IOEVENTFD_MAX \<and>
     distinct (map ioev_key (ioeventfds_list s)) \<and> (\<forall>e \<in> set (ioeventfds_list s). ioev_entry_ok s e)"

lemma ioev_matches_key: "ioev_matches pos bar data count e \<longleftrightarrow> ioev_key e = (pos, bar, data, count)"
  by (auto simp: ioev_matches_def ioev_key_def)

lemma ioev_entry_ok_mono:
  assumes "ioev_entry_ok s e" "pdev t = pdev s" "msix_bar t = msix_bar s" "msix_range t = msix_range s"
    "\<forall>b. barmap s b \<noteq> None \<longrightarrow> barmap t b = barmap s b"
  shows "ioev_entry_ok t e"
  using assms by (auto simp: ioev_entry_ok_def)

lemma ioev_inv_mono:
  assumes "ioev_inv s" "pdev t = pdev s" "msix_bar t = msix_bar s" "msix_range t = msix_range s"
    "\<forall>b. barmap s b \<noteq> None \<longrightarrow> barmap t b = barmap s b"
    "ioeventfds_list t = ioeventfds_list s" "ioeventfds_nr t = ioeventfds_nr s"
  shows "ioev_inv t"
  using assms ioev_entry_ok_mono [of s _ t] by (simp add: ioev_inv_def)

lemma ioev_remove_inv:
  assumes inv: "ioev_inv s" and x: "List.extract P (ioeventfds_list s) = Some (before, e, after)"
    and t: "pdev t = pdev s" "msix_bar t = msix_bar s" "msix_range t = msix_range s" "barmap t = barmap s"
    "ioeventfds_list t = before @ after" "ioeventfds_nr t = ioeventfds_nr s - 1"
  shows "ioev_inv t"
proof -
  have split: "ioeventfds_list s = before @ e # after" using x by (simp add: extract_Some_iff)
  then have "\<forall>e \<in> set (before @ after). ioev_entry_ok t e"
    using inv t ioev_entry_ok_mono [of s _ t] by (auto simp: ioev_inv_def)
  with inv t split show ?thesis by (auto simp: ioev_inv_def)
qed

lemma ioev_add_inv:
  assumes inv: "ioev_inv s" and x: "List.extract (ioev_matches pos bar data count) (ioeventfds_list s) = None"
    and room: "ioeventfds_nr s < VFIO_PCI_IOEVENTFD_MAX"
    and e: "ioev_key e = (pos, bar, data, count)" "ioev_entry_ok s e"
    and t: "pdev t = pdev s" "msix_bar t = msix_bar s" "msix_range t = msix_range s" "barmap t = barmap s"
    "ioeventfds_list t = e # ioeventfds_list s" "ioeventfds_nr t = ioeventfds_nr s + 1"
  shows "ioev_inv t"
proof -
  have "ioev_key e \<notin> ioev_key ` set (ioeventfds_list s)"
    using x e(1) by (auto simp: extract_None_iff ioev_matches_key)
  moreover have "\<forall>e \<in> set (ioeventfds_list t). ioev_entry_ok t e"
    using inv e t ioev_entry_ok_mono [of s _ t] by (auto simp: ioev_inv_def)
  ultimately show ?thesis using inv room t by (auto simp: ioev_inv_def)
qed

lemma ioeventfd_update_inv:
  assumes inv: "ioev_inv s" and run: "ioeventfd_update K pos bar data count fd s = Some (r, s')"
    and io: "barmap s bar = Some io" and bar: "bar < 6"
    and fits: "pos + count \<le> unat (pci_resource_len (pdev s) bar)"
    and msix: "bar = unat (msix_bar s) \<longrightarrow> pos + count \<le> fst (msix_range s) \<or> snd (msix_range s) \<le> pos"
  shows "ioev_inv s'"
proof (cases "List.extract (ioev_matches (int pos) bar data count) (ioeventfds_list s)")
  case (Some p)
  then obtain before e after where p: "List.extract (ioev_matches (int pos) bar data count) (ioeventfds_list s) = Some (before, e, after)"
    by (metis prod_cases3)
  show ?thesis
  proof (cases "fd = - 1")
    case True
    with run p show ?thesis
      by (auto simp: ioeventfd_update_def Let_def msix_range_def intro!: ioev_remove_inv [OF inv p])
  next
    case False
    with run p inv show ?thesis by (auto simp: ioeventfd_update_def Let_def)
  qed
next
  case None
  define t where "t = snd (kcall_rc K (Mem Alloc) s)"
  define u where "u = snd (kcall K (Evt (Virqfd_enable Virqfd_ioeventfd fd)) t)"
  define e where "e = \<lparr>ioev_virqfd = uint (snd (fst (kcall K (Evt (Virqfd_enable Virqfd_ioeventfd fd)) t))),
    ioev_addr = io + int pos, ioev_data = data, ioev_pos = int pos, ioev_bar = bar, ioev_count = count\<rparr>"
  let ?new = "u\<lparr>ioeventfds_list := e # ioeventfds_list u, ioeventfds_nr := ioeventfds_nr u + 1\<rparr>"
  have keep: "ioev_inv t" "ioev_inv u"
    by (rule ioev_inv_mono [OF inv]; simp add: t_def u_def msix_range_def)+
  have e: "ioev_key e = (int pos, bar, data, count)" "ioev_entry_ok s e"
    using io bar fits msix by (simp_all add: e_def ioev_key_def ioev_entry_ok_def)
  have new: "ioev_inv ?new" if "ioeventfds_nr s < 1000"
    by (rule ioev_add_inv [OF inv None that e]) (simp_all add: u_def t_def msix_range_def)
  have "s' \<in> {s, t, u} \<or> ioeventfds_nr s < 1000 \<and> s' = ?new"
    using run None io
    by (auto simp: ioeventfd_update_def Let_def case_prod_unfold e_def u_def t_def split: if_splits)
  with inv keep new show ?thesis by auto
qed

lemma ioeventfd_inv:
  assumes inv: "ioev_inv s" and run: "vfio_pci_ioeventfd K offset data count fd s = Some (r, s')"
  shows "ioev_inv s'"
proof -
  define bar where "bar = nat (VFIO_PCI_OFFSET_TO_INDEX offset)"
  show ?thesis
  proof (cases "0 \<le> VFIO_PCI_OFFSET_TO_INDEX offset \<and> bar < 6")
    case False
    with run inv show ?thesis by (auto simp: vfio_pci_ioeventfd_def Let_def bar_def split: if_splits)
  next
    case True
    then have "bar < 6" by simp
    then show ?thesis
    proof (cases rule: setup_barmap_cases [of bar K s])
      case (ok io t)
      have "ioev_inv t" by (rule ioev_inv_mono [OF inv ok(4-6) _ ok(8,9)]) (use ok in auto)
      with run True inv ok show ?thesis
        by (auto simp: vfio_pci_ioeventfd_def Let_def bar_def [symmetric] intro: ioeventfd_update_inv split: if_splits)
    next
      case (failed q t)
      then have "ioev_inv t" by (intro ioev_inv_mono [OF inv]) auto
      with run True inv failed show ?thesis
        by (auto simp: vfio_pci_ioeventfd_def Let_def bar_def [symmetric] split: if_splits)
    qed
  qed
qed

text \<open>C13. The list of eventfd-bound writes has at most 1000 different entries, each inside its mapped BAR
  and outside of the MSI-X table, and so are the writes made when they fire.\<close>

theorem ioeventfd_invariant:
  assumes inv: "ioev_inv s" and run: "vfio_pci_ioeventfd K offset data count fd s = Some (r, s')"
  shows "ioev_inv s' \<and>
    (\<forall>e \<in> set (ioeventfds_list s').
       \<forall>c \<in> set (calls s' (vfio_pci_ioeventfd_handler K e s')).
         \<exists>io off n v. c = Io (Iowrite n (io + int off) v) \<and> barmap s' (ioev_bar e) = Some io \<and>
           off + n \<le> unat (pci_resource_len (pdev s') (ioev_bar e)) \<and>
           (ioev_bar e = unat (msix_bar s') \<longrightarrow>
              off + n \<le> fst (msix_range s') \<or> snd (msix_range s') \<le> off))"
proof -
  have inv': "ioev_inv s'" by (rule ioeventfd_inv [OF inv run])
  moreover have "\<exists>io off n v. c = Io (Iowrite n (io + int off) v) \<and> barmap s' (ioev_bar e) = Some io \<and>
      off + n \<le> unat (pci_resource_len (pdev s') (ioev_bar e)) \<and>
      (ioev_bar e = unat (msix_bar s') \<longrightarrow> off + n \<le> fst (msix_range s') \<or> snd (msix_range s') \<le> off)"
    if "e \<in> set (ioeventfds_list s')" "c \<in> set (calls s' (vfio_pci_ioeventfd_handler K e s'))" for e c
  proof -
    from that(1) inv' obtain io where io: "barmap s' (ioev_bar e) = Some io" "ioev_addr e = io + ioev_pos e"
      and ok: "ioev_entry_ok s' e" "0 \<le> ioev_pos e" by (auto simp: ioev_inv_def ioev_entry_ok_def)
    from that(2) obtain v where "c = Io (Iowrite (ioev_count e) (ioev_addr e) v)"
      by (auto simp: vfio_pci_ioeventfd_handler_def calls_def new_events_def kcall_do_eq split: if_splits)
    then have "c = Io (Iowrite (ioev_count e) (io + int (nat (ioev_pos e))) v)" using io ok by simp
    with io ok show ?thesis unfolding ioev_entry_ok_def by blast
  qed
  ultimately show ?thesis by blast
qed

theorem ioeventfd_invariant_witness:
  "\<exists>s'. vfio_pci_ioeventfd (sample_kernel []) 64 7 4 9 sample_msix_device = Some (0, s') \<and> ioev_inv s' \<and>
    length (ioeventfds_list s') = 1"
proof -
  have inv: "ioev_inv sample_msix_device" by (simp add: ioev_inv_def sample_msix_device_def sample_device_def)
  have "case vfio_pci_ioeventfd (sample_kernel []) 64 7 4 9 sample_msix_device of
      Some (r, s') \<Rightarrow> r = 0 \<and> length (ioeventfds_list s') = 1 | None \<Rightarrow> False"
    by code_simp
  then obtain s' where "vfio_pci_ioeventfd (sample_kernel []) 64 7 4 9 sample_msix_device = Some (0, s')"
    "length (ioeventfds_list s') = 1" by (auto split: option.splits)
  with ioeventfd_invariant [OF inv this(1)] show ?thesis by auto
qed

text \<open>C31. Binding a write to an eventfd and removing it restores the list.\<close>

theorem ioeventfd_add_remove:
  assumes add: "vfio_pci_ioeventfd K offset data count fd s = Some (0, t)" and fd: "0 \<le> fd"
  shows "\<exists>u. vfio_pci_ioeventfd K offset data count (- 1) t = Some (0, u) \<and>
    ioeventfds_list u = ioeventfds_list s \<and> ioeventfds_nr u = ioeventfds_nr s \<and> barmap u = barmap t"
proof -
  define bar where "bar = nat (VFIO_PCI_OFFSET_TO_INDEX offset)"
  define pos where "pos = nat (offset AND VFIO_PCI_OFFSET_MASK)"
  from add have bar: "bar < 6" "\<not> VFIO_PCI_OFFSET_TO_INDEX offset < 0" "\<not> 5 < VFIO_PCI_OFFSET_TO_INDEX offset"
    by (auto simp: vfio_pci_ioeventfd_def Let_def bar_def split: if_splits)
  from bar(1) have "\<exists>io w. barmap w bar = Some io \<and> pdev w = pdev s \<and> msix_bar w = msix_bar s \<and> msix_range w = msix_range s
      \<and> ioeventfds_list w = ioeventfds_list s \<and> ioeventfds_nr w = ioeventfds_nr s
      \<and> ioeventfd_update K pos bar data count fd w = Some (0, t)"
  proof (cases rule: setup_barmap_cases [of bar K s])
    case (ok io w)
    with add bar show ?thesis
      by (auto simp: vfio_pci_ioeventfd_def Let_def bar_def [symmetric] pos_def [symmetric] split: if_splits)
  next
    case (failed q w)
    with add bar show ?thesis by (auto simp: vfio_pci_ioeventfd_def Let_def bar_def [symmetric] split: if_splits)
  qed
  then obtain io w where w: "barmap w bar = Some io" "pdev w = pdev s" "msix_bar w = msix_bar s"
    "msix_range w = msix_range s" "ioeventfds_list w = ioeventfds_list s" "ioeventfds_nr w = ioeventfds_nr s"
    and up: "ioeventfd_update K pos bar data count fd w = Some (0, t)" by blast
  from up fd w obtain e where t: "barmap t = barmap w" "pdev t = pdev w" "msix_bar t = msix_bar w"
      "msix_range t = msix_range w" "ioeventfds_list t = e # ioeventfds_list w" "ioeventfds_nr t = ioeventfds_nr w + 1"
      "ioev_matches (int pos) bar data count e"
    by (auto simp: ioeventfd_update_def Let_def case_prod_unfold ioev_matches_def msix_range_def split: option.splits if_splits)
  from add bar t w show ?thesis
    by (auto simp: vfio_pci_ioeventfd_def Let_def bar_def [symmetric] pos_def [symmetric] vfio_pci_setup_barmap_def
        ioeventfd_update_def List.extract_def split: if_splits)
qed

theorem ioeventfd_add_remove_witness:
  "\<exists>t u. vfio_pci_ioeventfd (sample_kernel []) 64 7 4 9 sample_msix_device = Some (0, t) \<and>
    ioeventfds_list t \<noteq> [] \<and>
    vfio_pci_ioeventfd (sample_kernel []) 64 7 4 (- 1) t = Some (0, u) \<and> ioeventfds_list u = []"
proof -
  have "case vfio_pci_ioeventfd (sample_kernel []) 64 7 4 9 sample_msix_device of
      Some (r, s') \<Rightarrow> r = 0 \<and> ioeventfds_list s' \<noteq> [] | None \<Rightarrow> False"
    by code_simp
  then obtain t where "vfio_pci_ioeventfd (sample_kernel []) 64 7 4 9 sample_msix_device = Some (0, t)"
    "ioeventfds_list t \<noteq> []" by (auto split: option.splits)
  with ioeventfd_add_remove [OF this(1)] show ?thesis
    by (auto simp: sample_msix_device_def sample_device_def)
qed



end
