(* ===== verification/Host.thy ===== *)
theory Host
  imports Prelude
begin

text \<open>
  The host tool, \<^verbatim>\<open>src/host\<close>: the serial protocol to the board (\<^verbatim>\<open>serial.cpp\<close>), the files under
  \<^verbatim>\<open>/sys/bus/pci\<close> (\<^verbatim>\<open>pci.cpp\<close>) and the reset sequence (\<^verbatim>\<open>main.cpp\<close>). Qt and the operating system are a
  parameter: \<open>reply E h c\<close> is the result and the data that the call \<open>c\<close> returns after the history \<open>h\<close>, newest
  first; a nonzero result stands for \<^verbatim>\<open>true\<close>. Messages have no model.
\<close>

section \<open>The world\<close>

datatype host_call =
    Port_open string
  | Port_close
  | Port_write string
  | Wait_bytes_written nat
  | Wait_ready_read nat
  | Read_all
  | File_open string bool
  | File_write string string
  | File_read string nat
  | Path_exists string
  | Msleep nat

text \<open>\<open>to_uint\<close> stands for \<^verbatim>\<open>QString::toUInt\<close>, \<open>stack_byte\<close> for the byte in an array never written to.\<close>

record world =
  reply :: "(host_call \<times> int \<times> string) list \<Rightarrow> host_call \<Rightarrow> int \<times> string"
  to_uint :: "string \<Rightarrow> nat"
  stack_byte :: char

record SerialUsb =
  log :: "(host_call \<times> int \<times> string) list"
  m_portName :: string
  m_Timeout :: nat
  m_LastError :: nat
  m_Verbose :: bool

definition hcall :: "world \<Rightarrow> host_call \<Rightarrow> SerialUsb \<Rightarrow> (int \<times> string) \<times> SerialUsb" where
  "hcall E c s = (let a = reply E (log s) c in (a, s\<lparr>log := (c, a) # log s\<rparr>))"

definition hbool :: "world \<Rightarrow> host_call \<Rightarrow> SerialUsb \<Rightarrow> bool \<times> SerialUsb" where
  "hbool E c s = (let (a, s) = hcall E c s in (fst a \<noteq> 0, s))"

definition hdo :: "world \<Rightarrow> host_call \<Rightarrow> SerialUsb \<Rightarrow> SerialUsb" where
  "hdo E c s = snd (hcall E c s)"

definition new_SerialUsb :: "(host_call \<times> int \<times> string) list \<Rightarrow> SerialUsb" where
  "new_SerialUsb h = \<lparr>log = h, m_portName = [], m_Timeout = 500, m_LastError = 0, m_Verbose = False\<rparr>"

section \<open>The serial line\<close>

abbreviation (input) MAGIC :: string where "MAGIC \<equiv> ''mc''"
abbreviation (input) BASE_ERROR :: nat where "BASE_ERROR \<equiv> 20"

definition SerialUsb_flush :: "world \<Rightarrow> SerialUsb \<Rightarrow> bool \<times> SerialUsb" where
  "SerialUsb_flush E s =
     (let (ready, s) = hbool E (Wait_ready_read 0) s in (True, if ready then hdo E Read_all s else s))"

definition SerialUsb_open :: "world \<Rightarrow> SerialUsb \<Rightarrow> bool \<times> SerialUsb" where
  "SerialUsb_open E s =
     (let s = hdo E Port_close (s\<lparr>m_LastError := 0\<rparr>);
          (ok, s) = hbool E (Port_open (m_portName s)) s in
      if \<not> ok then (False, s\<lparr>m_LastError := BASE_ERROR + 2\<rparr>)
      else (True, snd (SerialUsb_flush E s)))"

definition SerialUsb_close :: "world \<Rightarrow> SerialUsb \<Rightarrow> SerialUsb" where
  "SerialUsb_close E s = hdo E Port_close s"

text \<open>The loop that collects the response; \<open>retry\<close> is the variable of that name, which counts down to zero.\<close>

fun response_loop :: "world \<Rightarrow> nat \<Rightarrow> string \<Rightarrow> SerialUsb \<Rightarrow> string option \<times> SerialUsb" where
  "response_loop E retry data s =
     (if 7 \<le> length data then (Some data, s)
      else
        let (ready, s) = hbool E (Wait_ready_read (m_Timeout s)) s;
            (data, s) = (if ready then (let (a, s) = hcall E Read_all s in (data @ snd a, s)) else (data, s))
        in case retry of 0 \<Rightarrow> (None, s) | Suc r \<Rightarrow> response_loop E r data s)"

declare response_loop.simps [simp del]

definition SerialUsb_sendCommand :: "world \<Rightarrow> char \<Rightarrow> SerialUsb \<Rightarrow> bool \<times> SerialUsb" where
  "SerialUsb_sendCommand E cmd s =
     (let s = hdo E (Port_write (MAGIC @ [cmd, CHR 0x0D])) (s\<lparr>m_LastError := 0\<rparr>);
          (written, s) = hbool E (Wait_bytes_written (m_Timeout s)) s in
      if written then
        (case response_loop E 100 [] s of
           (None, s) \<Rightarrow> (False, s\<lparr>m_LastError := BASE_ERROR + 3\<rparr>)
         | (Some data, s) \<Rightarrow>
             if data ! 0 \<noteq> CHR ''*'' \<or> data ! 1 \<noteq> cmd \<or> data ! 2 \<noteq> CHR 0x0D \<or> data ! 3 \<noteq> CHR 0x0A
             then (False, s\<lparr>m_LastError := BASE_ERROR + 4\<rparr>)
             else (True, s))
      else (False, s\<lparr>m_LastError := BASE_ERROR + 2\<rparr>))"

definition SerialUsb_setGpuPower :: "world \<Rightarrow> bool \<Rightarrow> SerialUsb \<Rightarrow> bool \<times> SerialUsb" where
  "SerialUsb_setGpuPower E v = SerialUsb_sendCommand E (if v then CHR ''1'' else CHR ''0'')"

definition SerialUsb_ping :: "world \<Rightarrow> SerialUsb \<Rightarrow> bool \<times> SerialUsb" where
  "SerialUsb_ping E = SerialUsb_sendCommand E (CHR ''9'')"

section \<open>Devices and drivers\<close>

abbreviation (input) SYSDRIVER :: string where "SYSDRIVER \<equiv> ''/sys/bus/pci/drivers/''"
abbreviation (input) SYSDEVICE :: string where "SYSDEVICE \<equiv> ''/sys/bus/pci/devices/''"
abbreviation (input) SYSRESCAN :: string where "SYSRESCAN \<equiv> ''/sys/bus/pci/rescan''"

text \<open>Opening a file for writing and writing a string, the body of most functions below.\<close>

definition write_file :: "world \<Rightarrow> string \<Rightarrow> string \<Rightarrow> SerialUsb \<Rightarrow> bool \<times> SerialUsb" where
  "write_file E path str s =
     (let (opened, s) = hbool E (File_open path True) s in
      if \<not> opened then (False, s)
      else let (a, s) = hcall E (File_write path str) s in
        if fst a < 0 then (False, s) else (True, s))"

definition PCI_enable :: "world \<Rightarrow> string \<Rightarrow> bool \<Rightarrow> SerialUsb \<Rightarrow> bool \<times> SerialUsb" where
  "PCI_enable E device v =
     write_file E (SYSDEVICE @ device @ ''/enable'') [if v then CHR ''1'' else CHR ''0'', CHR 0x00]"

definition PCI_remove :: "world \<Rightarrow> string \<Rightarrow> SerialUsb \<Rightarrow> bool \<times> SerialUsb" where
  "PCI_remove E device = write_file E (SYSDEVICE @ device @ ''/remove'') [CHR ''1'', CHR 0x00]"

definition PCI_rescan :: "world \<Rightarrow> SerialUsb \<Rightarrow> bool \<times> SerialUsb" where
  "PCI_rescan E = write_file E SYSRESCAN [CHR ''1'', CHR 0x00]"

definition isDeviceExists :: "world \<Rightarrow> string \<Rightarrow> SerialUsb \<Rightarrow> bool \<times> SerialUsb" where
  "isDeviceExists E device = hbool E (Path_exists (SYSDEVICE @ device))"

definition isD3ColdAllowed :: "world \<Rightarrow> string \<Rightarrow> SerialUsb \<Rightarrow> bool \<times> SerialUsb" where
  "isD3ColdAllowed E device s =
     (let path = SYSDEVICE @ device @ ''/d3cold_allowed'';
          (opened, s) = hbool E (File_open path False) s in
      if \<not> opened then (False, s)
      else let (a, s) = hcall E (File_read path 3) s in
        if fst a < 0 then (False, s)
        else ((if snd a = [] then stack_byte E else hd (snd a)) = CHR ''1'', s))"

definition isBind :: "world \<Rightarrow> string \<Rightarrow> string \<Rightarrow> SerialUsb \<Rightarrow> bool \<times> SerialUsb" where
  "isBind E driver device = hbool E (Path_exists (SYSDRIVER @ driver @ ''/'' @ device))"

definition loadDriver :: bool where "loadDriver = False"

definition unloadDriver :: bool where "unloadDriver = True"

definition isDriverLoad :: "world \<Rightarrow> string \<Rightarrow> SerialUsb \<Rightarrow> bool \<times> SerialUsb" where
  "isDriverLoad E driver = hbool E (Path_exists (SYSDRIVER @ driver))"

definition PCIDRIVER_bind :: "world \<Rightarrow> string \<Rightarrow> string \<Rightarrow> SerialUsb \<Rightarrow> bool \<times> SerialUsb" where
  "PCIDRIVER_bind E driver device = write_file E (SYSDRIVER @ driver @ ''/bind'') device"

definition PCIDRIVER_unbind :: "world \<Rightarrow> string \<Rightarrow> string \<Rightarrow> SerialUsb \<Rightarrow> bool \<times> SerialUsb" where
  "PCIDRIVER_unbind E driver device = write_file E (SYSDRIVER @ driver @ ''/unbind'') device"

definition new_id :: "world \<Rightarrow> string \<Rightarrow> string \<Rightarrow> SerialUsb \<Rightarrow> bool \<times> SerialUsb" where
  "new_id E driver ident = write_file E (SYSDRIVER @ driver @ ''/new_id'') ident"

section \<open>The reset sequence\<close>

text \<open>The loops over the devices: one that ignores failures and one that ends at the first.\<close>

definition for_all :: "(string \<Rightarrow> SerialUsb \<Rightarrow> bool \<times> SerialUsb) \<Rightarrow> string list \<Rightarrow> SerialUsb \<Rightarrow> SerialUsb" where
  "for_all f devices s = fold (\<lambda>d s. snd (f d s)) devices s"

fun until_failure :: "(string \<Rightarrow> SerialUsb \<Rightarrow> bool \<times> SerialUsb) \<Rightarrow> string list \<Rightarrow> SerialUsb \<Rightarrow> bool \<times> SerialUsb" where
  "until_failure f [] s = (True, s)"
| "until_failure f (d # ds) s = (case f d s of (ok, s) \<Rightarrow> if ok then until_failure f ds s else (False, s))"

definition check_bind :: "world \<Rightarrow> string \<Rightarrow> SerialUsb \<Rightarrow> bool \<times> SerialUsb" where
  "check_bind E device s =
     (let (bound, s) = isBind E ''pwplug'' device s in
      if \<not> bound then (False, s) else (True, snd (isD3ColdAllowed E device s)))"

text \<open>First part: the drivers, the line, and the devices handed to \<^verbatim>\<open>pwplug\<close> and removed. Zero is success.\<close>

definition reset_prepare :: "world \<Rightarrow> string list \<Rightarrow> SerialUsb \<Rightarrow> int \<times> SerialUsb" where
  "reset_prepare E devices s =
     (let (loaded, s) = isDriverLoad E ''pwplug'' s in
      if \<not> loaded then (3, s) else
      let (loaded, s) = isDriverLoad E ''vfio-pci'' s in
      if \<not> loaded then (4, s) else
      let (opened, s) = SerialUsb_open E (s\<lparr>m_portName := ''ttyACM0''\<rparr>) in
      if \<not> opened then (- 1, s) else
      let (pong, s) = SerialUsb_ping E s in
      if \<not> pong then (- 2, s) else
      let s = for_all (PCIDRIVER_unbind E ''vfio-pci'') devices s;
          s = for_all (PCIDRIVER_unbind E ''pwplug'') devices s;
          (ok, s) = until_failure (PCIDRIVER_bind E ''pwplug'') devices s in
      if \<not> ok then (- 1, s) else
      let s = hdo E (Msleep 100) s;
          (ok, s) = until_failure (check_bind E) devices s in
      if \<not> ok then (- 1, s) else
      (0, hdo E (Msleep 500) (for_all (PCI_remove E) devices s)))"

text \<open>Second part: the power of the GPU off and on.\<close>

definition reset_power :: "world \<Rightarrow> nat \<Rightarrow> nat \<Rightarrow> SerialUsb \<Rightarrow> int \<times> SerialUsb" where
  "reset_power E time1 time2 s =
     (let (off, s) = SerialUsb_setGpuPower E False s in
      if \<not> off then (- 3, s)
      else
        let s = hdo E (Msleep time1) s;
            s = snd (SerialUsb_setGpuPower E True s) in
        (0, hdo E (Msleep time2) s))"

text \<open>Third part: the devices back to \<^verbatim>\<open>vfio-pci\<close>.\<close>

definition reset_restore :: "world \<Rightarrow> string list \<Rightarrow> SerialUsb \<Rightarrow> int \<times> SerialUsb" where
  "reset_restore E devices s =
     (let (ok, s) = PCI_rescan E s in
      if \<not> ok then (- 4, s)
      else
        let s = hdo E (Msleep 300) s;
            s = for_all (PCIDRIVER_unbind E ''pwplug'') devices s;
            s = for_all (PCIDRIVER_bind E ''vfio-pci'') devices s;
            s = hdo E (Msleep 300) s in
        (0, for_all (isDeviceExists E) devices s))"

definition reset_GPU ::
    "world \<Rightarrow> bool \<Rightarrow> string list \<Rightarrow> nat \<Rightarrow> nat \<Rightarrow> (host_call \<times> int \<times> string) list \<Rightarrow> int \<times> SerialUsb" where
  "reset_GPU E verbose devices time1 time2 h =
     (case reset_prepare E devices ((new_SerialUsb h)\<lparr>m_Verbose := verbose\<rparr>) of (err, s) \<Rightarrow>
      if err \<noteq> 0 then (err, s)
      else case reset_power E time1 time2 s of (err, s) \<Rightarrow>
        if err \<noteq> 0 then (err, s) else reset_restore E devices s)"

definition setGpu :: "world \<Rightarrow> bool \<Rightarrow> bool \<Rightarrow> (host_call \<times> int \<times> string) list \<Rightarrow> int \<times> SerialUsb" where
  "setGpu E verbose v h =
     (let s = (new_SerialUsb h)\<lparr>m_Verbose := verbose, m_portName := ''ttyACM0''\<rparr>;
          (opened, s) = SerialUsb_open E s in
      if \<not> opened then (int (m_LastError s), s)
      else let (ok, s) = SerialUsb_setGpuPower E v s in
        if \<not> ok then (int (m_LastError s), s) else (0, s))"

section \<open>The program\<close>

text \<open>The command line as the parser of Qt leaves it.\<close>

record options =
  opt_verbose :: bool
  opt_reset :: bool
  opt_device :: "string option"
  opt_delay1 :: "string option"
  opt_delay2 :: "string option"
  positional :: "string list"

text \<open>Splitting at commas and spaces, without empty parts; \<open>w\<close> is the part read so far, reversed.\<close>

fun split_devices :: "string \<Rightarrow> string \<Rightarrow> string list" where
  "split_devices w [] = (if w = [] then [] else [rev w])"
| "split_devices w (c # cs) =
     (if c = CHR '','' \<or> c = CHR '' '' then (if w = [] then split_devices [] cs else rev w # split_devices [] cs)
      else split_devices (c # w) cs)"

definition main_program :: "world \<Rightarrow> options \<Rightarrow> int \<times> (host_call \<times> int \<times> string) list" where
  "main_program E opts =
     (let verbose = opt_verbose opts;
          delay1 = (case opt_delay1 opts of None \<Rightarrow> 4000 | Some v \<Rightarrow> to_uint E v);
          delay2 = (case opt_delay2 opts of None \<Rightarrow> 1000 | Some v \<Rightarrow> to_uint E v);
          devices = (case opt_device opts of None \<Rightarrow> [] | Some v \<Rightarrow> split_devices [] v) in
      if opt_reset opts then
        (if devices \<noteq> [] then (let (r, s) = reset_GPU E verbose devices delay1 delay2 [] in (r, log s))
         else (- 1, []))
      else case positional opts of
        [] \<Rightarrow> (- 1, [])
      | a # _ \<Rightarrow>
          if a = ''on'' then (let (r, s) = setGpu E verbose True [] in (r, log s))
          else if a = ''off'' then (let (r, s) = setGpu E verbose False [] in (r, log s))
          else (- 1, []))"

end
