(* ===== verification/Firmware.thy ===== *)
theory Firmware
  imports "HOL-Library.Word" Prelude
begin

text \<open>
  The firmware of the Arduino board that switches the power of the GPU, \<^verbatim>\<open>src/arduino/main.ino\<close>. The
  board library is a parameter: \<open>adc\<close> and \<open>millis\<close> are what \<^verbatim>\<open>analogRead\<close> and \<^verbatim>\<open>millis\<close> return after a
  history of calls, newest first. The bytes received and not yet read are the list \<open>rx\<close>, what was
  printed to the serial line is \<open>tx\<close>, oldest first. Statics of functions are fields of the state.
\<close>

section \<open>Board and state\<close>

datatype board_call =
    Pin_mode nat
  | Digital_write nat bool
  | Txled bool
  | Analog_read nat
  | Millis
  | Serial_begin nat
  | Serial1_begin nat

record board =
  adc :: "board_call list \<Rightarrow> nat \<Rightarrow> int"
  board_millis :: "board_call list \<Rightarrow> 32 word"

text \<open>\<open>long long state\<close> of \<^verbatim>\<open>getSwitch\<close>, seen as the structure that \<^verbatim>\<open>getSwitchDebounce\<close> lays over it.\<close>

record debounce =
  db_time :: "32 word"
  db_init :: bool
  db_current :: bool
  db_last :: bool

record firmware =
  did :: "board_call list"
  rx :: "int list"
  tx :: string
  parse_state :: int
  parse_cmd :: int
  magic_len :: int
  gpuPower :: bool
  switch_state :: debounce

abbreviation (input) MOSFET :: nat where "MOSFET \<equiv> 8"
abbreviation (input) RXLED :: nat where "RXLED \<equiv> 17"
abbreviation (input) MAGIC :: string where "MAGIC \<equiv> ''mc''"

definition boot :: firmware where
  "boot = \<lparr>did = [], rx = [], tx = [], parse_state = 0, parse_cmd = 0, magic_len = 0, gpuPower = False,
     switch_state = \<lparr>db_time = 0, db_init = False, db_current = False, db_last = False\<rparr>\<rparr>"

definition board_do :: "board_call \<Rightarrow> firmware \<Rightarrow> firmware" where
  "board_do c s = s\<lparr>did := c # did s\<rparr>"

definition analogRead :: "board \<Rightarrow> nat \<Rightarrow> firmware \<Rightarrow> int \<times> firmware" where
  "analogRead B pin s = (adc B (did s) pin, board_do (Analog_read pin) s)"

definition millis :: "board \<Rightarrow> firmware \<Rightarrow> 32 word \<times> firmware" where
  "millis B s = (board_millis B (did s), board_do Millis s)"

text \<open>\<^verbatim>\<open>Serial.print\<close> and \<^verbatim>\<open>Serial.println\<close> of a string, and the decimal digits of a number.\<close>

definition print :: "string \<Rightarrow> firmware \<Rightarrow> firmware" where
  "print str s = s\<lparr>tx := tx s @ str\<rparr>"

definition println :: "string \<Rightarrow> firmware \<Rightarrow> firmware" where
  "println str = print (str @ [CHR 0x0D, CHR 0x0A])"

fun digits :: "nat \<Rightarrow> string" where
  "digits n = (if n < 10 then [char_of (48 + n)] else digits (n div 10) @ [char_of (48 + n mod 10)])"

declare digits.simps [simp del]

definition DEC :: "int \<Rightarrow> string" where
  "DEC i = (if i < 0 then CHR ''-'' # digits (nat (- i)) else digits (nat i))"

section \<open>LEDs and power\<close>

definition rxled :: "bool \<Rightarrow> firmware \<Rightarrow> firmware" where
  "rxled v = board_do (Digital_write RXLED v)"

definition txled :: "bool \<Rightarrow> firmware \<Rightarrow> firmware" where
  "txled v = board_do (Txled v)"

definition getGpu :: "firmware \<Rightarrow> bool" where
  "getGpu s = gpuPower s"

definition setGpu :: "bool \<Rightarrow> firmware \<Rightarrow> firmware" where
  "setGpu v s = (board_do (Digital_write MOSFET v) s)\<lparr>gpuPower := v\<rparr>"

section \<open>The switch\<close>

definition getSwitchDebounce :: "board \<Rightarrow> bool \<Rightarrow> firmware \<Rightarrow> bool \<times> firmware" where
  "getSwitchDebounce B reading s =
     (let ds = switch_state s;
          ds = (if \<not> db_init ds
                then ds\<lparr>db_init := True, db_current := reading, db_last := reading, db_time := 0\<rparr> else ds);
          (ds, s) =
            (if reading \<noteq> db_last ds then
               (let ds = ds\<lparr>db_last := reading\<rparr>;
                    ds = (if db_time ds = 0 then ds\<lparr>db_current := db_last ds\<rparr> else ds);
                    (now, s) = millis B s in
                (ds\<lparr>db_time := now\<rparr>, s))
             else if 0 < db_time ds then
               (let (now, s) = millis B s in
                (if db_time ds + 100 < now then ds\<lparr>db_time := 0\<rparr> else ds, s))
             else (ds, s)) in
      (db_current ds, s\<lparr>switch_state := ds\<rparr>))"

definition getSwitch :: "board \<Rightarrow> firmware \<Rightarrow> bool \<times> firmware" where
  "getSwitch B s = (let (v, s) = analogRead B 3 s in getSwitchDebounce B (v < 20) s)"

section \<open>Commands\<close>

definition cmdExec :: "board \<Rightarrow> int \<Rightarrow> firmware \<Rightarrow> firmware" where
  "cmdExec B cmd s =
     (if cmd = 0 then println ''-'' (setGpu False s)
      else if cmd = 1 then println ''+'' (setGpu True s)
      else if cmd = 2 then println (if getGpu s then ''+'' else ''-'') s
      else if cmd = 3 then (let (v, s) = analogRead B 0 s in println (DEC v) s)
      else if cmd = 4 then (let (v, s) = analogRead B 1 s in println (DEC v) s)
      else if cmd = 5 then (let (v, s) = analogRead B 2 s in println (DEC v) s)
      else if cmd = 9 then println ''0'' s
      else s)"

definition sendCommand :: "int \<Rightarrow> firmware \<Rightarrow> firmware" where
  "sendCommand cmd = println (DEC cmd)"

section \<open>The serial line\<close>

text \<open>
  The body of the loop for a byte \<open>c\<close>. The array of the magic string is read only below its length.
\<close>

definition handle_byte :: "board \<Rightarrow> int \<Rightarrow> firmware \<Rightarrow> firmware" where
  "handle_byte B c s =
     (if parse_state s < magic_len s then
        (if c = of_char (MAGIC ! nat (parse_state s)) then s\<lparr>parse_state := parse_state s + 1\<rparr>
         else s\<lparr>parse_state := 0\<rparr>)
      else if parse_state s = magic_len s then
        s\<lparr>parse_cmd := c - 48, parse_state := parse_state s + 1\<rparr>
      else if c = 10 \<or> c = 13 then
        (let s = println (DEC (parse_cmd s)) (print ''*'' s);
             s = s\<lparr>parse_state := 0\<rparr> in
         cmdExec B (parse_cmd s) s)
      else s\<lparr>parse_state := 0\<rparr>)"

text \<open>The loop reads the bytes that are waiting, one per round.\<close>

fun serial_loop :: "board \<Rightarrow> int list \<Rightarrow> firmware \<Rightarrow> firmware" where
  "serial_loop B [] s = s"
| "serial_loop B (c # cs) s = serial_loop B cs (handle_byte B c (s\<lparr>rx := cs\<rparr>))"

definition handleSerial :: "board \<Rightarrow> firmware \<Rightarrow> firmware" where
  "handleSerial B s =
     (let s = (if magic_len s \<le> 0 then s\<lparr>magic_len := int (length MAGIC)\<rparr> else s) in
      serial_loop B (rx s) s)"

section \<open>Setup and loop\<close>

definition setup_board :: "firmware \<Rightarrow> firmware" where
  "setup_board s = board_do (Serial1_begin 9600) (board_do (Serial_begin 9600)
     (txled False (rxled False (setGpu True
       (board_do (Pin_mode RXLED) (board_do (Digital_write MOSFET True) (board_do (Pin_mode MOSFET) s)))))))"

text \<open>The part under \<open>if(0)\<close> of the loop is never executed.\<close>

definition loop :: "board \<Rightarrow> firmware \<Rightarrow> firmware" where
  "loop B s = (let (sw, s) = getSwitch B s in handleSerial B s)"

text \<open>The board over time: bytes arrive, then the loop runs.\<close>

definition receive :: "int list \<Rightarrow> firmware \<Rightarrow> firmware" where
  "receive bs s = s\<lparr>rx := rx s @ bs\<rparr>"

fun operate :: "board \<Rightarrow> int list list \<Rightarrow> firmware \<Rightarrow> firmware" where
  "operate B [] s = s"
| "operate B (bs # bss) s = operate B bss (loop B (receive bs s))"

end
