(* ===== verification/Firmware_Props.thy ===== *)
theory Firmware_Props
  imports Firmware
begin

text \<open>
  Properties of the firmware: which commands a stream of bytes contains, that the parser executes exactly
  those, and that the power pin follows them.
\<close>

section \<open>Streams of commands\<close>

text \<open>
  The commands in a stream of bytes: four bytes \<open>m c x e\<close> with \<open>e\<close> the end of a line are the command \<open>x\<close>.
  A byte that does not fit ends the attempt and is gone.
\<close>

fun commands :: "int list \<Rightarrow> int list" where
  "commands [] = []"
| "commands (a # bs) =
     (if a \<noteq> 109 then commands bs
      else case bs of
        [] \<Rightarrow> []
      | b # cs \<Rightarrow>
          if b \<noteq> 99 then commands cs
          else (case cs of
                  x # e # ds \<Rightarrow> if e = 10 \<or> e = 13 then (x - 48) # commands ds else commands ds
                | _ \<Rightarrow> []))"

text \<open>What a command does: the echo and its execution.\<close>

definition answer :: "board \<Rightarrow> int \<Rightarrow> firmware \<Rightarrow> firmware" where
  "answer B cmd s = cmdExec B cmd (println (DEC cmd) (print ''*'' s))"

text \<open>The state without the parser.\<close>

definition erase :: "firmware \<Rightarrow> firmware" where
  "erase s = s\<lparr>rx := [], parse_state := 0, parse_cmd := 0\<rparr>"

lemma erase_upd [simp]:
  "erase (s\<lparr>rx := a\<rparr>) = erase s" "erase (s\<lparr>parse_state := i\<rparr>) = erase s" "erase (s\<lparr>parse_cmd := j\<rparr>) = erase s"
  by (simp_all add: erase_def)

lemma erase_print [simp]: "erase (print x s) = print x (erase s)" "erase (println x s) = println x (erase s)"
  by (simp_all add: erase_def print_def println_def)

lemma erase_read: "fst (analogRead B p (erase s)) = fst (analogRead B p s)"
  "erase (snd (analogRead B p s)) = snd (analogRead B p (erase s))"
  by (simp_all add: analogRead_def board_do_def erase_def)

lemma erase_power [simp]: "erase (setGpu v s) = setGpu v (erase s)" "getGpu (erase s) = getGpu s"
  by (simp_all add: erase_def setGpu_def board_do_def getGpu_def)

lemma erase_cmdExec: "erase (cmdExec B c s) = cmdExec B c (erase s)"
  by (simp add: cmdExec_def case_prod_unfold erase_read Let_def)

lemma erase_answer [simp]: "erase (answer B c s) = answer B c (erase s)"
  by (simp add: answer_def erase_cmdExec)

text \<open>What the bytes do to the parser, where the length of the magic string is known.\<close>

lemma parser_fields [simp]:
  "parse_state (print x s) = parse_state s" "parse_cmd (print x s) = parse_cmd s" "magic_len (print x s) = magic_len s"
  "parse_state (println x s) = parse_state s" "parse_cmd (println x s) = parse_cmd s" "magic_len (println x s) = magic_len s"
  "parse_state (cmdExec B c s) = parse_state s" "parse_cmd (cmdExec B c s) = parse_cmd s"
  "magic_len (cmdExec B c s) = magic_len s" "rx (cmdExec B c s) = rx s" "rx (print x s) = rx s" "rx (println x s) = rx s"
  by (simp_all add: print_def println_def cmdExec_def setGpu_def board_do_def analogRead_def)

lemma handle_byte_0: "parse_state s = 0 \<Longrightarrow> magic_len s = 2 \<Longrightarrow>
    handle_byte B c s = s\<lparr>parse_state := if c = 109 then 1 else 0\<rparr>"
  by (simp add: handle_byte_def)

lemma handle_byte_1: "parse_state s = 1 \<Longrightarrow> magic_len s = 2 \<Longrightarrow>
    handle_byte B c s = s\<lparr>parse_state := if c = 99 then 2 else 0\<rparr>"
  by (simp add: handle_byte_def)

lemma handle_byte_2: "parse_state s = 2 \<Longrightarrow> magic_len s = 2 \<Longrightarrow>
    handle_byte B c s = s\<lparr>parse_cmd := c - 48, parse_state := 3\<rparr>"
  by (simp add: handle_byte_def)

lemma handle_byte_3: "parse_state s = 3 \<Longrightarrow> magic_len s = 2 \<Longrightarrow>
    handle_byte B c s = (if c = 10 \<or> c = 13
      then cmdExec B (parse_cmd s) ((println (DEC (parse_cmd s)) (print ''*'' s))\<lparr>parse_state := 0\<rparr>)
      else s\<lparr>parse_state := 0\<rparr>)"
  by (simp add: handle_byte_def)

lemmas handle_bytes = handle_byte_0 handle_byte_1 handle_byte_2 handle_byte_3

lemma serial_loop_magic [simp]: "magic_len s = 2 \<Longrightarrow> magic_len (serial_loop B bs s) = 2"
  by (induction bs arbitrary: s) (simp_all add: handle_byte_def Let_def)

text \<open>C12. The parser refines the stream of commands. From an idle parser, reading any bytes has the effect of
  executing the commands that the bytes contain, in order, each after its echo.\<close>

theorem serial_refines_commands:
  assumes "parse_state s = 0" "magic_len s = 2"
  shows "erase (serial_loop B bs s) = fold (answer B) (commands bs) (erase s)"
  using assms
proof (induction bs arbitrary: s rule: commands.induct)
  case (2 a bs)
  note idle = "2.prems"
  show ?case
  proof (cases "a = 109")
    case False
    with 2 show ?thesis by (simp add: handle_bytes)
  next
    case m: True
    show ?thesis
    proof (cases bs)
      case Nil
      with m idle show ?thesis by (simp add: handle_bytes)
    next
      case (Cons b cs)
      show ?thesis
      proof (cases "b = 99")
        case False
        with m Cons 2 show ?thesis by (simp add: handle_bytes)
      next
        case c: True
        consider "cs = []" | x where "cs = [x]" | x e ds where "cs = x # e # ds"
          by (metis neq_Nil_conv)
        then show ?thesis
        proof cases
          case 1
          with m c Cons idle show ?thesis by (simp add: handle_bytes)
        next
          case (2 x)
          with m c Cons idle show ?thesis by (simp add: handle_bytes)
        next
          case (3 x e ds)
          with m c Cons idle "2.IH" show ?thesis
            by (simp add: handle_bytes answer_def erase_cmdExec)
        qed
      qed
    qed
  qed
qed simp

text \<open>A board whose analog inputs read as 512 and whose clock stands still.\<close>

definition sample_board :: board where
  "sample_board = \<lparr>adc = \<lambda>_ _. 512, board_millis = \<lambda>_. 1\<rparr>"

theorem serial_refines_commands_witness:
  "tx (serial_loop sample_board (map of_char ''xmc2\<newline>mmc1\<newline>mc0\<newline>'') (boot\<lparr>magic_len := 2, gpuPower := True\<rparr>)) =
    ''*2'' @ [CHR 13, CHR 10] @ ''+'' @ [CHR 13, CHR 10] @ ''*0'' @ [CHR 13, CHR 10] @ ''-'' @ [CHR 13, CHR 10]"
proof -
  let ?bs = "map of_char ''xmc2\<newline>mmc1\<newline>mc0\<newline>'' :: int list" and ?s = "boot\<lparr>magic_len := 2, gpuPower := True\<rparr>"
  have "tx (erase (serial_loop sample_board ?bs ?s)) = tx (fold (answer sample_board) (commands ?bs) (erase ?s))"
    by (subst serial_refines_commands) (simp_all add: boot_def)
  moreover have "tx (fold (answer sample_board) (commands ?bs) (erase ?s)) =
    ''*2'' @ [CHR 13, CHR 10] @ ''+'' @ [CHR 13, CHR 10] @ ''*0'' @ [CHR 13, CHR 10] @ ''-'' @ [CHR 13, CHR 10]"
    by code_simp
  ultimately show ?thesis by (simp add: erase_def)
qed

section \<open>Power\<close>

text \<open>The level of the pin of the transistor, from the calls made, newest first.\<close>

fun pin_level :: "nat \<Rightarrow> board_call list \<Rightarrow> bool" where
  "pin_level p [] = False"
| "pin_level p (c # h) = (case c of Digital_write q v \<Rightarrow> if q = p then v else pin_level p h | _ \<Rightarrow> pin_level p h)"

definition power_after :: "int list \<Rightarrow> bool \<Rightarrow> bool" where
  "power_after = fold (\<lambda>c p. if c = 0 then False else if c = 1 then True else p)"

lemma power_after_simps [simp]:
  "power_after [] p = p"
  "power_after (c # cs) p = power_after cs (if c = 0 then False else if c = 1 then True else p)"
  by (simp_all add: power_after_def)

text \<open>The parser and the power, and what a byte does to them.\<close>

definition core :: "firmware \<Rightarrow> int \<times> int \<times> bool" where
  "core s = (parse_state s, parse_cmd s, gpuPower s)"

fun core_step :: "int \<Rightarrow> int \<times> int \<times> bool \<Rightarrow> int \<times> int \<times> bool" where
  "core_step c (st, cmd, p) =
     (if st = 0 then (if c = 109 then 1 else 0, cmd, p)
      else if st = 1 then (if c = 99 then 2 else 0, cmd, p)
      else if st = 2 then (3, c - 48, p)
      else (0, cmd, if c = 10 \<or> c = 13 then power_after [cmd] p else p))"

definition powered :: "firmware \<Rightarrow> bool" where
  "powered s \<longleftrightarrow> pin_level MOSFET (did s) = gpuPower s \<and> parse_state s \<in> {0..3} \<and> magic_len s \<in> {0, 2} \<and>
     (magic_len s = 0 \<longrightarrow> parse_state s = 0)"

lemma power_fields [simp]:
  "did (print x s) = did s" "did (println x s) = did s" "gpuPower (print x s) = gpuPower s"
  "gpuPower (println x s) = gpuPower s"
  "gpuPower (cmdExec B c s) = power_after [c] (gpuPower s)"
  by (simp_all add: print_def println_def cmdExec_def setGpu_def board_do_def analogRead_def)

lemma cmdExec_pin: "pin_level MOSFET (did s) = gpuPower s \<Longrightarrow>
    pin_level MOSFET (did (cmdExec B c s)) = gpuPower (cmdExec B c s)"
  by (simp add: cmdExec_def print_def println_def setGpu_def board_do_def analogRead_def)

lemma handle_byte_core:
  assumes "powered s" "magic_len s = 2"
  shows "powered (handle_byte B c s) \<and> core (handle_byte B c s) = core_step c (core s) \<and> magic_len (handle_byte B c s) = 2"
proof -
  from assms(1) have "parse_state s \<in> {0..3}" by (simp add: powered_def)
  then have "parse_state s \<in> {0, 1, 2, 3}" by (simp only: atLeastAtMost_iff insert_iff) arith
  then show ?thesis using assms by (auto simp: handle_bytes powered_def core_def cmdExec_pin)
qed

lemma serial_loop_core:
  assumes "powered s" "magic_len s = 2"
  shows "powered (serial_loop B bs s) \<and> core (serial_loop B bs s) = fold core_step bs (core s)"
  using assms
proof (induction bs arbitrary: s)
  case (Cons c cs)
  let ?s = "s\<lparr>rx := cs\<rparr>"
  have "powered ?s" "magic_len ?s = 2" "core ?s = core s" using Cons.prems by (simp_all add: powered_def core_def)
  with handle_byte_core [of ?s B c] Cons.IH show ?case by simp
qed simp

lemma serial_loop_rx: "rx s = bs \<Longrightarrow> rx (serial_loop B bs s) = []"
proof (induction bs arbitrary: s)
  case (Cons c cs)
  have "rx (handle_byte B c (s\<lparr>rx := cs\<rparr>)) = cs" by (simp add: handle_byte_def Let_def)
  with Cons.IH show ?case by simp
qed simp

lemma loop_core:
  assumes "powered s"
  shows "powered (loop B s) \<and> core (loop B s) = fold core_step (rx s) (core s) \<and> rx (loop B s) = []"
proof -
  define t where "t = snd (getSwitch B s)"
  have t: "powered t" "core t = core s" "rx t = rx s" using assms
    by (simp_all add: t_def getSwitch_def getSwitchDebounce_def case_prod_unfold Let_def analogRead_def board_do_def
        millis_def powered_def core_def)
  define u where "u = (if magic_len t \<le> 0 then t\<lparr>magic_len := 2\<rparr> else t)"
  have u: "powered u" "core u = core t" "rx u = rx t" "magic_len u = 2" using t(1) by (auto simp: u_def powered_def core_def)
  have "loop B s = serial_loop B (rx u) u" by (simp add: loop_def handleSerial_def t_def u_def case_prod_unfold Let_def)
  with serial_loop_core [OF u(1,4)] serial_loop_rx [of u "rx u"] t u show ?thesis by simp
qed

lemma operate_core:
  assumes "powered s" "rx s = []"
  shows "powered (operate B bss s) \<and> core (operate B bss s) = fold core_step (concat bss) (core s)"
  using assms
proof (induction bss arbitrary: s)
  case (Cons bs bss)
  let ?r = "receive bs s"
  have "powered ?r" "core ?r = core s" "rx ?r = bs" using Cons.prems by (simp_all add: receive_def powered_def core_def)
  with loop_core [of ?r B] Cons.IH show ?case by simp
qed simp

lemma core_commands: "\<exists>st cmd. fold core_step bs (0, k, p) = (st, cmd, power_after (commands bs) p)"
proof (induction bs arbitrary: k p rule: commands.induct)
  case (2 a bs)
  show ?case
  proof (cases "a = 109 \<and> (\<exists>x e ds. bs = 99 # x # e # ds)")
    case True
    with 2 show ?thesis by fastforce
  next
    case False
    with 2 show ?thesis by (auto split: list.splits)
  qed
qed simp

text \<open>C17. The power of the GPU follows the commands. After power-up and any run of the board, in which the bytes arrive
  in pieces of any size, the pin of the transistor has the level that the last power command of the whole stream
  asked for, on if there was none, and the firmware reports that level.\<close>

theorem gpu_power_follows_commands:
  "gpuPower (operate B bss (setup_board boot)) = power_after (commands (concat bss)) True \<and>
   pin_level MOSFET (did (operate B bss (setup_board boot))) = gpuPower (operate B bss (setup_board boot))"
proof -
  let ?b = "setup_board boot"
  have b: "powered ?b" "rx ?b = []" "core ?b = (0, 0, True)"
    by (simp_all add: setup_board_def boot_def board_do_def setGpu_def rxled_def txled_def powered_def core_def)
  obtain st cmd where "fold core_step (concat bss) (0, 0, True) = (st, cmd, power_after (commands (concat bss)) True)"
    using core_commands by blast
  with operate_core [OF b(1,2), of B bss] b(3) show ?thesis by (simp add: core_def powered_def)
qed

end
