(* ===== verification/Host_Props.thy ===== *)
theory Host_Props
  imports Host Firmware_Props
begin

text \<open>
  Properties of the host tool: its protocol is bounded in time, it understands the firmware on the other
  side of the line, and it cuts the power of a device only after the kernel let go of it.
\<close>

section \<open>Which calls were made\<close>

text \<open>\<open>made P s s'\<close>: every call made between the states satisfies \<open>P\<close>.\<close>

definition made :: "(host_call \<Rightarrow> bool) \<Rightarrow> SerialUsb \<Rightarrow> SerialUsb \<Rightarrow> bool" where
  "made P s s' \<longleftrightarrow> (\<exists>es. log s' = es @ log s \<and> (\<forall>e \<in> set es. P (fst e)))"

definition recent :: "SerialUsb \<Rightarrow> SerialUsb \<Rightarrow> (host_call \<times> int \<times> string) list" where
  "recent s s' = take (length (log s') - length (log s)) (log s')"

lemma recent_append: "log s' = es @ log s \<Longrightarrow> recent s s' = es"
  by (simp add: recent_def)

lemma made_refl [simp]: "made P s s"
  by (simp add: made_def)

lemma made_trans: "made P s t \<Longrightarrow> made P t u \<Longrightarrow> made P s u"
  by (fastforce simp: made_def)

lemma made_mono: "made P s t \<Longrightarrow> (\<And>c. P c \<Longrightarrow> Q c) \<Longrightarrow> made Q s t"
  by (auto simp: made_def)

lemma made_upd [simp]:
  "made P s (t\<lparr>m_LastError := e\<rparr>) = made P s t" "made P s (t\<lparr>m_portName := n\<rparr>) = made P s t"
  "made P (s\<lparr>m_LastError := e\<rparr>) t = made P s t" "made P (s\<lparr>m_portName := n\<rparr>) t = made P s t"
  by (simp_all add: made_def)

lemma made_hcall: "P c \<Longrightarrow> made P s (snd (hcall E c s))" "P c \<Longrightarrow> made P s (snd (hbool E c s))"
    "P c \<Longrightarrow> made P s (hdo E c s)"
  by (simp_all add: made_def hcall_def hbool_def hdo_def Let_def)

lemma made_then [simp]:
  assumes "made P s t" "P c"
  shows "made P s (snd (hcall E c t))" "made P s (snd (hbool E c t))" "made P s (hdo E c t)"
  using made_hcall [where P = P and c = c and E = E and s = t] assms by (auto intro: made_trans)

lemma hcall_fields [simp]:
  "m_Timeout (snd (hcall E c s)) = m_Timeout s" "m_Timeout (snd (hbool E c s)) = m_Timeout s"
  "m_Timeout (hdo E c s) = m_Timeout s"
  "m_LastError (snd (hcall E c s)) = m_LastError s" "m_LastError (snd (hbool E c s)) = m_LastError s"
  "m_LastError (hdo E c s) = m_LastError s"
  "m_portName (snd (hcall E c s)) = m_portName s" "m_portName (snd (hbool E c s)) = m_portName s"
  "m_portName (hdo E c s) = m_portName s"
  by (simp_all add: hcall_def hbool_def hdo_def Let_def)

section \<open>The response loop\<close>

definition waits :: "SerialUsb \<Rightarrow> SerialUsb \<Rightarrow> nat" where
  "waits s s' = length (filter (\<lambda>e. \<exists>t. fst e = Wait_ready_read t) (recent s s'))"

definition line_call :: "host_call \<Rightarrow> bool" where
  "line_call c \<longleftrightarrow> c = Read_all \<or> (\<exists>t. c = Wait_ready_read t)"

lemma response_loop_bound:
  assumes "response_loop E retry data s = (r, s')"
  shows "\<exists>es. log s' = es @ log s \<and> length (filter (\<lambda>e. \<exists>t. fst e = Wait_ready_read t) es) \<le> Suc retry \<and>
    (\<forall>e \<in> set es. line_call (fst e)) \<and> m_LastError s' = m_LastError s \<and> (\<forall>d. r = Some d \<longrightarrow> 7 \<le> length d)"
  using assms
proof (induction retry arbitrary: data s)
  case 0
  then show ?case
    by (auto simp: response_loop.simps [of E 0] hbool_def hcall_def Let_def line_call_def split: if_splits)
next
  case (Suc k)
  show ?case
  proof (cases "7 \<le> length data")
    case True
    with Suc.prems show ?thesis by (auto simp: response_loop.simps)
  next
    case False
    define t where "t = snd (hcall E (Wait_ready_read (m_Timeout s)) s)"
    define u where "u = (if fst (fst (hcall E (Wait_ready_read (m_Timeout s)) s)) \<noteq> 0
      then snd (hcall E Read_all t) else t)"
    obtain d where "response_loop E k d u = (r, s')"
      using Suc.prems False
      by (auto simp: response_loop.simps [of E "Suc k"] hbool_def case_prod_unfold Let_def t_def u_def split: if_splits)
    from Suc.IH [OF this] obtain es where es: "log s' = es @ log u" and
      n: "length (filter (\<lambda>e. \<exists>t. fst e = Wait_ready_read t) es) \<le> Suc k"
      "\<forall>e \<in> set es. line_call (fst e)" "m_LastError s' = m_LastError u" "\<forall>d. r = Some d \<longrightarrow> 7 \<le> length d" by blast
    have "\<exists>fs. log u = fs @ log s \<and> length (filter (\<lambda>e. \<exists>t. fst e = Wait_ready_read t) fs) \<le> 1 \<and>
      (\<forall>e \<in> set fs. line_call (fst e)) \<and> m_LastError u = m_LastError s"
      by (cases "fst (fst (hcall E (Wait_ready_read (m_Timeout s)) s)) = 0")
        (simp_all add: u_def t_def hcall_def Let_def line_call_def)
    then obtain fs where "log u = fs @ log s" "length (filter (\<lambda>e. \<exists>t. fst e = Wait_ready_read t) fs) \<le> 1"
      "\<forall>e \<in> set fs. line_call (fst e)" "m_LastError u = m_LastError s" by blast
    with es n show ?thesis by (intro exI [of _ "es @ fs"]) auto
  qed
qed

text \<open>An exchange writes its command and then only listens.\<close>

definition listen_call :: "host_call \<Rightarrow> bool" where
  "listen_call c \<longleftrightarrow> line_call c \<or> (\<exists>t. c = Wait_bytes_written t)"

lemma sendCommand_log:
  "\<exists>es a. log (snd (SerialUsb_sendCommand E cmd s)) = es @ (Port_write (MAGIC @ [cmd, CHR 0x0D]), a) # log s \<and>
     (\<forall>e \<in> set es. listen_call (fst e)) \<and> length (filter (\<lambda>e. \<exists>t. fst e = Wait_ready_read t) es) \<le> 101 \<and>
     m_LastError (snd (SerialUsb_sendCommand E cmd s)) \<in> {0, 22, 23, 24} \<and>
     (fst (SerialUsb_sendCommand E cmd s) \<longleftrightarrow> m_LastError (snd (SerialUsb_sendCommand E cmd s)) = 0)"
proof -
  define t where "t = hdo E (Port_write (MAGIC @ [cmd, CHR 0x0D])) (s\<lparr>m_LastError := 0\<rparr>)"
  define u where "u = snd (hbool E (Wait_bytes_written (m_Timeout t)) t)"
  obtain r v where run: "response_loop E 100 [] u = (r, v)" by fastforce
  from response_loop_bound [OF run] obtain es where es: "log v = es @ log u"
    "length (filter (\<lambda>e. \<exists>t. fst e = Wait_ready_read t) es) \<le> 101" "\<forall>e \<in> set es. line_call (fst e)"
    "m_LastError v = m_LastError u" by auto
  obtain a b where u: "log u = [(Wait_bytes_written (m_Timeout t), a)] @ (Port_write (MAGIC @ [cmd, CHR 0x0D]), b) # log s"
      "m_LastError u = 0"
    by (auto simp: u_def t_def hbool_def hcall_def hdo_def Let_def)
  have "SerialUsb_sendCommand E cmd s =
     (if fst (hbool E (Wait_bytes_written (m_Timeout t)) t) then
        (case r of None \<Rightarrow> (False, v\<lparr>m_LastError := BASE_ERROR + 3\<rparr>)
         | Some data \<Rightarrow>
             if data ! 0 \<noteq> CHR ''*'' \<or> data ! 1 \<noteq> cmd \<or> data ! 2 \<noteq> CHR 0x0D \<or> data ! 3 \<noteq> CHR 0x0A
             then (False, v\<lparr>m_LastError := BASE_ERROR + 4\<rparr>) else (True, v))
      else (False, u\<lparr>m_LastError := BASE_ERROR + 2\<rparr>))"
    using run by (cases r) (simp_all add: SerialUsb_sendCommand_def t_def u_def case_prod_unfold Let_def)
  then consider e where "snd (SerialUsb_sendCommand E cmd s) = v\<lparr>m_LastError := e\<rparr>" "e \<in> {23, 24}"
      "\<not> fst (SerialUsb_sendCommand E cmd s)"
    | "SerialUsb_sendCommand E cmd s = (True, v)" | "SerialUsb_sendCommand E cmd s = (False, u\<lparr>m_LastError := 22\<rparr>)"
    by (auto split: option.splits if_splits)
  then show ?thesis
  proof cases
    case (1 e)
    then show ?thesis using es u
      by (intro exI [of _ "es @ [(Wait_bytes_written (m_Timeout t), a)]"] exI [of _ b]) (auto simp: listen_call_def)
  next
    case 2
    then show ?thesis using es u
      by (intro exI [of _ "es @ [(Wait_bytes_written (m_Timeout t), a)]"] exI [of _ b]) (auto simp: listen_call_def)
  next
    case 3
    then show ?thesis using u
      by (intro exI [of _ "[(Wait_bytes_written (m_Timeout t), a)]"] exI [of _ b]) (auto simp: listen_call_def)
  qed
qed

text \<open>C33. Every exchange with the board ends. Whatever the line does, the host waits at most 101 times for
  a response, so at most 101 timeouts long, writes the command once, and reports either success with no error
  or one of three error codes.\<close>

theorem send_command_bounded:
  "case SerialUsb_sendCommand E cmd s of (ok, s') \<Rightarrow>
     (\<exists>es. log s' = es @ log s) \<and> waits s s' \<le> 101 \<and>
     length (filter (\<lambda>e. \<exists>x. fst e = Port_write x) (recent s s')) = 1 \<and>
     m_LastError s' \<in> {0, 22, 23, 24} \<and> (ok \<longleftrightarrow> m_LastError s' = 0)"
proof -
  obtain ok s' where run: "SerialUsb_sendCommand E cmd s = (ok, s')" by fastforce
  with sendCommand_log [of E cmd s] obtain es a where es: "log s' = (es @ [(Port_write (MAGIC @ [cmd, CHR 0x0D]), a)]) @ log s"
    "\<forall>e \<in> set es. listen_call (fst e)" "length (filter (\<lambda>e. \<exists>t. fst e = Wait_ready_read t) es) \<le> 101"
    "m_LastError s' \<in> {0, 22, 23, 24}" "ok \<longleftrightarrow> m_LastError s' = 0" by auto
  from es(2) have "filter (\<lambda>e. \<exists>x. fst e = Port_write x) es = []"
    by (auto simp: filter_empty_conv listen_call_def line_call_def)
  with es recent_append [OF es(1)] run show ?thesis by (auto simp: waits_def)
qed

section \<open>Host and firmware\<close>

text \<open>
  \<open>delivers E h cs\<close>: from the history \<open>h\<close> on, each wait for the line is answered by the next of the chunks \<open>cs\<close>,
  with a timeout where it is \<open>None\<close>.
\<close>

fun delivers :: "world \<Rightarrow> nat \<Rightarrow> (host_call \<times> int \<times> string) list \<Rightarrow> string option list \<Rightarrow> bool" where
  "delivers E t h [] = True"
| "delivers E t h (c # cs) =
     (let a = reply E h (Wait_ready_read t); h = (Wait_ready_read t, a) # h in
      case c of
        None \<Rightarrow> fst a = 0 \<and> delivers E t h cs
      | Some bytes \<Rightarrow> fst a \<noteq> 0 \<and>
          (let b = reply E h Read_all in snd b = bytes \<and> delivers E t ((Read_all, b) # h) cs))"

definition received :: "string option list \<Rightarrow> string" where
  "received cs = concat (map (\<lambda>c. case c of None \<Rightarrow> [] | Some b \<Rightarrow> b) cs)"

lemma received_simps [simp]: "received [] = []" "received (None # cs) = received cs" "received (Some b # cs) = b @ received cs"
  by (simp_all add: received_def)

lemma response_loop_delivers:
  assumes "delivers E (m_Timeout s) (log s) cs" "length cs \<le> retry" "length data + length (received cs) = 7"
  shows "\<exists>s'. response_loop E retry data s = (Some (data @ received cs), s')"
  using assms
proof (induction cs arbitrary: retry data s)
  case Nil
  then show ?case by (simp add: response_loop.simps)
next
  case (Cons c cs)
  from Cons.prems(2) obtain k where k: "retry = Suc k" "length cs \<le> k" by (cases retry) auto
  show ?case
  proof (cases "7 \<le> length data")
    case True
    with Cons.prems(3) have "length (received (c # cs)) = 0" by linarith
    with True show ?thesis by (simp add: response_loop.simps)
  next
    case False
    define t where "t = snd (hcall E (Wait_ready_read (m_Timeout s)) s)"
    show ?thesis
    proof (cases c)
      case None
      with Cons.prems(1) have "fst (reply E (log s) (Wait_ready_read (m_Timeout s))) = 0"
        and d: "delivers E (m_Timeout t) (log t) cs"
        by (auto simp: Let_def t_def hcall_def)
      then have "response_loop E retry data s = response_loop E k data t"
        using False k by (subst response_loop.simps) (simp add: hbool_def hcall_def t_def Let_def)
      with Cons.IH [OF d k(2), of data] Cons.prems(3) None show ?thesis by simp
    next
      case (Some b)
      define u where "u = snd (hcall E Read_all t)"
      from Cons.prems(1) Some have "fst (reply E (log s) (Wait_ready_read (m_Timeout s))) \<noteq> 0"
        and b: "snd (reply E (log t) Read_all) = b" and d: "delivers E (m_Timeout u) (log u) cs"
        by (auto simp: Let_def t_def u_def hcall_def)
      then have "response_loop E retry data s = response_loop E k (data @ b) u"
        using False k by (subst response_loop.simps) (simp add: hbool_def hcall_def t_def u_def Let_def)
      with Cons.IH [OF d k(2), of "data @ b"] Cons.prems(3) Some show ?thesis by simp
    qed
  qed
qed

text \<open>The bytes the firmware prints while it reads those that the host writes.\<close>

definition firmware_reads :: "board \<Rightarrow> string \<Rightarrow> firmware \<Rightarrow> firmware" where
  "firmware_reads B str f = serial_loop B (map of_char str) f"

lemma DEC_digit: "DEC 0 = ''0''" "DEC 1 = ''1''" "DEC 9 = ''9''"
  by code_simp+

lemma firmware_replies:
  assumes "parse_state f = 0" "magic_len f = 2" "cmd \<in> {CHR ''0'', CHR ''1'', CHR ''9''}"
  shows "tx (firmware_reads B (MAGIC @ [cmd, CHR 0x0D]) f) = tx f @ [CHR ''*'', cmd, CHR 0x0D, CHR 0x0A] @
      [if cmd = CHR ''1'' then CHR ''+'' else if cmd = CHR ''0'' then CHR ''-'' else CHR ''0'', CHR 0x0D, CHR 0x0A]"
    and "gpuPower (firmware_reads B (MAGIC @ [cmd, CHR 0x0D]) f) =
      (if cmd = CHR ''1'' then True else if cmd = CHR ''0'' then False else gpuPower f)"
proof -
  note fw = firmware_reads_def handle_bytes cmdExec_def println_def print_def Firmware.setGpu_def board_do_def
    DEC_digit assms(1,2)
  from assms(3) consider "cmd = CHR ''0''" | "cmd = CHR ''1''" | "cmd = CHR ''9''" by blast
  note cases = this
  from cases show "tx (firmware_reads B (MAGIC @ [cmd, CHR 0x0D]) f) = tx f @ [CHR ''*'', cmd, CHR 0x0D, CHR 0x0A] @
      [if cmd = CHR ''1'' then CHR ''+'' else if cmd = CHR ''0'' then CHR ''-'' else CHR ''0'', CHR 0x0D, CHR 0x0A]"
    by cases (simp_all add: fw)
  from cases show "gpuPower (firmware_reads B (MAGIC @ [cmd, CHR 0x0D]) f) =
      (if cmd = CHR ''1'' then True else if cmd = CHR ''0'' then False else gpuPower f)"
    by cases (simp_all add: fw)
qed

text \<open>C16. Host and firmware understand each other. The firmware waits for a command; the host sends power off, power
  on or a ping, and what the firmware prints in answer arrives at the host within 100 waits, cut into pieces
  in any way, with any timeouts between. Then the host reports success, and the firmware has done what it was asked for.\<close>

theorem power_command_round_trip:
  assumes idle: "parse_state f = 0" "magic_len f = 2" and cmd: "cmd \<in> {CHR ''0'', CHR ''1'', CHR ''9''}"
    and wire: "h = (Port_write (MAGIC @ [cmd, CHR 0x0D]), reply E (log s) (Port_write (MAGIC @ [cmd, CHR 0x0D]))) # log s"
      "w = reply E h (Wait_bytes_written (m_Timeout s))" "fst w \<noteq> 0"
      "delivers E (m_Timeout s) ((Wait_bytes_written (m_Timeout s), w) # h) cs" "length cs \<le> 100"
    and answer: "tx (firmware_reads B (MAGIC @ [cmd, CHR 0x0D]) f) = tx f @ received cs"
  shows "fst (SerialUsb_sendCommand E cmd s) \<and>
    gpuPower (firmware_reads B (MAGIC @ [cmd, CHR 0x0D]) f) =
      (if cmd = CHR ''1'' then True else if cmd = CHR ''0'' then False else gpuPower f)"
proof -
  define t where "t = hdo E (Port_write (MAGIC @ [cmd, CHR 0x0D])) (s\<lparr>m_LastError := 0\<rparr>)"
  define u where "u = snd (hbool E (Wait_bytes_written (m_Timeout t)) t)"
  have t: "log t = h" "m_Timeout t = m_Timeout s" using wire(1) by (simp_all add: t_def hdo_def hcall_def Let_def)
  have u: "log u = (Wait_bytes_written (m_Timeout s), w) # h" "m_Timeout u = m_Timeout s"
      "fst (hbool E (Wait_bytes_written (m_Timeout t)) t)"
    using wire(2,3) t by (simp_all add: u_def hbool_def hcall_def Let_def)
  from firmware_replies(1) [OF idle cmd, of B] answer have data: "received cs = [CHR ''*'', cmd, CHR 0x0D, CHR 0x0A] @
      [if cmd = CHR ''1'' then CHR ''+'' else if cmd = CHR ''0'' then CHR ''-'' else CHR ''0'', CHR 0x0D, CHR 0x0A]" by simp
  then have "length ([] :: string) + length (received cs) = 7" by simp
  with response_loop_delivers [of E u cs 100 "[]"] wire(4,5) u obtain v where "response_loop E 100 [] u = (Some (received cs), v)"
    by auto
  then have "fst (SerialUsb_sendCommand E cmd s)" using u(3) data
    by (simp add: SerialUsb_sendCommand_def t_def u_def case_prod_unfold Let_def del: append.simps) simp
  with firmware_replies(2) [OF idle cmd, of B] show ?thesis by simp
qed

text \<open>
  A world with a board on the line: an answer arrives in two pieces, after a timeout; every file can be opened
  and every path exists.
\<close>

fun since_write :: "(host_call \<times> int \<times> string) list \<Rightarrow> char \<times> nat" where
  "since_write [] = (CHR ''9'', 0)"
| "since_write ((c, a) # h) =
     (case c of
        Port_write x \<Rightarrow> (x ! 2, 0)
      | Wait_ready_read t \<Rightarrow> (fst (since_write h), Suc (snd (since_write h)))
      | _ \<Rightarrow> since_write h)"

definition sample_answer :: "char \<Rightarrow> string" where
  "sample_answer c = [CHR ''*'', c, CHR 0x0D, CHR 0x0A,
     if c = CHR ''1'' then CHR ''+'' else if c = CHR ''0'' then CHR ''-'' else CHR ''0'', CHR 0x0D, CHR 0x0A]"

definition sample_world :: world where
  "sample_world = \<lparr>reply = \<lambda>h c. case c of
       Wait_ready_read t \<Rightarrow> (if snd (since_write h) = 0 then (0, []) else (1, []))
     | Read_all \<Rightarrow> (case since_write h of (x, n) \<Rightarrow>
         (1, if n = 2 then take 3 (sample_answer x) else if n = 3 then drop 3 (sample_answer x) else []))
     | _ \<Rightarrow> (1, []), to_uint = \<lambda>_. 0, stack_byte = CHR ''?''\<rparr>"

theorem power_command_round_trip_witness:
  "fst (SerialUsb_sendCommand sample_world (CHR ''0'') (new_SerialUsb [])) \<and>
   \<not> gpuPower (firmware_reads sample_board (MAGIC @ [CHR ''0'', CHR 0x0D]) (boot\<lparr>magic_len := 2, gpuPower := True\<rparr>))"
proof -
  let ?f = "boot\<lparr>magic_len := 2, gpuPower := True\<rparr>" and ?s = "new_SerialUsb []"
  let ?h = "(Port_write (MAGIC @ [CHR ''0'', CHR 0x0D]), reply sample_world (log ?s) (Port_write (MAGIC @ [CHR ''0'', CHR 0x0D]))) # log ?s"
  let ?w = "reply sample_world ?h (Wait_bytes_written (m_Timeout ?s))"
  let ?cs = "[None, Some (take 3 (sample_answer (CHR ''0''))), Some (drop 3 (sample_answer (CHR ''0'')))]"
  have idle: "parse_state ?f = 0" "magic_len ?f = 2" by (simp_all add: boot_def)
  have "CHR ''0'' \<in> {CHR ''0'', CHR ''1'', CHR ''9''}" "fst ?w \<noteq> 0" "length ?cs \<le> 100"
    "delivers sample_world (m_Timeout ?s) ((Wait_bytes_written (m_Timeout ?s), ?w) # ?h) ?cs"
    "tx (firmware_reads sample_board (MAGIC @ [CHR ''0'', CHR 0x0D]) ?f) = tx ?f @ received ?cs"
    by code_simp+
  note facts = this
  from power_command_round_trip [OF idle facts(1) refl refl facts(2,4,3,5)] show ?thesis by simp
qed

section \<open>The reset sequence\<close>

definition power_command :: "bool \<Rightarrow> host_call" where
  "power_command v = Port_write (MAGIC @ [if v then CHR ''1'' else CHR ''0'', CHR 0x0D])"

definition no_power :: "host_call \<Rightarrow> bool" where
  "no_power c \<longleftrightarrow> (\<forall>v. c \<noteq> power_command v)"

lemma no_power_simps [simp]:
  "no_power Port_close" "no_power (Port_open n)" "no_power (Wait_ready_read t)" "no_power Read_all"
  "no_power (File_open p w)" "no_power (File_write p x)" "no_power (File_read p k)" "no_power (Path_exists p)"
  "no_power (Msleep k)"
  by (simp_all add: no_power_def power_command_def)

lemma listen_no_power: "listen_call c \<Longrightarrow> no_power c"
  by (auto simp: listen_call_def line_call_def no_power_def power_command_def)

lemma ping_made: "made no_power s (snd (SerialUsb_ping E s))"
proof -
  from sendCommand_log [of E "CHR ''9''" s] obtain es a where
    "log (snd (SerialUsb_ping E s)) = (es @ [(Port_write (MAGIC @ [CHR ''9'', CHR 0x0D]), a)]) @ log s"
    "\<forall>e \<in> set es. listen_call (fst e)"
    by (auto simp: SerialUsb_ping_def)
  moreover have "no_power (Port_write (MAGIC @ [CHR ''9'', CHR 0x0D]))" by (simp add: no_power_def power_command_def)
  ultimately show ?thesis unfolding made_def
    by (intro exI [of _ "es @ [(Port_write (MAGIC @ [CHR ''9'', CHR 0x0D]), a)]"]) (auto intro: listen_no_power)
qed

lemma write_file_made: "made no_power s (snd (write_file E p x s))"
  by (simp add: write_file_def case_prod_unfold Let_def)

lemma for_all_made: "(\<And>d s. made P s (snd (f d s))) \<Longrightarrow> made P s (for_all f ds s)"
  unfolding for_all_def by (induction ds arbitrary: s) (auto intro: made_trans)

lemma until_failure_made: "(\<And>d s. made P s (snd (f d s))) \<Longrightarrow> made P s (snd (until_failure f ds s))"
  by (induction ds arbitrary: s) (auto simp: case_prod_unfold intro: made_trans)

lemma check_bind_made: "made no_power s (snd (check_bind E d s))"
  by (simp add: check_bind_def isBind_def isD3ColdAllowed_def case_prod_unfold Let_def)

lemma open_made: "made no_power s (snd (SerialUsb_open E s))"
  by (simp add: SerialUsb_open_def SerialUsb_flush_def case_prod_unfold Let_def)

lemmas files_made = PCI_remove_def PCI_rescan_def PCIDRIVER_bind_def PCIDRIVER_unbind_def write_file_made

text \<open>An event between two states.\<close>

definition happened :: "host_call \<Rightarrow> (int \<Rightarrow> bool) \<Rightarrow> SerialUsb \<Rightarrow> SerialUsb \<Rightarrow> bool" where
  "happened c Q s s' \<longleftrightarrow> (\<exists>e \<in> set (recent s s'). fst e = c \<and> Q (fst (snd e)))"

lemma happened_mono:
  assumes "happened c Q t u" "made P s t" "made P' t u" "made P'' u v"
  shows "happened c Q s v"
proof -
  from assms(2-4) obtain a b d where "log t = a @ log s" "log u = b @ log t" "log v = d @ log u" by (auto simp: made_def)
  moreover from this have "recent t u = b" "recent s v = d @ b @ a" by (auto intro: recent_append)
  ultimately show ?thesis using assms(1) by (auto simp: happened_def)
qed

lemma until_failure_each:
  assumes "until_failure f ds s = (True, s')" "d \<in> set ds" "\<And>d s. made P s (snd (f d s))"
  shows "\<exists>t u. f d t = (True, u) \<and> made P s t \<and> made P t u \<and> made P u s'"
  using assms(1,2)
proof (induction ds arbitrary: s)
  case (Cons x ds)
  from Cons.prems(1) obtain u where u: "f x s = (True, u)" "until_failure f ds u = (True, s')"
    by (auto split: prod.splits if_splits)
  have m: "made P s u" "made P u s'"
    using assms(3) [of s x] u until_failure_made [of P f u ds, OF assms(3)] by simp_all
  show ?case
  proof (cases "d = x")
    case True
    with u m show ?thesis by (metis made_refl)
  next
    case False
    with Cons.IH [OF u(2)] Cons.prems(2) m(1) show ?thesis by (metis made_trans set_ConsD)
  qed
qed simp

lemma for_all_each:
  assumes "d \<in> set ds" "\<And>d s. made P s (snd (f d s))"
  shows "\<exists>t. made P s t \<and> made P t (snd (f d t)) \<and> made P (snd (f d t)) (for_all f ds s)"
  using assms(1)
proof (induction ds arbitrary: s)
  case (Cons x ds)
  have eq: "for_all f (x # ds) s = for_all f ds (snd (f x s))" by (simp add: for_all_def)
  have m: "made P s (snd (f x s))" "made P (snd (f x s)) (for_all f ds (snd (f x s)))"
    by (rule assms(2)) (rule for_all_made [OF assms(2)])
  show ?case
  proof (cases "d = x")
    case True
    with eq m show ?thesis by (metis made_refl)
  next
    case False
    with Cons.IH [of "snd (f x s)"] Cons.prems eq m(1) show ?thesis by (metis made_trans set_ConsD)
  qed
qed simp

lemma bind_happened:
  "PCIDRIVER_bind E drv d t = (True, u) \<Longrightarrow> happened (File_write (SYSDRIVER @ drv @ ''/bind'') d) (\<lambda>r. 0 \<le> r) t u"
  by (auto simp: PCIDRIVER_bind_def write_file_def hbool_def hcall_def Let_def happened_def recent_def split: if_splits)

lemma check_happened:
  "check_bind E d t = (True, u) \<Longrightarrow> happened (Path_exists (SYSDRIVER @ ''pwplug'' @ ''/'' @ d)) (\<lambda>r. r \<noteq> 0) t u"
  by (auto simp: check_bind_def isBind_def isD3ColdAllowed_def hbool_def hcall_def Let_def happened_def recent_def
      case_prod_unfold split: if_splits)

lemma remove_happened: "happened (File_open (SYSDEVICE @ d @ ''/remove'') True) (\<lambda>_. True) t (snd (PCI_remove E d t))"
  by (auto simp: PCI_remove_def write_file_def hbool_def hcall_def Let_def happened_def recent_def)

lemma prepare_detaches:
  assumes "reset_prepare E devices s = (r, s')"
  shows "made no_power s s' \<and> (r = 0 \<longrightarrow> (\<forall>d \<in> set devices.
    happened (File_write (SYSDRIVER @ ''pwplug'' @ ''/bind'') d) (\<lambda>r. 0 \<le> r) s s' \<and>
    happened (Path_exists (SYSDRIVER @ ''pwplug'' @ ''/'' @ d)) (\<lambda>r. r \<noteq> 0) s s' \<and>
    happened (File_open (SYSDEVICE @ d @ ''/remove'') True) (\<lambda>_. True) s s'))"
proof -
  define s1 where "s1 = snd (isDriverLoad E ''pwplug'' s)"
  define s2 where "s2 = snd (isDriverLoad E ''vfio-pci'' s1)"
  define s3 where "s3 = snd (SerialUsb_open E (s2\<lparr>m_portName := ''ttyACM0''\<rparr>))"
  define s4 where "s4 = snd (SerialUsb_ping E s3)"
  define s5 where "s5 = for_all (PCIDRIVER_unbind E ''pwplug'') devices (for_all (PCIDRIVER_unbind E ''vfio-pci'') devices s4)"
  define b where "b = until_failure (PCIDRIVER_bind E ''pwplug'') devices s5"
  define s6 where "s6 = hdo E (Msleep 100) (snd b)"
  define k where "k = until_failure (check_bind E) devices s6"
  define s7 where "s7 = for_all (PCI_remove E) devices (snd k)"
  define s8 where "s8 = hdo E (Msleep 500) s7"
  have run: "(r, s') = (if \<not> fst (isDriverLoad E ''pwplug'' s) then (3, s1)
      else if \<not> fst (isDriverLoad E ''vfio-pci'' s1) then (4, s2)
      else if \<not> fst (SerialUsb_open E (s2\<lparr>m_portName := ''ttyACM0''\<rparr>)) then (- 1, s3)
      else if \<not> fst (SerialUsb_ping E s3) then (- 2, s4)
      else if \<not> fst b then (- 1, snd b) else if \<not> fst k then (- 1, snd k) else (0, s8))"
    using assms [symmetric] unfolding s8_def s7_def k_def s6_def b_def s5_def s4_def s3_def s2_def s1_def
    by (simp only: reset_prepare_def case_prod_unfold Let_def)
  have unbind: "made no_power s (snd (PCIDRIVER_unbind E drv d s))" and bind: "made no_power s (snd (PCIDRIVER_bind E drv d s))"
    and remove: "made no_power s (snd (PCI_remove E d s))" for s drv d by (simp_all add: files_made)
  have m1: "made no_power s s1" "made no_power s s2" by (simp_all add: s1_def s2_def isDriverLoad_def)
  have m3: "made no_power s s3" using open_made [of "s2\<lparr>m_portName := ''ttyACM0''\<rparr>" E] m1(2)
    by (auto simp: s3_def intro: made_trans)
  have m4: "made no_power s s4" using made_trans [OF m3 ping_made] by (simp add: s4_def)
  have m5: "made no_power s s5" unfolding s5_def
    by (intro made_trans [OF m4] made_trans [OF for_all_made for_all_made] unbind)
  have mb: "made no_power s5 (snd b)" unfolding b_def by (intro until_failure_made bind)
  have m6: "made no_power (snd b) s6" by (simp add: s6_def)
  have mk: "made no_power s6 (snd k)" unfolding k_def by (intro until_failure_made check_bind_made)
  have m7: "made no_power (snd k) s7" unfolding s7_def by (intro for_all_made remove)
  have m8: "made no_power s7 s8" by (simp add: s8_def)
  note pre = made_trans [OF m5 mb]
  note mid = made_trans [OF pre m6]
  note post = made_trans [OF mid mk]
  note all = made_trans [OF post made_trans [OF m7 m8]]
  have "made no_power s s'" using run m1 m3 m4 pre post all by (auto split: if_splits)
  moreover have "happened (File_write (SYSDRIVER @ ''pwplug'' @ ''/bind'') d) (\<lambda>r. 0 \<le> r) s s'"
      "happened (Path_exists (SYSDRIVER @ ''pwplug'' @ ''/'' @ d)) (\<lambda>r. r \<noteq> 0) s s'"
      "happened (File_open (SYSDEVICE @ d @ ''/remove'') True) (\<lambda>_. True) s s'"
    if r: "r = 0" and d: "d \<in> set devices" for d
  proof -
    from run r have ok: "fst b" "fst k" and s': "s' = s8" by (auto split: if_splits)
    obtain t u where tu: "PCIDRIVER_bind E ''pwplug'' d t = (True, u)" "made no_power s5 t" "made no_power t u" "made no_power u (snd b)"
      using until_failure_each [of "PCIDRIVER_bind E ''pwplug''" devices s5 "snd b" d no_power] ok(1) d bind
      by (auto simp: b_def prod_eq_iff)
    show "happened (File_write (SYSDRIVER @ ''pwplug'' @ ''/bind'') d) (\<lambda>r. 0 \<le> r) s s'" unfolding s'
      by (rule happened_mono [OF bind_happened [OF tu(1)] made_trans [OF m5 tu(2)] tu(3)
            made_trans [OF tu(4) made_trans [OF m6 made_trans [OF mk made_trans [OF m7 m8]]]]])
    obtain t u where tu: "check_bind E d t = (True, u)" "made no_power s6 t" "made no_power t u" "made no_power u (snd k)"
      using until_failure_each [of "check_bind E" devices s6 "snd k" d no_power] ok(2) d check_bind_made
      by (auto simp: k_def prod_eq_iff)
    show "happened (Path_exists (SYSDRIVER @ ''pwplug'' @ ''/'' @ d)) (\<lambda>r. r \<noteq> 0) s s'" unfolding s'
      by (rule happened_mono [OF check_happened [OF tu(1)] made_trans [OF mid tu(2)] tu(3)
            made_trans [OF tu(4) made_trans [OF m7 m8]]])
    obtain t where t: "made no_power (snd k) t" "made no_power t (snd (PCI_remove E d t))" "made no_power (snd (PCI_remove E d t)) s7"
      using for_all_each [of d devices no_power "PCI_remove E" "snd k"] d remove by (auto simp: s7_def)
    show "happened (File_open (SYSDEVICE @ d @ ''/remove'') True) (\<lambda>_. True) s s'" unfolding s'
      by (rule happened_mono [OF remove_happened made_trans [OF post t(1)] t(2) made_trans [OF t(3) m8]])
  qed
  ultimately show ?thesis by blast
qed

lemma restore_made: "made no_power s (snd (reset_restore E devices s))"
proof -
  have w: "made no_power s (snd (PCIDRIVER_unbind E drv d s))" "made no_power s (snd (PCIDRIVER_bind E drv d s))"
    "made no_power s (snd (PCI_rescan E s))" "made no_power s (snd (isDeviceExists E d s))" for s drv d
    by (simp_all add: files_made isDeviceExists_def)
  define t where "t = hdo E (Msleep 300) (snd (PCI_rescan E s))"
  define u where "u = for_all (PCIDRIVER_bind E ''vfio-pci'') devices (for_all (PCIDRIVER_unbind E ''pwplug'') devices t)"
  have t: "made no_power s t" unfolding t_def by (rule made_then(3) [OF w(3)]) simp
  have u: "made no_power s u" unfolding u_def
    by (intro made_trans [OF t] made_trans [OF for_all_made for_all_made] w)
  have "made no_power s (hdo E (Msleep 300) u)" using u by simp
  from made_trans [OF this for_all_made [of no_power "isDeviceExists E"]] w(3,4) show ?thesis
    by (simp add: reset_restore_def t_def u_def case_prod_unfold Let_def)
qed

lemma power_cycle_log:
  assumes "reset_power E time1 time2 s = (r, s')"
  shows "\<exists>es a. log s' = es @ (power_command False, a) # log s \<and> (\<forall>e \<in> set es. fst e \<noteq> power_command False) \<and>
    (r = 0 \<and> (\<exists>b. (power_command True, b) \<in> set es) \<or> r = - 3)"
proof -
  define u where "u = snd (SerialUsb_setGpuPower E False s)"
  define v where "v = hdo E (Msleep time1) u"
  define w where "w = snd (SerialUsb_setGpuPower E True v)"
  have quiet: "listen_call c \<Longrightarrow> c \<noteq> power_command x" for c x
    by (auto simp: listen_call_def line_call_def power_command_def)
  obtain es a where u: "log u = es @ (power_command False, a) # log s" "\<forall>e \<in> set es. listen_call (fst e)"
    using sendCommand_log [of E "CHR ''0''" s] by (auto simp: u_def SerialUsb_setGpuPower_def power_command_def)
  obtain fs b where w: "log w = fs @ (power_command True, b) # log v" "\<forall>e \<in> set fs. listen_call (fst e)"
    using sendCommand_log [of E "CHR ''1''" v] by (auto simp: w_def SerialUsb_setGpuPower_def power_command_def)
  obtain c d where v: "log v = (Msleep time1, c) # log u" and l: "log (hdo E (Msleep time2) w) = (Msleep time2, d) # log w"
    by (simp add: v_def hdo_def hcall_def Let_def)
  have cases: "(r, s') = (if \<not> fst (SerialUsb_setGpuPower E False s) then (- 3, u) else (0, hdo E (Msleep time2) w))"
    using assms [symmetric] unfolding u_def v_def w_def by (simp only: reset_power_def case_prod_unfold Let_def)
  show ?thesis
  proof (cases "fst (SerialUsb_setGpuPower E False s)")
    case False
    with cases u quiet show ?thesis by fastforce
  next
    case True
    define gs where "gs = (Msleep time2, d) # fs @ (power_command True, b) # (Msleep time1, c) # es"
    have "log s' = gs @ (power_command False, a) # log s" using True cases u w v l by (simp add: gs_def)
    moreover have "\<forall>e \<in> set gs. fst e \<noteq> power_command False"
      using u(2) w(2) quiet by (auto simp: gs_def) (auto simp: power_command_def)
    moreover have "\<exists>b. (power_command True, b) \<in> set gs" by (intro exI [of _ b]) (simp add: gs_def)
    ultimately show ?thesis using True cases by (intro exI [of _ gs] exI [of _ a]) auto
  qed
qed

lemma unique_split:
  assumes "xs @ (c, x) # ys = us @ (c, y) # vs" "\<forall>e \<in> set us. fst e \<noteq> c" "\<forall>e \<in> set vs. fst e \<noteq> c"
  shows "xs = us \<and> ys = vs"
  using assms
  by (auto simp: append_eq_append_conv2 append_eq_Cons_conv Cons_eq_append_conv)


text \<open>The sample world grants everything.\<close>

lemma sample_grants:
  "fst (write_file sample_world p x s)" "fst (hbool sample_world (Path_exists p) s)"
  "fst (SerialUsb_open sample_world s)"
  by (simp_all add: write_file_def hbool_def hcall_def SerialUsb_open_def hdo_def SerialUsb_flush_def sample_world_def
      Let_def case_prod_unfold)

lemma sample_sendCommand: "fst (SerialUsb_sendCommand sample_world c s)"
proof -
  define t where "t = hdo sample_world (Port_write (MAGIC @ [c, CHR 0x0D])) (s\<lparr>m_LastError := 0\<rparr>)"
  define u where "u = snd (hbool sample_world (Wait_bytes_written (m_Timeout t)) t)"
  have u: "fst (hbool sample_world (Wait_bytes_written (m_Timeout t)) t)"
    "delivers sample_world (m_Timeout u) (log u) [None, Some (take 3 (sample_answer c)), Some (drop 3 (sample_answer c))]"
    by (simp_all add: u_def t_def hdo_def hbool_def hcall_def sample_world_def Let_def eval_nat_numeral)
  have "length ([] :: string) + length (received [None, Some (take 3 (sample_answer c)), Some (drop 3 (sample_answer c))]) = 7"
    by (simp add: sample_answer_def)
  with response_loop_delivers [OF u(2), of 100 "[]"] obtain v where "response_loop sample_world 100 [] u = (Some (sample_answer c), v)"
    by auto
  then show ?thesis using u(1)
    by (simp add: SerialUsb_sendCommand_def t_def u_def case_prod_unfold Let_def sample_answer_def)
qed

lemma until_failure_ok: "(\<And>d s. fst (f d s)) \<Longrightarrow> fst (until_failure f ds s)"
  by (induction ds arbitrary: s) (auto simp: case_prod_unfold)

lemma sample_reset:
  obtains s s' t where "reset_prepare sample_world ds ((new_SerialUsb [])\<lparr>m_Verbose := False\<rparr>) = (0, s)"
    "reset_power sample_world t1 t2 s = (0, t)" "reset_GPU sample_world False ds t1 t2 [] = (0, s')"
proof -
  note grants = sample_grants sample_sendCommand
  have bind: "fst (until_failure (PCIDRIVER_bind sample_world d) ds s)"
    "fst (until_failure (check_bind sample_world) ds s)" for d s
    by (intro until_failure_ok; simp add: PCIDRIVER_bind_def check_bind_def isBind_def grants case_prod_unfold)+
  have "fst (reset_prepare sample_world ds s) = 0" "fst (reset_power sample_world t1 t2 s) = 0"
    "fst (reset_restore sample_world ds s) = 0" for s
    using bind
    by (simp_all add: reset_prepare_def reset_power_def reset_restore_def case_prod_unfold Let_def isDriverLoad_def grants
        SerialUsb_ping_def SerialUsb_setGpuPower_def PCI_rescan_def)
  then show thesis
    by (intro that [of "snd (reset_prepare sample_world ds ((new_SerialUsb [])\<lparr>m_Verbose := False\<rparr>))"])
      (simp_all add: prod_eq_iff reset_GPU_def case_prod_unfold)
qed


end
