(* ===== verification/Pwplug.thy ===== *)
theory Pwplug
  imports Kernel
begin

text \<open>
  The driver that takes the GPU while its power is off, \<^verbatim>\<open>src/device/pwplug.c\<close>. The state of the device as
  the kernel sees it, \<^verbatim>\<open>dev->current_state\<close>, is changed by the kernel only: \<open>current_state\<close> gives it after a
  history of calls. \<open>klog\<close> holds the messages printed, oldest first.
\<close>

record pw_dev = kstate +
  pw_hdr_type :: u8
  d3cold_allowed :: bool
  klog :: "string list"

definition klog_add :: "string \<Rightarrow> pw_dev \<Rightarrow> pw_dev" where
  "klog_add m s = s\<lparr>klog := klog s @ [m]\<rparr>"

definition klog_if :: "bool \<Rightarrow> string \<Rightarrow> pw_dev \<Rightarrow> pw_dev" where
  "klog_if b m s = (if b then klog_add m s else s)"

definition setD3Hot :: "kernel \<Rightarrow> pw_dev \<Rightarrow> int \<times> pw_dev" where
  "setD3Hot K s =
     (let (rc, s) = kcall_rc K (Power (Set_power_state PCI_D0)) s;
          s = klog_if (rc \<noteq> 0) ''set PCI_D0 error'' s;
          (rc, s) = kcall_rc K (Power (Set_power_state PCI_D3hot)) s;
          s = klog_if (rc \<noteq> 0) ''set PCI_D3hot error'' s in
      (rc, s))"

definition state_name :: "pci_power \<Rightarrow> string" where
  "state_name p =
     (case p of
        PCI_D0 \<Rightarrow> ''PCI_D0'' | PCI_D1 \<Rightarrow> ''PCI_D1'' | PCI_D2 \<Rightarrow> ''PCI_D2'' | PCI_D3hot \<Rightarrow> ''PCI_D3hot''
      | PCI_D3cold \<Rightarrow> ''PCI_D3cold'' | PCI_UNKNOWN \<Rightarrow> ''PCI_UNKNOWN'' | PCI_POWER_ERROR \<Rightarrow> ''PCI_POWER_ERROR'')"

definition showPowerState :: "(kevent list \<Rightarrow> pci_power) \<Rightarrow> string \<Rightarrow> pw_dev \<Rightarrow> pw_dev" where
  "showPowerState current_state desc s =
     klog_add (desc @ '' power state: '' @ state_name (current_state (trace s))) s"

definition pci_disable :: "kernel \<Rightarrow> pw_dev \<Rightarrow> pw_dev" where
  "pci_disable K s =
     (let s = kcall_do K (Life Clear_master) s;
          s = kcall_do K (Life Disable_device) s;
          s = klog_add ''Reseting slot'' s;
          (rc, s) = kcall_rc K (Life Probe_reset_slot) s;
          s = (if rc \<noteq> 0 then
                 (let s = klog_add ''Failed reseting slot. reseting bus'' s;
                      (rc, s) = kcall_rc K (Life Probe_reset_bus) s in
                  klog_if (rc \<noteq> 0) ''Failed reseting bus'' s)
               else s);
          (rc, s) = kcall_rc K (Power (Set_power_state PCI_D3cold)) s in
      klog_if (rc \<noteq> 0) ''set PCI_D3cold error'' s)"

definition probe :: "kernel \<Rightarrow> (kevent list \<Rightarrow> pci_power) \<Rightarrow> pw_dev \<Rightarrow> int \<times> pw_dev" where
  "probe K current_state s =
     (let s = klog_add ''probe'' s in
      if pw_hdr_type s \<noteq> 0 then (- EINVAL, s)
      else
        let (rc, s) = kcall_rc K (Life Enable_device) s in
        if rc \<noteq> 0 then (- ENODEV, klog_add ''Error enabling device'' s)
        else
          let s = showPowerState current_state ''current'' s;
              s = klog_add (if d3cold_allowed s then ''D3cold allowed'' else ''D3cold not allowed'') s;
              s = kcall_do K (Life D3cold_enable) s;
              s = pci_disable K s in
          (0, showPowerState current_state ''new'' s))"

text \<open>What follows the \<^verbatim>\<open>return\<close> in the middle of the function is never executed.\<close>

definition remove :: "(kevent list \<Rightarrow> pci_power) \<Rightarrow> pw_dev \<Rightarrow> pw_dev" where
  "remove current_state s = showPowerState current_state ''current'' (klog_add ''remove'' s)"

definition pwplug_init :: "kernel \<Rightarrow> pw_dev \<Rightarrow> int \<times> pw_dev" where
  "pwplug_init K s =
     kcall_rc K (Life Register_driver)
       (klog_add ''##########################  pwplug device driver  #######################'' s)"

definition pwplug_exit :: "kernel \<Rightarrow> pw_dev \<Rightarrow> pw_dev" where
  "pwplug_exit K s =
     kcall_do K (Life Unregister_driver)
       (klog_add ''########################################################################'' s)"

section \<open>Properties\<close>

lemma klog_trace [simp]: "trace (klog_add m s) = trace s" "trace (klog_if b m s) = trace s"
  "trace (showPowerState cs d s) = trace s"
  by (simp_all add: klog_add_def klog_if_def showPowerState_def)

lemma klog_fields [simp]: "pw_hdr_type (klog_add m s) = pw_hdr_type s"
  by (simp add: klog_add_def)

lemma trace_calls: "trace (kcall_do K c s) = (c, respond K (trace s) c) # trace s"
  "trace (snd (kcall_rc K c s)) = (c, respond K (trace s) c) # trace s"
  "fst (kcall_rc K c s) = fst (respond K (trace s) c)"
  for s :: pw_dev
  by (simp_all add: kcall_simps)

text \<open>The calls of \<open>pci_disable\<close>, given whether the kernel can reset the slot.\<close>

definition disable_calls :: "bool \<Rightarrow> kcall list" where
  "disable_calls slot =
     [Life Clear_master, Life Disable_device, Life Probe_reset_slot] @ (if slot then [] else [Life Probe_reset_bus]) @
     [Power (Set_power_state PCI_D3cold)]"

lemma pci_disable_calls: "\<exists>es slot. trace (pci_disable K s) = es @ trace s \<and> map fst (rev es) = disable_calls slot"
  by (auto simp: pci_disable_def case_prod_unfold Let_def trace_calls disable_calls_def)

text \<open>C34. Taking a device puts it into the state where its power may be cut. A device with a normal header that can be
  enabled is allowed to go to D3cold, stopped from mastering the bus, disabled, and last of all put into D3cold;
  the kernel is only asked whether the slot or the bus could be reset, no reset is made. Any other device is refused,
  the one with another header before anything was done to it. Letting a device go does nothing to it.\<close>

theorem pwplug_probe_powers_down:
  "(pw_hdr_type s \<noteq> 0 \<longrightarrow> fst (probe K cs s) = - EINVAL \<and> calls s (snd (probe K cs s)) = []) \<and>
   (pw_hdr_type s = 0 \<longrightarrow>
     (if fst (respond K (trace s) (Life Enable_device)) \<noteq> 0
      then fst (probe K cs s) = - ENODEV \<and> calls s (snd (probe K cs s)) = [Life Enable_device]
      else fst (probe K cs s) = 0 \<and>
        (\<exists>slot. calls s (snd (probe K cs s)) = [Life Enable_device, Life D3cold_enable] @ disable_calls slot))) \<and>
   calls s (remove cs s) = []"
proof -
  define e where "e = respond K (trace s) (Life Enable_device)"
  define t where "t = klog_add (if d3cold_allowed (showPowerState cs ''current'' (snd (kcall_rc K (Life Enable_device) (klog_add ''probe'' s))))
      then ''D3cold allowed'' else ''D3cold not allowed'')
      (showPowerState cs ''current'' (snd (kcall_rc K (Life Enable_device) (klog_add ''probe'' s))))"
  define u where "u = kcall_do K (Life D3cold_enable) t"
  obtain es slot where es: "trace (pci_disable K u) = es @ trace u" "map fst (rev es) = disable_calls slot"
    using pci_disable_calls by blast
  have u: "\<exists>a. trace u = [(Life D3cold_enable, a), (Life Enable_device, e)] @ trace s"
    by (simp add: u_def t_def trace_calls e_def)
  have "probe K cs s =
     (if pw_hdr_type s \<noteq> 0 then (- EINVAL, klog_add ''probe'' s)
      else if fst e \<noteq> 0 then (- ENODEV, klog_add ''Error enabling device'' (snd (kcall_rc K (Life Enable_device) (klog_add ''probe'' s))))
      else (0, showPowerState cs ''new'' (pci_disable K u)))"
    by (simp add: probe_def case_prod_unfold Let_def trace_calls u_def t_def e_def)
  moreover have "calls s (showPowerState cs ''new'' (pci_disable K u)) = [Life Enable_device, Life D3cold_enable] @ disable_calls slot"
    using u es by (auto simp: calls_append)
  moreover have "calls s (klog_add ''Error enabling device'' (snd (kcall_rc K (Life Enable_device) (klog_add ''probe'' s)))) = [Life Enable_device]"
    by (subst calls_append [of _ "[(Life Enable_device, e)]"]) (simp_all add: trace_calls e_def)
  moreover have "calls s (klog_add m s) = []" "calls s (remove cs s) = []" for m
    by (subst calls_append [of _ "[]"]; simp add: remove_def)+
  ultimately show ?thesis unfolding e_def by auto
qed

text \<open>A device with a normal header and a kernel that grants everything.\<close>

theorem pwplug_probe_powers_down_witness:
  "let K = \<lparr>respond = \<lambda>_ _. (0, 0), err_to_errno = \<lambda>e. e, fls = \<lambda>n. n, heap_garbage = \<lambda>_. 0, has_iowrite64 = False,
       IS_ENABLED_VFIO_PCI_INTX = True, IS_ENABLED_VFIO_PCI_MMAP = True, IS_ENABLED_VFIO_PCI_VGA = False,
       IS_ENABLED_VFIO_PCI_IGD = False, IS_ENABLED_VFIO_PCI_NVLINK2 = False\<rparr>;
       s = \<lparr>trace = [], pw_hdr_type = 0, d3cold_allowed = True, klog = []\<rparr> in
   fst (probe K (\<lambda>_. PCI_D0) s) = 0 \<and> last (calls s (snd (probe K (\<lambda>_. PCI_D0) s))) = Power (Set_power_state PCI_D3cold)"
proof -
  let ?K = "\<lparr>respond = \<lambda>_ _. (0, 0), err_to_errno = \<lambda>e. e, fls = \<lambda>n. n, heap_garbage = \<lambda>_. 0, has_iowrite64 = False,
       IS_ENABLED_VFIO_PCI_INTX = True, IS_ENABLED_VFIO_PCI_MMAP = True, IS_ENABLED_VFIO_PCI_VGA = False,
       IS_ENABLED_VFIO_PCI_IGD = False, IS_ENABLED_VFIO_PCI_NVLINK2 = False\<rparr>"
  let ?s = "\<lparr>trace = [], pw_hdr_type = 0, d3cold_allowed = True, klog = []\<rparr>"
  from pwplug_probe_powers_down [of ?s ?K "\<lambda>_. PCI_D0"] have "fst (probe ?K (\<lambda>_. PCI_D0) ?s) = 0 \<and>
    (\<exists>slot. calls ?s (snd (probe ?K (\<lambda>_. PCI_D0) ?s)) = [Life Enable_device, Life D3cold_enable] @ disable_calls slot)"
    by simp
  then show ?thesis by (auto simp: Let_def disable_calls_def)
qed

end
