(* ===== verification/Vfio_Bus.thy ===== *)
theory Vfio_Bus
  imports Device
begin

text \<open>
  The other devices of the bus, first part of \<^verbatim>\<open>src/device/vfio_pci.c\<close>: which devices a slot or bus reset
  affects, when such a reset is tried after the last close, and the lock that devices which are reset
  together share. Where the devices sit is a parameter. Devices are numbered; \<open>walked\<close> are those that
  \<^verbatim>\<open>pci_walk_bus\<close> visits from the bus of this device, in its order, \<open>above d\<close> are the bus and the slot of \<open>d\<close> and
  of the bridges above it, \<open>vga_devices\<close> those that \<^verbatim>\<open>pci_get_class\<close> finds for VGA.
\<close>

record bus =
  self :: nat
  walked :: "nat list"
  pdev_slot :: "nat option"
  slot_bus :: "nat \<Rightarrow> nat"
  above :: "nat \<Rightarrow> (nat \<times> nat option) list"
  domain_nr :: "nat \<Rightarrow> u32"
  bus_number :: "nat \<Rightarrow> u8"
  devfn :: "nat \<Rightarrow> u8"
  on_root_bus :: "nat \<Rightarrow> bool"
  max_busnr :: u8
  vga_devices :: "nat list"

text \<open>
  What another device is bound to, with the fields of its \<^verbatim>\<open>struct vfio_pci_device\<close> that are read or written from
  here. \<open>reflck_refs\<close> counts the references to each shared lock.
\<close>

record peer =
  peer_refcnt :: int
  peer_needs_reset :: bool
  peer_reflck :: "int option"

datatype binding = No_vfio_device | Other_driver | Vfio_pci peer

record system =
  vdev :: vfio_pci_device
  peers :: "nat \<Rightarrow> binding"
  reflck_refs :: "int \<Rightarrow> int"

definition sys_rc :: "kernel \<Rightarrow> kcall \<Rightarrow> system \<Rightarrow> int \<times> system" where
  "sys_rc K c y = (case kcall_rc K c (vdev y) of (rc, s) \<Rightarrow> (rc, y\<lparr>vdev := s\<rparr>))"

definition sys_do :: "kernel \<Rightarrow> kcall \<Rightarrow> system \<Rightarrow> system" where
  "sys_do K c y = y\<lparr>vdev := kcall_do K c (vdev y)\<rparr>"

text \<open>A device as the others see it, this one included.\<close>

definition binding_of :: "bus \<Rightarrow> system \<Rightarrow> nat \<Rightarrow> binding" where
  "binding_of B y d =
     (if d = self B then
        Vfio_pci \<lparr>peer_refcnt = refcnt (vdev y), peer_needs_reset = needs_reset (vdev y), peer_reflck = reflck (vdev y)\<rparr>
      else peers y d)"

definition clear_needs_reset :: "bus \<Rightarrow> nat \<Rightarrow> system \<Rightarrow> system" where
  "clear_needs_reset B d y =
     (if d = self B then y\<lparr>vdev := (vdev y)\<lparr>needs_reset := False\<rparr>\<rparr>
      else case peers y d of
        Vfio_pci p \<Rightarrow> y\<lparr>peers := (peers y)(d := Vfio_pci (p\<lparr>peer_needs_reset := False\<rparr>))\<rparr>
      | _ \<Rightarrow> y)"

section \<open>Walking the bus\<close>

fun below_slot :: "(nat \<times> nat option) list \<Rightarrow> nat \<Rightarrow> nat option \<Rightarrow> bool" where
  "below_slot [] bus slot = False"
| "below_slot ((b, sl) # up) bus slot = (if b = bus then sl = slot else below_slot up bus slot)"

definition vfio_pci_dev_below_slot :: "bus \<Rightarrow> nat \<Rightarrow> nat \<Rightarrow> bool" where
  "vfio_pci_dev_below_slot B d slot = below_slot (above B d) (slot_bus B slot) (Some slot)"

text \<open>
  The devices a reset affects. A slot reset is only chosen where \<^verbatim>\<open>pci_probe_reset_slot\<close> accepted the slot, so
  the device has one.
\<close>

definition affected :: "bus \<Rightarrow> bool \<Rightarrow> nat \<Rightarrow> bool" where
  "affected B slot d \<longleftrightarrow>
     (\<not> slot \<or> (case pdev_slot B of Some sl \<Rightarrow> vfio_pci_dev_below_slot B d sl | None \<Rightarrow> False))"

definition vfio_pci_walk_wrapper ::
    "bus \<Rightarrow> bool \<Rightarrow> (nat \<Rightarrow> 'a \<Rightarrow> int \<times> 'a) \<Rightarrow> nat \<Rightarrow> int \<Rightarrow> 'a \<Rightarrow> int \<times> 'a" where
  "vfio_pci_walk_wrapper B slot fn d ret data = (if affected B slot d then fn d data else (ret, data))"

text \<open>\<^verbatim>\<open>pci_walk_bus\<close> goes on until the function it is given returns a value other than zero.\<close>

fun pci_walk_bus :: "(nat \<Rightarrow> int \<Rightarrow> 'a \<Rightarrow> int \<times> 'a) \<Rightarrow> nat list \<Rightarrow> int \<Rightarrow> 'a \<Rightarrow> int \<times> 'a" where
  "pci_walk_bus f [] ret data = (ret, data)"
| "pci_walk_bus f (d # ds) ret data =
     (case f d ret data of (ret, data) \<Rightarrow> if ret \<noteq> 0 then (ret, data) else pci_walk_bus f ds ret data)"

definition vfio_pci_for_each_slot_or_bus ::
    "bus \<Rightarrow> (nat \<Rightarrow> 'a \<Rightarrow> int \<times> 'a) \<Rightarrow> 'a \<Rightarrow> bool \<Rightarrow> int \<times> 'a" where
  "vfio_pci_for_each_slot_or_bus B fn data slot = pci_walk_bus (vfio_pci_walk_wrapper B slot fn) (walked B) 0 data"

definition vfio_pci_count_devs :: "nat \<Rightarrow> nat \<Rightarrow> int \<times> nat" where
  "vfio_pci_count_devs d n = (0, n + 1)"

section \<open>The reset after the last close\<close>

record vfio_devices =
  devices :: "nat list"
  max_index :: nat

definition vfio_pci_get_unused_devs ::
    "kernel \<Rightarrow> bus \<Rightarrow> nat \<Rightarrow> vfio_devices \<times> system \<Rightarrow> int \<times> (vfio_devices \<times> system)" where
  "vfio_pci_get_unused_devs K B d = (\<lambda>(devs, y).
     if length (devices devs) = max_index devs then (- ENOSPC, devs, y)
     else case binding_of B y d of
       No_vfio_device \<Rightarrow> (- EINVAL, devs, y)
     | Other_driver \<Rightarrow> (- EBUSY, devs, sys_do K (Life (Device_put d)) (sys_do K (Life (Device_get d)) y))
     | Vfio_pci p \<Rightarrow>
         let y = sys_do K (Life (Device_get d)) y in
         if peer_refcnt p \<noteq> 0 then (- EBUSY, devs, sys_do K (Life (Device_put d)) y)
         else (0, devs\<lparr>devices := devices devs @ [d]\<rparr>, y))"

definition needs_reset_of :: "bus \<Rightarrow> system \<Rightarrow> nat \<Rightarrow> bool" where
  "needs_reset_of B y d = (case binding_of B y d of Vfio_pci p \<Rightarrow> peer_needs_reset p | _ \<Rightarrow> False)"

text \<open>The loop at \<^verbatim>\<open>put_devs\<close>, which gives the devices back.\<close>

fun put_devs :: "kernel \<Rightarrow> bool \<Rightarrow> bus \<Rightarrow> int \<Rightarrow> nat list \<Rightarrow> system \<Rightarrow> system" where
  "put_devs K disable_idle_d3 B ret [] y = y"
| "put_devs K disable_idle_d3 B ret (d # ds) y =
     (let y = (if ret = 0 then
                 (let y = clear_needs_reset B d y in
                  if d \<noteq> self B \<and> \<not> disable_idle_d3 then sys_do K (Life (Peer_set_power_state d PCI_D3hot)) y else y)
               else y) in
      put_devs K disable_idle_d3 B ret ds (sys_do K (Life (Device_put d)) y))"

definition vfio_pci_try_bus_reset :: "kernel \<Rightarrow> bool \<Rightarrow> bus \<Rightarrow> system \<Rightarrow> system" where
  "vfio_pci_try_bus_reset K disable_idle_d3 B y =
     (let (rc, y) = sys_rc K (Life Probe_reset_slot) y;
          slot = (rc = 0);
          (rc, y) = (if slot then (0, y) else sys_rc K (Life Probe_reset_bus) y) in
      if rc \<noteq> 0 then y
      else
        let (ret, i) = vfio_pci_for_each_slot_or_bus B vfio_pci_count_devs 0 slot in
        if ret \<noteq> 0 \<or> i = 0 then y
        else
          let (p, y) = sys_rc K (Mem Alloc) y in
          if p = 0 then y
          else case vfio_pci_for_each_slot_or_bus B (vfio_pci_get_unused_devs K B)
                      (\<lparr>devices = [], max_index = i\<rparr>, y) slot of
            (ret, devs, y) \<Rightarrow>
              let (ret, y) =
                (if ret \<noteq> 0 then (- EINVAL, y)
                 else if list_ex (needs_reset_of B y) (devices devs) then sys_rc K (Life Reset_bus) y
                 else (- EINVAL, y)) in
              put_devs K disable_idle_d3 B ret (devices devs) y)"

section \<open>The shared lock\<close>

definition vfio_pci_reflck_alloc :: "kernel \<Rightarrow> system \<Rightarrow> int option \<times> system" where
  "vfio_pci_reflck_alloc K y =
     (case sys_rc K (Mem Alloc) y of (p, y) \<Rightarrow>
        if p = 0 then (None, y) else (Some p, y\<lparr>reflck_refs := (reflck_refs y)(p := 1)\<rparr>))"

definition vfio_pci_reflck_get :: "int \<Rightarrow> system \<Rightarrow> system" where
  "vfio_pci_reflck_get p y = y\<lparr>reflck_refs := (reflck_refs y)(p := reflck_refs y p + 1)\<rparr>"

text \<open>When the last reference goes the lock is freed; its count is then zero.\<close>

definition vfio_pci_reflck_put :: "int \<Rightarrow> system \<Rightarrow> system" where
  "vfio_pci_reflck_put p y = y\<lparr>reflck_refs := (reflck_refs y)(p := reflck_refs y p - 1)\<rparr>"

definition vfio_pci_reflck_find ::
    "kernel \<Rightarrow> bus \<Rightarrow> nat \<Rightarrow> int option \<times> system \<Rightarrow> int \<times> (int option \<times> system)" where
  "vfio_pci_reflck_find K B d = (\<lambda>(found, y).
     case binding_of B y d of
       No_vfio_device \<Rightarrow> (0, found, y)
     | Other_driver \<Rightarrow> (0, found, sys_do K (Life (Device_put d)) (sys_do K (Life (Device_get d)) y))
     | Vfio_pci p \<Rightarrow>
         let y = sys_do K (Life (Device_get d)) y in
         (case peer_reflck p of
            Some r \<Rightarrow> (1, Some r, sys_do K (Life (Device_put d)) (vfio_pci_reflck_get r y))
          | None \<Rightarrow> (0, found, sys_do K (Life (Device_put d)) y)))"

definition vfio_pci_reflck_attach :: "kernel \<Rightarrow> bus \<Rightarrow> system \<Rightarrow> int \<times> system" where
  "vfio_pci_reflck_attach K B y =
     (let (rc, y) = sys_rc K (Life Probe_reset_slot) y;
          (n, found, y) =
            (if on_root_bus B (self B) then (0, None, y)
             else vfio_pci_for_each_slot_or_bus B (vfio_pci_reflck_find K B) (reflck (vdev y), y) (rc = 0));
          (found, y) = (if on_root_bus B (self B) \<or> n \<le> 0 then vfio_pci_reflck_alloc K y else (found, y)) in
      case found of
        None \<Rightarrow> (- ENOMEM, y)
      | Some r \<Rightarrow> (0, y\<lparr>vdev := (vdev y)\<lparr>reflck := Some r\<rparr>\<rparr>))"

section \<open>VGA\<close>

definition vfio_vga_disabled :: "kernel \<Rightarrow> bool \<Rightarrow> bool" where
  "vfio_vga_disabled K disable_vga = (if IS_ENABLED_VFIO_PCI_VGA K then disable_vga else True)"

text \<open>Whether another VGA device may be below the same bridge.\<close>

definition vga_sibling :: "bus \<Rightarrow> nat \<Rightarrow> bool" where
  "vga_sibling B d \<longleftrightarrow>
     \<not> (d = self B \<or> domain_nr B d \<noteq> domain_nr B (self B) \<or> on_root_bus B d) \<and>
     bus_number B (self B) \<le> bus_number B d \<and> bus_number B d \<le> max_busnr B"

definition vfio_pci_set_vga_decode :: "kernel \<Rightarrow> bool \<Rightarrow> bus \<Rightarrow> bool \<Rightarrow> u32" where
  "vfio_pci_set_vga_decode K disable_vga B single_vga =
     (let normal = of_nat VGA_RSRC_NORMAL_IO OR of_nat VGA_RSRC_NORMAL_MEM;
          legacy = of_nat VGA_RSRC_LEGACY_IO OR of_nat VGA_RSRC_LEGACY_MEM in
      if single_vga \<or> \<not> vfio_vga_disabled K disable_vga \<or> on_root_bus B (self B) then normal OR legacy
      else if list_ex (vga_sibling B) (vga_devices B) then normal OR legacy
      else normal)"

definition vfio_pci_is_vga :: "pci_dev \<Rightarrow> bool" where
  "vfio_pci_is_vga d \<longleftrightarrow> drop_bit 8 (pci_class d) = PCI_CLASS_DISPLAY_VGA"

end
