(* ===== verification/Vfio_Dev.thy ===== *)
theory Vfio_Dev
  imports Vfio_Bus Rdwr
begin

text \<open>
  The life of a device, second part of \<^verbatim>\<open>src/device/vfio_pci.c\<close>: what the first open sets up and what the
  last close takes down, the number of interrupts, and the relayed requests and errors.
\<close>

section \<open>The driver\<close>

text \<open>
  The module parameters, and the parts of the driver in files that are not here: the set-up of the
  regions of Intel and NVIDIA devices, and the operations of those regions, which are chosen by their
  number. \<open>None\<close> stands for an operation pointer that is \<^verbatim>\<open>NULL\<close>. \<open>info_cap_append\<close> and \<open>info_cap_shift\<close> are the
  buffers that \<^verbatim>\<open>vfio_info_add_capability\<close> and \<^verbatim>\<open>vfio_info_cap_shift\<close> leave.
\<close>

record vma =
  vm_start :: u64
  vm_end :: u64
  vm_pgoff :: u64
  vm_shared :: bool

record driver =
  nointxmask :: bool
  disable_vga :: bool
  disable_idle_d3 :: bool
  vfio_pci_igd_init :: "vfio_pci_device \<Rightarrow> int \<times> vfio_pci_device"
  vfio_pci_nvdia_v100_nvlink2_init :: "vfio_pci_device \<Rightarrow> int \<times> vfio_pci_device"
  vfio_pci_ibm_npu2_init :: "vfio_pci_device \<Rightarrow> int \<times> vfio_pci_device"
  ops_release :: "vfio_pci_region \<Rightarrow> vfio_pci_device \<Rightarrow> vfio_pci_device"
  ops_rw :: "vfio_pci_region \<Rightarrow> nat \<Rightarrow> u64 \<Rightarrow> int \<Rightarrow> bool \<Rightarrow> vfio_pci_device \<Rightarrow> (int \<times> int \<times> vfio_pci_device) option"
  ops_mmap :: "nat \<Rightarrow> (vfio_pci_region \<Rightarrow> vma \<Rightarrow> vfio_pci_device \<Rightarrow> int \<times> vfio_pci_device) option"
  ops_add_capability :: "nat \<Rightarrow> (vfio_pci_region \<Rightarrow> u8 list \<Rightarrow> vfio_pci_device \<Rightarrow> (int \<times> u8 list) \<times> vfio_pci_device) option"
  info_cap_append :: "u8 list \<Rightarrow> u8 list \<Rightarrow> u8 list"
  info_cap_shift :: "u8 list \<Rightarrow> nat \<Rightarrow> u8 list"

abbreviation (input) PAGE_SHIFT :: nat where "PAGE_SHIFT \<equiv> 12"
abbreviation (input) PAGE_SIZE :: u64 where "PAGE_SIZE \<equiv> 4096"

definition on_vdev :: "(vfio_pci_device \<Rightarrow> vfio_pci_device) \<Rightarrow> system \<Rightarrow> system" where
  "on_vdev f y = y\<lparr>vdev := f (vdev y)\<rparr>"

section \<open>Which BARs may be mapped\<close>

definition reserve_rest_of_page :: "kernel \<Rightarrow> nat \<Rightarrow> vfio_pci_device \<Rightarrow> bool \<times> vfio_pci_device" where
  "reserve_rest_of_page K bar s =
     (let res = resource (pdev s) bar;
          dstart = res_start res + res_len res;
          dend = res_start res + PAGE_SIZE - 1;
          (p, s) = kcall_rc K (Mem Alloc) s in
      if p = 0 then (False, s)
      else
        let (rc, s) = kcall_rc K (Io (Request_resource bar dstart dend)) s in
        if rc \<noteq> 0 then (False, s)
        else (True, s\<lparr>dummy_resources_list := map_option (\<lambda>l.
               \<lparr>dummy_start = dstart, dummy_end = dend, dummy_index = bar\<rparr> # l) (dummy_resources_list s)\<rparr>))"

definition probe_mmap :: "kernel \<Rightarrow> nat \<Rightarrow> vfio_pci_device \<Rightarrow> vfio_pci_device" where
  "probe_mmap K bar s =
     (let res = resource (pdev s) bar;
          (ok, s) =
            (if \<not> IS_ENABLED_VFIO_PCI_MMAP K \<or> res_flags res AND IORESOURCE_MEM = 0 \<or> res_len res = 0 then (False, s)
             else if PAGE_SIZE \<le> res_len res then (True, s)
             else if res_start res AND (PAGE_SIZE - 1) = 0 then reserve_rest_of_page K bar s
             else (False, s)) in
      s\<lparr>bar_mmap_supported := (bar_mmap_supported s)(bar := ok)\<rparr>)"

definition vfio_pci_probe_mmaps :: "kernel \<Rightarrow> vfio_pci_device \<Rightarrow> vfio_pci_device" where
  "vfio_pci_probe_mmaps K s = fold (probe_mmap K) [0..<6] (s\<lparr>dummy_resources_list := Some []\<rparr>)"

section \<open>The last close\<close>

definition vfio_pci_nointx :: "pci_dev \<Rightarrow> bool" where
  "vfio_pci_nointx d =
     (if vendor d = PCI_VENDOR_ID_INTEL then
        (let x = device_id d in
         x = 0x1572 \<or> x = 0x1574 \<or> 0x1580 \<le> x \<and> x \<le> 0x1581 \<or> 0x1583 \<le> x \<and> x \<le> 0x158b \<or> 0x37d0 \<le> x \<and> x \<le> 0x37d2)
      else False)"

definition release_ioeventfds :: "kernel \<Rightarrow> vfio_pci_device \<Rightarrow> vfio_pci_device" where
  "release_ioeventfds K s =
     (fold (\<lambda>e. kcall_do K (Evt (Virqfd_disable (Some (ioev_virqfd e))))) (ioeventfds_list s) s)
       \<lparr>ioeventfds_list := [], ioeventfds_nr := 0\<rparr>"

definition release_bar :: "kernel \<Rightarrow> nat \<Rightarrow> vfio_pci_device \<Rightarrow> vfio_pci_device" where
  "release_bar K bar s =
     (case barmap s bar of
        None \<Rightarrow> s
      | Some io \<Rightarrow>
          (kcall_do K (Io (Release_selected_regions bar)) (kcall_do K (Io (Iounmap io)) s))
            \<lparr>barmap := (barmap s)(bar := None)\<rparr>)"

definition release_dummies :: "kernel \<Rightarrow> vfio_pci_device \<Rightarrow> vfio_pci_device option" where
  "release_dummies K s =
     (case dummy_resources_list s of
        None \<Rightarrow> None
      | Some l \<Rightarrow> Some ((fold (\<lambda>r. kcall_do K (Io (Release_resource (dummy_index r)))) l s)\<lparr>dummy_resources_list := Some []\<rparr>))"

text \<open>Restoring the state the device had at the first open, with a reset if it can do one.\<close>

definition restore_device :: "kernel \<Rightarrow> vfio_pci_device \<Rightarrow> vfio_pci_device" where
  "restore_device K s =
     (let (rc, s) = kcall_rc K (Power (Load_and_free_saved_state (pci_saved_state s))) s;
          s = s\<lparr>pci_saved_state := None\<rparr> in
      if rc \<noteq> 0 \<and> \<not> reset_works s then s
      else
        let s = (if rc \<noteq> 0 then kcall_do K (Power Save_state) s else s);
            s = kcall_do K (Config (Write_config 2 PCI_COMMAND (ucast PCI_COMMAND_INTX_DISABLE))) s;
            s = (if reset_works s then
                   (let (rc, s) = kcall_rc K (Power Try_reset_function) s in
                    if rc = 0 then s\<lparr>needs_reset := False\<rparr> else s)
                 else s) in
        kcall_do K (Power Restore_state) s)"

definition vfio_pci_disable :: "kernel \<Rightarrow> driver \<Rightarrow> bus \<Rightarrow> system \<Rightarrow> system option" where
  "vfio_pci_disable K D B y = do {
     let s = kcall_do K (Life Clear_master) (vdev y);
     (_, s) \<leftarrow> vfio_pci_set_irqs_ioctl K (VFIO_IRQ_SET_DATA_NONE OR VFIO_IRQ_SET_ACTION_TRIGGER) (irq_type s) 0 0 [] s;
     let s = release_ioeventfds K s;
     let s = s\<lparr>virq_disabled := False\<rparr>;
     let s = fold (ops_release D) (regions s) s;
     s \<leftarrow> vfio_config_free (s\<lparr>regions := []\<rparr>);
     let s = fold (release_bar K) [0..<6] s;
     s \<leftarrow> release_dummies K s;
     let s = restore_device K (s\<lparr>needs_reset := True\<rparr>);
     let s = kcall_do K (Life Disable_device) s;
     let y = vfio_pci_try_bus_reset K (disable_idle_d3 D) B (y\<lparr>vdev := s\<rparr>);
     Some (if \<not> disable_idle_d3 D then sys_do K (Power (Set_power_state PCI_D3hot)) y else y) }"

section \<open>The first open\<close>

text \<open>The interrupt line: broken ones are hidden, others may be maskable.\<close>

definition enable_intx :: "kernel \<Rightarrow> driver \<Rightarrow> vfio_pci_device \<Rightarrow> vfio_pci_device" where
  "enable_intx K D s =
     (let s = (if nointxmask D then s
               else if vfio_pci_nointx (pdev s) then kcall_do K (Irq (Pci_intx False)) (s\<lparr>nointx := True\<rparr>)
               else (let (rc, s) = kcall_rc K (Irq Intx_mask_supported) s in s\<lparr>pci_2_3 := rc \<noteq> 0\<rparr>));
          ((_, v), s) = kcall K (Config (Read_config 2 PCI_COMMAND)) s;
          cmd = (ucast v :: u16) in
      if pci_2_3 s \<and> cmd AND PCI_COMMAND_INTX_DISABLE \<noteq> 0
      then kcall_do K (Config (Write_config 2 PCI_COMMAND (ucast (cmd AND NOT PCI_COMMAND_INTX_DISABLE)))) s
      else s)"

definition enable_msix :: "kernel \<Rightarrow> vfio_pci_device \<Rightarrow> vfio_pci_device" where
  "enable_msix K s =
     (let pos = unat (msix_cap (pdev s)) in
      if pos \<noteq> 0 then
        let ((_, f), s) = kcall K (Config (Read_config 2 (pos + PCI_MSIX_FLAGS))) s;
            ((_, t), s) = kcall K (Config (Read_config 4 (pos + PCI_MSIX_TABLE))) s;
            flags = (ucast f :: u16);
            table = (ucast t :: u32) in
        s\<lparr>msix_bar := ucast (table AND PCI_MSIX_TABLE_BIR), msix_offset := table AND PCI_MSIX_TABLE_OFFSET,
          msix_size := ((flags AND PCI_MSIX_FLAGS_QSIZE) + 1) * 16\<rparr>
      else s\<lparr>msix_bar := 0xff\<rparr>)"

text \<open>The device-specific regions; the result is zero or the error that ends the open.\<close>

definition enable_regions :: "kernel \<Rightarrow> driver \<Rightarrow> vfio_pci_device \<Rightarrow> int \<times> vfio_pci_device" where
  "enable_regions K D s =
     (let (ret, s) =
        (if vfio_pci_is_vga (pdev s) \<and> vendor (pdev s) = PCI_VENDOR_ID_INTEL \<and> IS_ENABLED_VFIO_PCI_IGD K
         then vfio_pci_igd_init D s else (0, s)) in
      if ret \<noteq> 0 then (ret, s)
      else
        let (ret, s) =
          (if vendor (pdev s) = PCI_VENDOR_ID_NVIDIA \<and> IS_ENABLED_VFIO_PCI_NVLINK2 K
           then vfio_pci_nvdia_v100_nvlink2_init D s else (0, s)) in
        if ret \<noteq> 0 \<and> ret \<noteq> - ENODEV then (ret, s)
        else
          let (ret, s) =
            (if vendor (pdev s) = PCI_VENDOR_ID_IBM \<and> IS_ENABLED_VFIO_PCI_NVLINK2 K
             then vfio_pci_ibm_npu2_init D s else (0, s)) in
          if ret \<noteq> 0 \<and> ret \<noteq> - ENODEV then (ret, s) else (0, s))"

definition vfio_pci_enable :: "kernel \<Rightarrow> driver \<Rightarrow> bus \<Rightarrow> system \<Rightarrow> (int \<times> system) option" where
  "vfio_pci_enable K D B y =
     (let y = sys_do K (Life Clear_master) (sys_do K (Power (Set_power_state PCI_D0)) y);
          (ret, y) = sys_rc K (Life Enable_device) y in
      if ret \<noteq> 0 then Some (ret, y)
      else
        let (ret, y) = sys_rc K (Power Try_reset_function) y in
        if ret = - EAGAIN then Some (ret, sys_do K (Life Disable_device) y)
        else
          let s = kcall_do K (Power Save_state) ((vdev y)\<lparr>reset_works := ret = 0\<rparr>);
              (p, s) = kcall_rc K (Power Store_saved_state) s;
              s = s\<lparr>pci_saved_state := if p = 0 then None else Some p\<rparr>;
              s = enable_intx K D s in
          do {
            (ret, s) \<leftarrow> vfio_config_init K s;
            if ret \<noteq> 0 then
              Some (ret, y\<lparr>vdev := kcall_do K (Life Disable_device) (s\<lparr>pci_saved_state := None\<rparr>)\<rparr>)
            else
              let s = enable_msix K s;
                  s = (if \<not> vfio_vga_disabled K (disable_vga D) \<and> vfio_pci_is_vga (pdev s) then s\<lparr>has_vga := True\<rparr> else s);
                  (ret, s) = enable_regions K D s in
              if ret \<noteq> 0 then do {
                y \<leftarrow> vfio_pci_disable K D B (y\<lparr>vdev := s\<rparr>);
                Some (ret, y) }
              else Some (0, y\<lparr>vdev := vfio_pci_probe_mmaps K s\<rparr>) })"

section \<open>Open and close\<close>

definition vfio_pci_release :: "kernel \<Rightarrow> driver \<Rightarrow> bus \<Rightarrow> system \<Rightarrow> system option" where
  "vfio_pci_release K D B y = do {
     let y = on_vdev (\<lambda>s. s\<lparr>refcnt := refcnt s - 1\<rparr>) y;
     y \<leftarrow> (if refcnt (vdev y) = 0 then vfio_pci_disable K D B (sys_do K (Life Eeh_release) y) else Some y);
     Some (sys_do K (Life Module_put) y) }"

definition vfio_pci_open :: "kernel \<Rightarrow> driver \<Rightarrow> bus \<Rightarrow> system \<Rightarrow> (int \<times> system) option" where
  "vfio_pci_open K D B y =
     (let (got, y) = sys_rc K (Life Module_get) y in
      if got = 0 then Some (- ENODEV, y)
      else do {
        (ret, y) \<leftarrow>
          (if refcnt (vdev y) = 0 then do {
             (ret, y) \<leftarrow> vfio_pci_enable K D B y;
             Some (ret, if ret \<noteq> 0 then y else sys_do K (Life Eeh_open) y) }
           else Some (0, y));
        if ret \<noteq> 0 then Some (ret, sys_do K (Life Module_put) y)
        else Some (ret, on_vdev (\<lambda>s. s\<lparr>refcnt := refcnt s + 1\<rparr>) y) })"

section \<open>Interrupts, requests and errors\<close>

definition vfio_pci_get_irq_count :: "kernel \<Rightarrow> nat \<Rightarrow> vfio_pci_device \<Rightarrow> nat \<times> vfio_pci_device" where
  "vfio_pci_get_irq_count K irq s =
     (if irq = VFIO_PCI_INTX_IRQ_INDEX then
        (if \<not> IS_ENABLED_VFIO_PCI_INTX K \<or> nointx s \<or> is_virtfn (pdev s) then (0, s)
         else let ((_, pin), s) = kcall K (Config (Read_config 1 PCI_INTERRUPT_PIN)) s in
           (if (ucast pin :: u8) \<noteq> 0 then 1 else 0, s))
      else if irq = VFIO_PCI_MSI_IRQ_INDEX then
        (let pos = unat (msi_cap (pdev s)) in
         if pos \<noteq> 0 then
           let ((_, f), s) = kcall K (Config (Read_config 2 (pos + PCI_MSI_FLAGS))) s in
           (2 ^ unat (drop_bit 1 ((ucast f :: u16) AND PCI_MSI_FLAGS_QMASK)), s)
         else (0, s))
      else if irq = VFIO_PCI_MSIX_IRQ_INDEX then
        (let pos = unat (msix_cap (pdev s)) in
         if pos \<noteq> 0 then
           let ((_, f), s) = kcall K (Config (Read_config 2 (pos + PCI_MSIX_FLAGS))) s in
           (unat ((ucast f :: u16) AND PCI_MSIX_FLAGS_QSIZE) + 1, s)
         else (0, s))
      else if irq = VFIO_PCI_ERR_IRQ_INDEX \<and> is_pcie (pdev s) then (1, s)
      else if irq = VFIO_PCI_REQ_IRQ_INDEX then (1, s)
      else (0, s))"

definition vfio_pci_request :: "kernel \<Rightarrow> vfio_pci_device \<Rightarrow> vfio_pci_device" where
  "vfio_pci_request K s =
     (case req_trigger s of Some t \<Rightarrow> kcall_do K (Evt (Eventfd_signal t)) s | None \<Rightarrow> s)"

text \<open>
  \<open>True\<close> stands for \<^verbatim>\<open>PCI_ERS_RESULT_CAN_RECOVER\<close>, \<open>False\<close> for \<^verbatim>\<open>PCI_ERS_RESULT_DISCONNECT\<close>; \<open>registered\<close> says
  whether VFIO knows the device, \<open>has_data\<close> whether it has driver data.
\<close>

definition vfio_pci_aer_err_detected ::
    "kernel \<Rightarrow> bus \<Rightarrow> bool \<Rightarrow> bool \<Rightarrow> vfio_pci_device \<Rightarrow> bool \<times> vfio_pci_device" where
  "vfio_pci_aer_err_detected K B registered has_data s =
     (if \<not> registered then (False, s)
      else
        let s = kcall_do K (Life (Device_get (self B))) s in
        if \<not> has_data then (False, kcall_do K (Life (Device_put (self B))) s)
        else
          let s = (case err_trigger s of Some t \<Rightarrow> kcall_do K (Evt (Eventfd_signal t)) s | None \<Rightarrow> s) in
          (True, kcall_do K (Life (Device_put (self B))) s))"

end
