(* ===== verification/Vfio_Ioctl.thy ===== *)
theory Vfio_Ioctl
  imports Vfio_Dev
begin

text \<open>
  The requests of the user, third part of \<^verbatim>\<open>src/device/vfio_pci.c\<close>: the ioctls with the structures they copy
  from and to the user, reads and writes by file offset, and mappings.
\<close>

section \<open>Structures in the memory of the user\<close>

definition copy_struct :: "kernel \<Rightarrow> nat \<Rightarrow> nat \<Rightarrow> system \<Rightarrow> int \<times> u8 list \<times> system" where
  "copy_struct K addr n y =
     (case sys_rc K (Mem (Copy_from_user addr n)) y of (rc, y) \<Rightarrow>
        (rc, map (\<lambda>i. user_mem (vdev y) (addr + i)) [0..<n], y))"

definition put_list :: "nat \<Rightarrow> u8 list \<Rightarrow> (nat \<Rightarrow> u8) \<Rightarrow> nat \<Rightarrow> u8" where
  "put_list addr bs m = (\<lambda>a. if addr \<le> a \<and> a < addr + length bs then bs ! (a - addr) else m a)"

definition put_struct :: "kernel \<Rightarrow> nat \<Rightarrow> u8 list \<Rightarrow> system \<Rightarrow> int \<times> system" where
  "put_struct K addr bs y =
     (case sys_rc K (Mem (Copy_to_user addr (length bs))) y of (rc, y) \<Rightarrow>
        (rc, on_vdev (\<lambda>s. s\<lparr>user_mem := put_list addr (take (length bs - nat rc) bs) (user_mem s)\<rparr>) y))"

definition u32_at :: "u8 list \<Rightarrow> nat \<Rightarrow> u32" where
  "u32_at bs p = le_val (take 4 (drop p bs))"

definition u64_at :: "u8 list \<Rightarrow> nat \<Rightarrow> u64" where
  "u64_at bs p = ucast (u32_at bs p) OR push_bit 32 (ucast (u32_at bs (p + 4)))"

definition u32_bytes :: "u32 \<Rightarrow> u8 list" where
  "u32_bytes v = le_bytes 4 v"

definition u64_bytes :: "u64 \<Rightarrow> u8 list" where
  "u64_bytes v = u32_bytes (ucast v) @ u32_bytes (ucast (drop_bit 32 v))"

text \<open>Every ioctl ends with a copy back: zero, or \<^verbatim>\<open>-EFAULT\<close>.\<close>

definition copy_back :: "kernel \<Rightarrow> nat \<Rightarrow> u8 list \<Rightarrow> system \<Rightarrow> int \<times> system" where
  "copy_back K arg bs y = (case put_struct K arg bs y of (rc, y) \<Rightarrow> (if rc \<noteq> 0 then - EFAULT else 0, y))"

section \<open>Information about the device\<close>

definition ioctl_get_info :: "kernel \<Rightarrow> nat \<Rightarrow> system \<Rightarrow> int \<times> system" where
  "ioctl_get_info K arg y =
     (case copy_struct K arg 16 y of (rc, info, y) \<Rightarrow>
        if rc \<noteq> 0 then (- EFAULT, y)
        else if u32_at info 0 < 16 then (- EINVAL, y)
        else
          let flags = VFIO_DEVICE_FLAGS_PCI OR (if reset_works (vdev y) then VFIO_DEVICE_FLAGS_RESET else 0) in
          copy_back K arg (u32_bytes (u32_at info 0) @ u32_bytes flags @
            u32_bytes (of_nat (VFIO_PCI_NUM_REGIONS + length (regions (vdev y)))) @ u32_bytes (of_nat VFIO_PCI_NUM_IRQS)) y)"

record vfio_region_info =
  info_argsz :: u32
  info_flags :: u32
  info_index :: u32
  info_cap_offset :: u32
  info_size :: u64
  info_offset :: u64

definition parse_region_info :: "u8 list \<Rightarrow> vfio_region_info" where
  "parse_region_info bs = \<lparr>info_argsz = u32_at bs 0, info_flags = u32_at bs 4, info_index = u32_at bs 8,
     info_cap_offset = u32_at bs 12, info_size = u64_at bs 16, info_offset = u64_at bs 24\<rparr>"

definition region_info_bytes :: "vfio_region_info \<Rightarrow> u8 list" where
  "region_info_bytes i = u32_bytes (info_argsz i) @ u32_bytes (info_flags i) @ u32_bytes (info_index i) @
     u32_bytes (info_cap_offset i) @ u64_bytes (info_size i) @ u64_bytes (info_offset i)"

text \<open>Capabilities are added to a buffer; the bytes of their headers are identifier, version and no successor.\<close>

definition add_capability :: "kernel \<Rightarrow> driver \<Rightarrow> u8 list \<Rightarrow> u8 list \<Rightarrow> vfio_pci_device \<Rightarrow> int \<times> u8 list \<times> vfio_pci_device" where
  "add_capability K D caps c s =
     (case kcall_rc K (Life (Info_add_capability (length c))) s of (rc, s) \<Rightarrow>
        (rc, if rc = 0 then info_cap_append D caps c else caps, s))"

definition cap_header :: "u32 \<Rightarrow> u8 list" where
  "cap_header ident = u32_bytes (ident OR push_bit 16 1) @ u32_bytes 0"

definition msix_mmappable_cap :: "kernel \<Rightarrow> driver \<Rightarrow> u8 list \<Rightarrow> vfio_pci_device \<Rightarrow> int \<times> u8 list \<times> vfio_pci_device" where
  "msix_mmappable_cap K D caps = add_capability K D caps (cap_header 3)"

definition READ_WRITE :: u32 where
  "READ_WRITE = VFIO_REGION_INFO_FLAG_READ OR VFIO_REGION_INFO_FLAG_WRITE"

definition region_info_bar ::
    "kernel \<Rightarrow> driver \<Rightarrow> nat \<Rightarrow> vfio_region_info \<Rightarrow> vfio_pci_device \<Rightarrow> int \<times> vfio_region_info \<times> u8 list \<times> vfio_pci_device" where
  "region_info_bar K D i info s =
     (let info = info\<lparr>info_size := pci_resource_len (pdev s) i\<rparr> in
      if info_size info = 0 then (0, info\<lparr>info_flags := 0\<rparr>, [], s)
      else if bar_mmap_supported s i then
        (let info = info\<lparr>info_flags := READ_WRITE OR VFIO_REGION_INFO_FLAG_MMAP\<rparr> in
         if i = unat (msix_bar s) then
           (case msix_mmappable_cap K D [] s of (ret, caps, s) \<Rightarrow> (ret, info, caps, s))
         else (0, info, [], s))
      else (0, info\<lparr>info_flags := READ_WRITE\<rparr>, [], s))"

text \<open>The size of a shadow ROM is fixed; a ROM that cannot be mapped, or is empty, has size zero.\<close>

definition region_info_rom :: "kernel \<Rightarrow> vfio_region_info \<Rightarrow> vfio_pci_device \<Rightarrow> vfio_region_info \<times> vfio_pci_device" where
  "region_info_rom K info s =
     (let res = resource (pdev s) PCI_ROM_RESOURCE;
          info = info\<lparr>info_flags := 0,
            info_size := if res_len res = 0 \<and> res_flags res AND IORESOURCE_ROM_SHADOW \<noteq> 0 then 0x20000 else res_len res\<rparr> in
      if info_size info = 0 then (info, s)
      else
        let ((io, sz), s) = kcall K (Io Map_rom) s in
        if io = 0 \<or> sz = 0 then (info\<lparr>info_size := 0\<rparr>, s)
        else (info\<lparr>info_flags := VFIO_REGION_INFO_FLAG_READ\<rparr>, kcall_do K (Io (Unmap_rom io)) s))"

definition region_info_dev ::
    "kernel \<Rightarrow> driver \<Rightarrow> vfio_pci_region \<Rightarrow> vfio_region_info \<Rightarrow> vfio_pci_device \<Rightarrow> int \<times> vfio_region_info \<times> u8 list \<times> vfio_pci_device" where
  "region_info_dev K D r info s =
     (let info = info\<lparr>info_size := region_size r, info_flags := region_flags r\<rparr> in
      case add_capability K D [] (cap_header 2 @ u32_bytes (region_type r) @ u32_bytes (subtype r)) s of (ret, caps, s) \<Rightarrow>
        if ret \<noteq> 0 then (ret, info, caps, s)
        else case ops_add_capability D (region_ops r) of
          None \<Rightarrow> (0, info, caps, s)
        | Some f \<Rightarrow> (case f r caps s of ((ret, caps), s) \<Rightarrow> (ret, info, caps, s)))"

text \<open>The \<^verbatim>\<open>switch\<close> on the index; the offset is that of the region.\<close>

definition region_info ::
    "kernel \<Rightarrow> driver \<Rightarrow> vfio_region_info \<Rightarrow> vfio_pci_device \<Rightarrow> int \<times> vfio_region_info \<times> u8 list \<times> vfio_pci_device" where
  "region_info K D info s =
     (let i = unat (info_index info);
          here = info\<lparr>info_offset := VFIO_PCI_INDEX_TO_OFFSET (ucast (info_index info))\<rparr> in
      if i = VFIO_PCI_CONFIG_REGION_INDEX then
        (0, here\<lparr>info_size := of_nat (cfg_size (pdev s)), info_flags := READ_WRITE\<rparr>, [], s)
      else if i \<le> VFIO_PCI_BAR5_REGION_INDEX then region_info_bar K D i here s
      else if i = VFIO_PCI_ROM_REGION_INDEX then
        (case region_info_rom K here s of (info, s) \<Rightarrow> (0, info, [], s))
      else if i = VFIO_PCI_VGA_REGION_INDEX then
        (if \<not> has_vga s then (- EINVAL, info, [], s)
         else (0, here\<lparr>info_size := 0xc0000, info_flags := READ_WRITE\<rparr>, [], s))
      else if VFIO_PCI_NUM_REGIONS + length (regions s) \<le> i then (- EINVAL, info, [], s)
      else region_info_dev K D (regions s ! (i - VFIO_PCI_NUM_REGIONS)) here s)"

definition ioctl_get_region_info :: "kernel \<Rightarrow> driver \<Rightarrow> nat \<Rightarrow> system \<Rightarrow> int \<times> system" where
  "ioctl_get_region_info K D arg y =
     (case copy_struct K arg 32 y of (rc, bs, y) \<Rightarrow>
        let info = parse_region_info bs in
        if rc \<noteq> 0 then (- EFAULT, y)
        else if info_argsz info < 32 then (- EINVAL, y)
        else case region_info K D info (vdev y) of (ret, info, caps, s) \<Rightarrow>
          let y = y\<lparr>vdev := s\<rparr> in
          if ret \<noteq> 0 then (ret, y)
          else if caps = [] then copy_back K arg (region_info_bytes info) y
          else
            let info = info\<lparr>info_flags := info_flags info OR VFIO_REGION_INFO_FLAG_CAPS\<rparr> in
            if unat (info_argsz info) < 32 + length caps then
              copy_back K arg (region_info_bytes (info\<lparr>info_argsz := of_nat (32 + length caps), info_cap_offset := 0\<rparr>)) y
            else case put_struct K (arg + 32) (info_cap_shift D caps 32) y of (rc, y) \<Rightarrow>
              if rc \<noteq> 0 then (- EFAULT, y)
              else copy_back K arg (region_info_bytes (info\<lparr>info_cap_offset := 32\<rparr>)) y)"

definition vfio_pci_register_dev_region ::
    "kernel \<Rightarrow> u32 \<Rightarrow> u32 \<Rightarrow> nat \<Rightarrow> u64 \<Rightarrow> u32 \<Rightarrow> vfio_pci_device \<Rightarrow> int \<times> vfio_pci_device" where
  "vfio_pci_register_dev_region K type sub ops sz flags s =
     (case kcall_rc K (Mem Alloc) s of (p, s) \<Rightarrow>
        if p = 0 then (- ENOMEM, s)
        else (0, s\<lparr>regions := regions s @ [\<lparr>region_type = type, subtype = sub, region_ops = ops, region_size = sz,
                region_flags = flags\<rparr>]\<rparr>))"

section \<open>Interrupts\<close>

definition ioctl_get_irq_info :: "kernel \<Rightarrow> nat \<Rightarrow> system \<Rightarrow> int \<times> system" where
  "ioctl_get_irq_info K arg y =
     (case copy_struct K arg 16 y of (rc, info, y) \<Rightarrow>
        let argsz = u32_at info 0; index = unat (u32_at info 8) in
        if rc \<noteq> 0 then (- EFAULT, y)
        else if argsz < 16 \<or> VFIO_PCI_NUM_IRQS \<le> index then (- EINVAL, y)
        else if index = VFIO_PCI_ERR_IRQ_INDEX \<and> \<not> is_pcie (pdev (vdev y)) then (- EINVAL, y)
        else case vfio_pci_get_irq_count K index (vdev y) of (count, s) \<Rightarrow>
          let flags = VFIO_IRQ_INFO_EVENTFD OR
                (if index = VFIO_PCI_INTX_IRQ_INDEX then VFIO_IRQ_INFO_MASKABLE OR VFIO_IRQ_INFO_AUTOMASKED
                 else VFIO_IRQ_INFO_NORESIZE) in
          copy_back K arg (u32_bytes argsz @ u32_bytes flags @ u32_bytes (of_nat index) @ u32_bytes (of_nat count))
            (y\<lparr>vdev := s\<rparr>))"

definition ioctl_set_irqs :: "kernel \<Rightarrow> nat \<Rightarrow> system \<Rightarrow> (int \<times> system) option" where
  "ioctl_set_irqs K arg y =
     (case copy_struct K arg 20 y of (rc, hdr, y) \<Rightarrow>
        if rc \<noteq> 0 then Some (- EFAULT, y)
        else
          let flags = u32_at hdr 4; index = u32_at hdr 8; start = u32_at hdr 12; count = u32_at hdr 16;
              (most, s) = vfio_pci_get_irq_count K (unat index) (vdev y);
              ((ret, size), s) = kcall K (Irq (Set_irqs_validate (u32_at hdr 0) flags index start count (int most))) s in
          if ret \<noteq> 0 then Some (ret, y\<lparr>vdev := s\<rparr>)
          else
            let (ret, s) = (if size \<noteq> 0 then kcall_rc K (Mem (Memdup_user (arg + 20) (unat size))) s else (0, s));
                data = map (\<lambda>i. user_mem s (arg + 20 + i)) [0..<unat size] in
            if ret < 0 then Some (ret, y\<lparr>vdev := s\<rparr>)
            else do {
              (ret, s) \<leftarrow> vfio_pci_set_irqs_ioctl K flags (unat index) start count data s;
              Some (ret, y\<lparr>vdev := s\<rparr>) })"

section \<open>Resets\<close>

definition ioctl_reset :: "kernel \<Rightarrow> system \<Rightarrow> int \<times> system" where
  "ioctl_reset K y = (if reset_works (vdev y) then sys_rc K (Power Try_reset_function) y else (- EINVAL, y))"

text \<open>
  A device that a reset affects, as the user is told of it: 8 bytes with its group, domain, bus, and device
  and function.
\<close>

record vfio_pci_fill_info =
  fill_max :: nat
  fill_devices :: "u8 list list"

definition iommu_group_get :: "kernel \<Rightarrow> nat \<Rightarrow> system \<Rightarrow> int option \<times> system" where
  "iommu_group_get K d y =
     (case kcall K (Life (Peer_iommu_group d)) (vdev y) of ((p, ident), s) \<Rightarrow>
        (if p = 0 then None else Some (uint ident), y\<lparr>vdev := s\<rparr>))"

definition vfio_pci_fill_devs ::
    "kernel \<Rightarrow> bus \<Rightarrow> nat \<Rightarrow> vfio_pci_fill_info \<times> system \<Rightarrow> int \<times> (vfio_pci_fill_info \<times> system)" where
  "vfio_pci_fill_devs K B d = (\<lambda>(found, y).
     if length (fill_devices found) = fill_max found then (- EAGAIN, found, y)
     else case iommu_group_get K d y of
       (None, y) \<Rightarrow> (- EPERM, found, y)
     | (Some ident, y) \<Rightarrow>
         (0, found\<lparr>fill_devices := fill_devices found @
            [u32_bytes (word_of_int ident) @ le_bytes 2 (domain_nr B d) @ [bus_number B d, devfn B d]]\<rparr>,
          sys_do K (Life (Peer_iommu_group_put d)) y))"

text \<open>Whether a slot reset, a bus reset or neither is possible: \<open>Some slot\<close> or \<open>None\<close>.\<close>

definition probe_reset :: "kernel \<Rightarrow> system \<Rightarrow> bool option \<times> system" where
  "probe_reset K y =
     (let (rc, y) = sys_rc K (Life Probe_reset_slot) y in
      if rc = 0 then (Some True, y)
      else let (rc, y) = sys_rc K (Life Probe_reset_bus) y in
        (if rc \<noteq> 0 then None else Some False, y))"

definition ioctl_hot_reset_info :: "kernel \<Rightarrow> bus \<Rightarrow> nat \<Rightarrow> system \<Rightarrow> int \<times> system" where
  "ioctl_hot_reset_info K B arg y =
     (case copy_struct K arg 12 y of (rc, hdr, y) \<Rightarrow>
        let argsz = u32_at hdr 0; count = u32_at hdr 8 in
        if rc \<noteq> 0 then (- EFAULT, y)
        else if argsz < 12 then (- EINVAL, y)
        else case probe_reset K y of
          (None, y) \<Rightarrow> (- ENODEV, y)
        | (Some slot, y) \<Rightarrow>
            let (ret, n) = vfio_pci_for_each_slot_or_bus B vfio_pci_count_devs 0 slot in
            if ret \<noteq> 0 then (ret, y)
            else if unat argsz < 12 + n * 8 then
              (case put_struct K arg (u32_bytes argsz @ u32_bytes 0 @ u32_bytes (of_nat n)) y of (rc, y) \<Rightarrow>
                (if rc \<noteq> 0 then - EFAULT else - ENOSPC, y))
            else
              let (p, y) = sys_rc K (Mem Alloc) y in
              if p = 0 then (- ENOMEM, y)
              else case vfio_pci_for_each_slot_or_bus B (vfio_pci_fill_devs K B) (\<lparr>fill_max = n, fill_devices = []\<rparr>, y) slot of
                (ret, found, y) \<Rightarrow>
                  let count = (if ret = 0 then of_nat (length (fill_devices found)) else count);
                      (rc, y) = put_struct K arg (u32_bytes argsz @ u32_bytes 0 @ u32_bytes count) y in
                  if rc \<noteq> 0 then (- EFAULT, y)
                  else if ret \<noteq> 0 then (ret, y)
                  else copy_back K (arg + 12) (concat (fill_devices found)) y)"

text \<open>The groups the user named: the external user reference of each and the identifier of its IOMMU group.\<close>

fun get_groups :: "kernel \<Rightarrow> int list \<Rightarrow> (int \<times> int) list \<Rightarrow> system \<Rightarrow> int \<times> (int \<times> int) list \<times> system" where
  "get_groups K [] groups y = (0, groups, y)"
| "get_groups K (fd # fds) groups y =
     (let (file, y) = sys_rc K (Life (Fdget fd)) y in
      if file = 0 then (- EBADF, groups, y)
      else
        let (group, y) = sys_rc K (Life (Group_get_external_user file)) y;
            y = sys_do K (Life (Fdput fd)) y in
        if group < 0 then (group, groups, y)
        else
          let (ident, y) = sys_rc K (Life (External_user_iommu_id group)) y in
          get_groups K fds (groups @ [(group, ident)]) y)"

definition vfio_pci_validate_devs ::
    "kernel \<Rightarrow> (int \<times> int) list \<Rightarrow> nat \<Rightarrow> system \<Rightarrow> int \<times> system" where
  "vfio_pci_validate_devs K groups d y =
     (case iommu_group_get K d y of
        (None, y) \<Rightarrow> (- EPERM, y)
      | (Some ident, y) \<Rightarrow>
          (if ident \<in> set (map snd groups) then 0 else - EINVAL, sys_do K (Life (Peer_iommu_group_put d)) y))"

definition put_groups :: "kernel \<Rightarrow> (int \<times> int) list \<Rightarrow> system \<Rightarrow> system" where
  "put_groups K groups y = fold (\<lambda>(group, ident). sys_do K (Life (Put_external_user group))) (rev groups) y"

text \<open>The part of the hot reset with the descriptors of the groups at hand.\<close>

definition hot_reset_groups :: "kernel \<Rightarrow> bus \<Rightarrow> bool \<Rightarrow> int list \<Rightarrow> system \<Rightarrow> int \<times> system" where
  "hot_reset_groups K B slot fds y =
     (case get_groups K fds [] y of (ret, groups, y) \<Rightarrow>
        let (ret, y) =
          (if ret \<noteq> 0 then (ret, y)
           else
             let (ret, y) = vfio_pci_for_each_slot_or_bus B (vfio_pci_validate_devs K groups) y slot in
             if ret = 0 then sys_rc K (Life Reset_bus) y else (ret, y)) in
        (ret, put_groups K groups y))"

definition ioctl_hot_reset :: "kernel \<Rightarrow> bus \<Rightarrow> nat \<Rightarrow> system \<Rightarrow> int \<times> system" where
  "ioctl_hot_reset K B arg y =
     (case copy_struct K arg 12 y of (rc, hdr, y) \<Rightarrow>
        let count = unat (u32_at hdr 8) in
        if rc \<noteq> 0 then (- EFAULT, y)
        else if u32_at hdr 0 < 12 \<or> u32_at hdr 4 \<noteq> 0 then (- EINVAL, y)
        else case probe_reset K y of
          (None, y) \<Rightarrow> (- ENODEV, y)
        | (Some slot, y) \<Rightarrow>
            let (ret, n) = vfio_pci_for_each_slot_or_bus B vfio_pci_count_devs 0 slot in
            if ret \<noteq> 0 then (ret, y)
            else if count = 0 \<or> n < count then (- EINVAL, y)
            else
              let (p, y) = sys_rc K (Mem Alloc) y;
                  (q, y) = sys_rc K (Mem Alloc) y in
              if p = 0 \<or> q = 0 then (- ENOMEM, y)
              else case copy_struct K (arg + 12) (count * 4) y of (rc, bs, y) \<Rightarrow>
                if rc \<noteq> 0 then (- EFAULT, y)
                else hot_reset_groups K B slot (map (\<lambda>i. sint (u32_at bs (4 * i))) [0..<count]) y)"

section \<open>Writes bound to eventfds\<close>

definition ioctl_ioeventfd :: "kernel \<Rightarrow> nat \<Rightarrow> system \<Rightarrow> (int \<times> system) option" where
  "ioctl_ioeventfd K arg y =
     (case copy_struct K arg 28 y of (rc, e, y) \<Rightarrow>
        let flags = u32_at e 4; count = flags AND VFIO_DEVICE_IOEVENTFD_SIZE_MASK; fd = sint (u32_at e 24) in
        if rc \<noteq> 0 then Some (- EFAULT, y)
        else if u32_at e 0 < 28 then Some (- EINVAL, y)
        else if flags AND NOT VFIO_DEVICE_IOEVENTFD_SIZE_MASK \<noteq> 0 then Some (- EINVAL, y)
        else if count \<notin> {1, 2, 4, 8} \<or> fd < - 1 then Some (- EINVAL, y)
        else do {
          (ret, s) \<leftarrow> vfio_pci_ioeventfd K (sint (u64_at e 8)) (u64_at e 16) (unat count) fd (vdev y);
          Some (ret, y\<lparr>vdev := s\<rparr>) })"

section \<open>The ioctl\<close>

datatype vfio_cmd =
    VFIO_DEVICE_GET_INFO
  | VFIO_DEVICE_GET_REGION_INFO
  | VFIO_DEVICE_GET_IRQ_INFO
  | VFIO_DEVICE_SET_IRQS
  | VFIO_DEVICE_RESET
  | VFIO_DEVICE_GET_PCI_HOT_RESET_INFO
  | VFIO_DEVICE_PCI_HOT_RESET
  | VFIO_DEVICE_IOEVENTFD
  | Other_cmd

definition vfio_pci_ioctl :: "kernel \<Rightarrow> driver \<Rightarrow> bus \<Rightarrow> vfio_cmd \<Rightarrow> nat \<Rightarrow> system \<Rightarrow> (int \<times> system) option" where
  "vfio_pci_ioctl K D B cmd arg y =
     (case cmd of
        VFIO_DEVICE_GET_INFO \<Rightarrow> Some (ioctl_get_info K arg y)
      | VFIO_DEVICE_GET_REGION_INFO \<Rightarrow> Some (ioctl_get_region_info K D arg y)
      | VFIO_DEVICE_GET_IRQ_INFO \<Rightarrow> Some (ioctl_get_irq_info K arg y)
      | VFIO_DEVICE_SET_IRQS \<Rightarrow> ioctl_set_irqs K arg y
      | VFIO_DEVICE_RESET \<Rightarrow> Some (ioctl_reset K y)
      | VFIO_DEVICE_GET_PCI_HOT_RESET_INFO \<Rightarrow> Some (ioctl_hot_reset_info K B arg y)
      | VFIO_DEVICE_PCI_HOT_RESET \<Rightarrow> Some (ioctl_hot_reset K B arg y)
      | VFIO_DEVICE_IOEVENTFD \<Rightarrow> ioctl_ioeventfd K arg y
      | Other_cmd \<Rightarrow> Some (- ENOTTY, y))"

end
