(* ===== verification/Vfio_Access.thy ===== *)
theory Vfio_Access
  imports Vfio_Ioctl
begin

text \<open>
  Reads, writes and mappings by file offset, fourth part of \<^verbatim>\<open>src/device/vfio_pci.c\<close>: the upper bits of the
  offset name a region.
\<close>

section \<open>Reads and writes\<close>

definition region_index :: "int \<Rightarrow> u32" where
  "region_index ppos = word_of_int (VFIO_PCI_OFFSET_TO_INDEX ppos)"

definition vfio_pci_rw ::
    "kernel \<Rightarrow> driver \<Rightarrow> perm_tables \<Rightarrow> nat \<Rightarrow> u64 \<Rightarrow> int \<Rightarrow> bool \<Rightarrow> vfio_pci_device
      \<Rightarrow> (int \<times> int \<times> vfio_pci_device) option" where
  "vfio_pci_rw K D T buf count ppos iswrite s =
     (let index = unat (region_index ppos) in
      if VFIO_PCI_NUM_REGIONS + length (regions s) \<le> index then Some (- EINVAL, ppos, s)
      else if index = VFIO_PCI_CONFIG_REGION_INDEX then vfio_pci_config_rw K T buf count ppos iswrite s
      else if index = VFIO_PCI_ROM_REGION_INDEX then
        (if iswrite then Some (- EINVAL, ppos, s) else vfio_pci_bar_rw K buf count ppos False s)
      else if index \<le> VFIO_PCI_BAR5_REGION_INDEX then vfio_pci_bar_rw K buf count ppos iswrite s
      else if index = VFIO_PCI_VGA_REGION_INDEX then Some (vfio_pci_vga_rw K buf count ppos iswrite s)
      else ops_rw D (regions s ! (index - VFIO_PCI_NUM_REGIONS)) buf count ppos iswrite s)"

definition vfio_pci_read ::
    "kernel \<Rightarrow> driver \<Rightarrow> perm_tables \<Rightarrow> nat \<Rightarrow> u64 \<Rightarrow> int \<Rightarrow> vfio_pci_device \<Rightarrow> (int \<times> int \<times> vfio_pci_device) option" where
  "vfio_pci_read K D T buf count ppos s =
     (if count = 0 then Some (0, ppos, s) else vfio_pci_rw K D T buf count ppos False s)"

definition vfio_pci_write ::
    "kernel \<Rightarrow> driver \<Rightarrow> perm_tables \<Rightarrow> nat \<Rightarrow> u64 \<Rightarrow> int \<Rightarrow> vfio_pci_device \<Rightarrow> (int \<times> int \<times> vfio_pci_device) option" where
  "vfio_pci_write K D T buf count ppos s =
     (if count = 0 then Some (0, ppos, s) else vfio_pci_rw K D T buf count ppos True s)"

section \<open>Mappings\<close>

definition PAGE_ALIGN :: "u64 \<Rightarrow> u64" where
  "PAGE_ALIGN x = (x + (PAGE_SIZE - 1)) AND NOT (PAGE_SIZE - 1)"

text \<open>
  The mapping of a device-specific region. The number of regions is not looked at: the pointer is formed
  from the start of the array, which is \<^verbatim>\<open>NULL\<close> where there are none, and read unless it is \<^verbatim>\<open>NULL\<close>.
\<close>

definition mmap_region ::
    "driver \<Rightarrow> nat \<Rightarrow> vma \<Rightarrow> vfio_pci_device \<Rightarrow> (int \<times> vfio_pci_device) option" where
  "mmap_region D regnum vma s =
     (if regions s = [] \<and> regnum = 0 then Some (- EINVAL, s)
      else if length (regions s) \<le> regnum then None
      else
        let r = regions s ! regnum in
        case ops_mmap D (region_ops r) of
          None \<Rightarrow> Some (- EINVAL, s)
        | Some f \<Rightarrow>
            if region_flags r AND VFIO_REGION_INFO_FLAG_MMAP \<noteq> 0 then Some (f r vma s) else Some (- EINVAL, s))"

text \<open>The mapping of a BAR: \<open>pgoff\<close> is the page inside the BAR, the page frame number that of the BAR and that.\<close>

definition mmap_bar :: "kernel \<Rightarrow> nat \<Rightarrow> vma \<Rightarrow> vfio_pci_device \<Rightarrow> int \<times> vfio_pci_device" where
  "mmap_bar K index vma s =
     (let phys_len = PAGE_ALIGN (pci_resource_len (pdev s) index);
          req_len = vm_end vma - vm_start vma;
          pgoff = vm_pgoff vma AND (push_bit (VFIO_PCI_OFFSET_SHIFT - PAGE_SHIFT) 1 - 1);
          req_start = push_bit PAGE_SHIFT pgoff in
      if phys_len < req_start + req_len then (- EINVAL, s)
      else
        let (ret, s) =
          (if barmap s index \<noteq> None then (0, s)
           else
             let (ret, s) = kcall_rc K (Io (Request_selected_regions index)) s in
             if ret \<noteq> 0 then (ret, s)
             else
               let (io, s) = kcall_rc K (Io (Iomap index)) s in
               if io = 0 then (- ENOMEM, kcall_do K (Io (Release_selected_regions index)) s)
               else (0, s\<lparr>barmap := (barmap s)(index := Some io)\<rparr>)) in
        if ret \<noteq> 0 then (ret, s)
        else
          kcall_rc K (Io (Remap_pfn_range (vm_start vma)
            (drop_bit PAGE_SHIFT (pci_resource_start (pdev s) index) + pgoff) req_len)) s)"

definition vfio_pci_mmap ::
    "kernel \<Rightarrow> driver \<Rightarrow> vma \<Rightarrow> vfio_pci_device \<Rightarrow> (int \<times> vfio_pci_device) option" where
  "vfio_pci_mmap K D vma s =
     (let index = unat (ucast (drop_bit (VFIO_PCI_OFFSET_SHIFT - PAGE_SHIFT) (vm_pgoff vma)) :: u32) in
      if vm_end vma < vm_start vma then Some (- EINVAL, s)
      else if \<not> vm_shared vma then Some (- EINVAL, s)
      else if VFIO_PCI_NUM_REGIONS \<le> index then mmap_region D (index - VFIO_PCI_NUM_REGIONS) vma s
      else if VFIO_PCI_ROM_REGION_INDEX \<le> index then Some (- EINVAL, s)
      else if \<not> bar_mmap_supported s index then Some (- EINVAL, s)
      else Some (mmap_bar K index vma s))"

end
