(* ===== verification/Vfio_Samples.thy ===== *)
theory Vfio_Samples
  imports Vfio_Dev Samples
begin

text \<open>
  A concrete bus and a concrete driver for the witnesses about the driver as a whole. The operations of
  device-specific regions do nothing; the set-up of NVIDIA regions fails.
\<close>

text \<open>A slot with two functions, both bound to the driver and closed, the first waiting for a reset.\<close>

definition sample_bus :: bus where
  "sample_bus = \<lparr>self = 0, walked = [0, 1], pdev_slot = Some 3, slot_bus = (\<lambda>_. 7), above = (\<lambda>_. [(7, Some 3)]),
     domain_nr = (\<lambda>_. 0), bus_number = (\<lambda>_. 7), devfn = (\<lambda>d. of_nat d), on_root_bus = (\<lambda>_. False), max_busnr = 9,
     vga_devices = []\<rparr>"

definition sample_system :: system where
  "sample_system = \<lparr>vdev = sample_device\<lparr>needs_reset := True\<rparr>,
     peers = (\<lambda>d. if d = 1 then Vfio_pci \<lparr>peer_refcnt = 0, peer_needs_reset = False, peer_reflck = Some 1\<rparr> else Other_driver),
     reflck_refs = (\<lambda>_. 0)\<rparr>"

definition sample_driver :: driver where
  "sample_driver = \<lparr>nointxmask = False, disable_vga = False, disable_idle_d3 = False,
     vfio_pci_igd_init = (\<lambda>s. (0, s)), vfio_pci_nvdia_v100_nvlink2_init = (\<lambda>s. (- EINVAL, s)),
     vfio_pci_ibm_npu2_init = (\<lambda>s. (0, s)), ops_release = (\<lambda>r s. s),
     ops_rw = (\<lambda>r buf count ppos iswrite s. Some (int (unat count), ppos + uint count, s)),
     ops_mmap = (\<lambda>_. None), ops_add_capability = (\<lambda>_. None),
     info_cap_append = (\<lambda>caps c. caps @ c), info_cap_shift = (\<lambda>caps n. caps)\<rparr>"

end
