(* ===== verification/Vfio_Access_Props.thy ===== *)
theory Vfio_Access_Props
  imports Vfio_Access Vfio_Samples
begin

text \<open>
  Properties of reads, writes and mappings by file offset: the offsets that the driver reports lead back
  to their regions, a mapping stays inside its BAR, and where the index of a mapping is not checked.
\<close>

section \<open>Offsets\<close>

lemma region_info_offset:
  assumes "region_info K D info s = (0, info', caps, s')"
  shows "info_offset info' = VFIO_PCI_INDEX_TO_OFFSET (ucast (info_index info))" "info_index info' = info_index info"
    "unat (info_index info) < VFIO_PCI_NUM_REGIONS + length (regions s)"
  using assms
  by (auto simp: region_info_def region_info_bar_def region_info_rom_def region_info_dev_def Let_def
      split: if_splits prod.splits option.splits)

lemma index_to_offset:
  fixes index :: u32
  assumes "unat index < 2 ^ 23"
  shows "sint (VFIO_PCI_INDEX_TO_OFFSET (ucast index)) = int (unat index) * 2 ^ 40"
proof -
  have "unat index * 2 ^ 40 < 2 ^ 63" using assms by simp
  then have off: "unat (VFIO_PCI_INDEX_TO_OFFSET (ucast index)) = unat index * 2 ^ 40"
    by (simp add: VFIO_PCI_INDEX_TO_OFFSET_def push_bit_eq_mult unat_word_ariths unsigned_ucast_eq take_bit_nat_eq_self)
  have signed: "sint x = int (unat x)" if "unat x < 2 ^ 63" for x :: u64
  proof -
    from that have "int (unat x) < int (2 ^ 63)" by (simp only: of_nat_less_iff)
    then have "uint x < 2 ^ 63" by simp
    moreover have "- (2 ^ 63) \<le> uint x" by (rule order_trans [OF _ uint_ge_0]) simp
    ultimately show ?thesis by (simp add: sint_uint signed_take_bit_int_eq_self)
  qed
  have "sint (VFIO_PCI_INDEX_TO_OFFSET (ucast index)) = int (unat index * 2 ^ 40)"
    by (subst signed) (use off assms in simp, simp only: off)
  then show ?thesis by (simp only: of_nat_mult) simp
qed

lemma region_of_offset:
  assumes "0 \<le> k" "k < 2 ^ 40"
  shows "region_index (int n * 2 ^ 40 + k) = of_nat n" "(int n * 2 ^ 40 + k) AND VFIO_PCI_OFFSET_MASK = k"
  using assms by (simp_all add: region_index_def VFIO_PCI_OFFSET_TO_INDEX_def drop_bit_eq_div offset_mask_mod)

text \<open>C35. The offset that the driver reports for a region leads back to it. When the user asks about a region and the
  driver answers, the answer is about the region asked for, which exists; and every file offset from the reported
  one on, up to the $2^{40}$ bytes a region has room for, names that region and the right place inside it.\<close>

theorem region_info_routes:
  assumes run: "region_info K D info s = (0, info', caps, s')"
    and few: "length (regions s) < 2 ^ 20"
    and k: "0 \<le> k" "k < 2 ^ 40"
  shows "info_index info' = info_index info \<and>
    unat (info_index info) < VFIO_PCI_NUM_REGIONS + length (regions s) \<and>
    region_index (sint (info_offset info') + k) = info_index info \<and>
    (sint (info_offset info') + k) AND VFIO_PCI_OFFSET_MASK = k"
proof -
  note info = region_info_offset [OF run]
  with few have "unat (info_index info) < 2 ^ 23" by simp
  from index_to_offset [OF this] info region_of_offset [OF k, of "unat (info_index info)"] show ?thesis by simp
qed

section \<open>Mappings\<close>

definition mmap_index :: "vma \<Rightarrow> nat" where
  "mmap_index vma = unat (ucast (drop_bit (VFIO_PCI_OFFSET_SHIFT - PAGE_SHIFT) (vm_pgoff vma)) :: u32)"


lemma PAGE_ALIGN_bound: "unat (PAGE_ALIGN x) < unat x + 4096"
proof -
  have "PAGE_ALIGN x \<le> x + 4095" by (simp add: PAGE_ALIGN_def word_and_le2)
  then have "unat (PAGE_ALIGN x) \<le> unat (x + 4095)" by (simp add: word_le_nat_alt)
  also have "\<dots> \<le> unat x + 4095" by (simp add: unat_word_ariths)
  finally show ?thesis by simp
qed

text \<open>What a mapping of a BAR that reaches the page tables did: the claim of the BAR, then the one call.\<close>

lemma mmap_bar_remaps:
  assumes run: "mmap_bar K i vma s = (ret, s')" and "Io (Remap_pfn_range a pfn n) \<in> set (calls s s')"
  shows "\<not> PAGE_ALIGN (pci_resource_len (pdev s) i)
      < push_bit PAGE_SHIFT (vm_pgoff vma AND (push_bit (VFIO_PCI_OFFSET_SHIFT - PAGE_SHIFT) 1 - 1)) + (vm_end vma - vm_start vma)"
    "a = vm_start vma" "n = vm_end vma - vm_start vma" "barmap s' i \<noteq> None"
    "pfn = drop_bit PAGE_SHIFT (pci_resource_start (pdev s) i)
      + (vm_pgoff vma AND (push_bit (VFIO_PCI_OFFSET_SHIFT - PAGE_SHIFT) 1 - 1))"
  using assms
  by (auto simp: mmap_bar_def Let_def calls_def new_events_def kcall_simps split: if_splits)

text \<open>The page of the BAR that a mapping starts at.\<close>

definition mmap_page :: "vma \<Rightarrow> u64" where
  "mmap_page vma = vm_pgoff vma AND (push_bit (VFIO_PCI_OFFSET_SHIFT - PAGE_SHIFT) 1 - 1)"

lemma mmap_page_bound: "unat (mmap_page vma) < 2 ^ 28"
proof -
  have "mmap_page vma \<le> 2 ^ 28 - 1" by (simp add: mmap_page_def push_bit_eq_mult word_and_le1)
  then have "unat (mmap_page vma) \<le> unat (2 ^ 28 - 1 :: u64)" by (simp only: word_le_nat_alt)
  then show ?thesis by simp
qed

lemma mmap_request_no_wrap:
  assumes "vm_start vma \<le> vm_end vma" "vm_end vma < 2 ^ 63"
  shows "unat (push_bit PAGE_SHIFT (mmap_page vma) + (vm_end vma - vm_start vma))
    = 4096 * unat (mmap_page vma) + (unat (vm_end vma) - unat (vm_start vma))"
proof -
  have "unat (vm_end vma - vm_start vma) = unat (vm_end vma) - unat (vm_start vma)"
    using assms(1) by (simp add: unat_sub)
  moreover have "unat (vm_end vma) < 2 ^ 63" using assms(2) by (simp add: word_less_nat_alt)
  ultimately show ?thesis using mmap_page_bound [of vma]
    by (simp add: unat_word_ariths push_bit_eq_mult mult.commute)
qed

text \<open>C10. A mapping exposes pages of its BAR only. If the driver maps device memory into a process whose addresses
  are below $2^{63}$, for an offset in the region of a BAR or of the ROM, then the region is a BAR that was found
  fit for mapping and is claimed by the driver, all of the range asked for and nothing else is mapped, and it lies
  in the pages from the first page of the BAR to the page in which the BAR ends.\<close>

theorem mmap_contained:
  assumes run: "vfio_pci_mmap K D vma s = Some (ret, s')" and index: "mmap_index vma < VFIO_PCI_NUM_REGIONS"
    and user: "vm_end vma < 2 ^ 63" and mapped: "Io (Remap_pfn_range a pfn n) \<in> set (calls s s')"
  shows "mmap_index vma \<le> VFIO_PCI_BAR5_REGION_INDEX \<and> bar_mmap_supported s (mmap_index vma) \<and>
    barmap s' (mmap_index vma) \<noteq> None \<and> a = vm_start vma \<and> unat n = unat (vm_end vma) - unat (vm_start vma) \<and>
    (\<exists>page. pfn = drop_bit PAGE_SHIFT (pci_resource_start (pdev s) (mmap_index vma)) + of_nat page \<and>
       4096 * page + unat n < unat (pci_resource_len (pdev s) (mmap_index vma)) + 4096)"
proof -
  define i where "i = mmap_index vma"
  have bar: "vm_start vma \<le> vm_end vma" "i < VFIO_PCI_ROM_REGION_INDEX" "bar_mmap_supported s i"
    "mmap_bar K i vma s = (ret, s')"
    using run index mapped by (auto simp: vfio_pci_mmap_def mmap_index_def i_def Let_def split: if_splits)
  note remap = mmap_bar_remaps [OF bar(4) mapped, folded mmap_page_def]
  have "unat (push_bit PAGE_SHIFT (mmap_page vma) + (vm_end vma - vm_start vma)) \<le> unat (PAGE_ALIGN (pci_resource_len (pdev s) i))"
    using remap(1) by (simp add: word_le_nat_alt not_less)
  with mmap_request_no_wrap [OF bar(1) user] PAGE_ALIGN_bound [of "pci_resource_len (pdev s) i"]
  have len: "4096 * unat (mmap_page vma) + (unat (vm_end vma) - unat (vm_start vma)) < unat (pci_resource_len (pdev s) i) + 4096"
    by linarith
  have n: "unat n = unat (vm_end vma) - unat (vm_start vma)" using remap(3) bar(1) by (simp add: unat_sub)
  show ?thesis unfolding i_def [symmetric]
    using bar remap(2,4,5) len n by (auto intro!: exI [of _ "unat (mmap_page vma)"])
qed

definition sample_vma :: vma where
  "sample_vma = \<lparr>vm_start = 0x7000, vm_end = 0x8000, vm_pgoff = 0, vm_shared = True\<rparr>"

theorem mmap_contained_witness:
  "\<exists>s'. vfio_pci_mmap (sample_kernel sample_cfg) sample_driver sample_vma sample_device = Some (0, s') \<and>
    Io (Remap_pfn_range 0x7000 0xf0000 0x1000) \<in> set (calls sample_device s') \<and> barmap s' 0 \<noteq> None"
proof -
  obtain ret s' where run: "vfio_pci_mmap (sample_kernel sample_cfg) sample_driver sample_vma sample_device = Some (ret, s')"
    and ret: "ret = 0" and call: "Io (Remap_pfn_range 0x7000 0xf0000 0x1000) \<in> set (calls sample_device s')"
  proof -
    have "(case vfio_pci_mmap (sample_kernel sample_cfg) sample_driver sample_vma sample_device of None \<Rightarrow> False
      | Some (ret, s') \<Rightarrow> ret = 0 \<and> Io (Remap_pfn_range 0x7000 0xf0000 0x1000) \<in> set (calls sample_device s'))"
      by code_simp
    with that show thesis by (auto split: option.splits)
  qed
  have "mmap_index sample_vma = 0" "vm_end sample_vma < 2 ^ 63" by code_simp+
  with mmap_contained [OF run _ _ call] ret run call show ?thesis by auto
qed

theorem region_info_routes_witness:
  "region_index (sint (info_offset (fst (snd (region_info (sample_kernel sample_cfg) sample_driver
     (parse_region_info (u32_bytes 32 @ u32_bytes 0 @ u32_bytes 7 @ replicate 20 0)) sample_device)))) + 5) = 7"
proof -
  let ?info = "parse_region_info (u32_bytes 32 @ u32_bytes 0 @ u32_bytes 7 @ replicate 20 0)"
  obtain ret info caps s where run: "region_info (sample_kernel sample_cfg) sample_driver ?info sample_device = (ret, info, caps, s)"
    by (metis prod_cases4)
  have "fst (region_info (sample_kernel sample_cfg) sample_driver ?info sample_device) = 0" "info_index ?info = 7"
    "regions sample_device = []" by code_simp+
  with region_info_routes [of "sample_kernel sample_cfg" sample_driver ?info sample_device info caps s 5] run
  show ?thesis by simp
qed

end
