(* ===== verification/Vfio_Module.thy ===== *)
theory Vfio_Module
  imports Vfio_Dev Config_Perms
begin

text \<open>
  The driver as a module, last part of \<^verbatim>\<open>src/device/vfio_pci.c\<close>: binding and unbinding a device, loading and
  unloading, and the identifiers given as a module parameter.
\<close>

section \<open>Binding a device\<close>

text \<open>The structure as \<^verbatim>\<open>kzalloc\<close> and the initialisers of \<^verbatim>\<open>vfio_pci_probe\<close> leave it.\<close>

definition new_vdev :: "pci_dev \<Rightarrow> vfio_pci_device \<Rightarrow> vfio_pci_device" where
  "new_vdev d s = \<lparr>trace = trace s, pdev = d, barmap = (\<lambda>_. None), bar_mmap_supported = (\<lambda>_. False),
     pci_config_map = [], vconfig = [], msi_perm = NULL, ctx = [], num_ctx = 0, irq_type = VFIO_PCI_NUM_IRQS,
     regions = [], msi_qmax = 0, msix_bar = 0, msix_size = 0, msix_offset = 0, rbar = replicate 7 0,
     pci_2_3 = False, virq_disabled = False, reset_works = False, extended_caps = False, bardirty = False,
     has_vga = False, needs_reset = False, nointx = False, pci_saved_state = None, reflck = None, refcnt = 0,
     ioeventfds_nr = 0, ioeventfds_list = [], err_trigger = None, req_trigger = None, dummy_resources_list = None,
     user_mem = user_mem s\<rparr>"

definition vfio_pci_probe :: "kernel \<Rightarrow> driver \<Rightarrow> bus \<Rightarrow> system \<Rightarrow> int \<times> system" where
  "vfio_pci_probe K D B y =
     (let d = pdev (vdev y) in
      if hdr_type d \<noteq> PCI_HEADER_TYPE_NORMAL then (- EINVAL, y)
      else
        let (vfs, y) = sys_rc K (Life Num_vf) y in
        if vfs \<noteq> 0 then (- EBUSY, y)
        else
          let (group, y) = sys_rc K (Life Iommu_group_get) y in
          if group = 0 then (- EINVAL, y)
          else
            let (p, y) = sys_rc K (Mem Alloc) y in
            if p = 0 then (- ENOMEM, sys_do K (Life Iommu_group_put) y)
            else
              let y = on_vdev (new_vdev d) y;
                  (ret, y) = sys_rc K (Life Add_group_dev) y in
              if ret \<noteq> 0 then (ret, sys_do K (Life Iommu_group_put) y)
              else
                let (ret, y) = vfio_pci_reflck_attach K B y in
                if ret \<noteq> 0 then (ret, sys_do K (Life Iommu_group_put) (sys_do K (Life Del_group_dev) y))
                else
                  let y = (if vfio_pci_is_vga d then
                             sys_do K (Life (Vga_set_legacy_decoding (vfio_pci_set_vga_decode K (disable_vga D) B False)))
                               (sys_do K (Life (Vga_register True)) y)
                           else y);
                      y = (if \<not> disable_idle_d3 D then
                             sys_do K (Power (Set_power_state PCI_D3hot)) (sys_do K (Power (Set_power_state PCI_D0)) y)
                           else y) in
                  (ret, y))"

definition vfio_pci_remove :: "kernel \<Rightarrow> driver \<Rightarrow> system \<Rightarrow> system option" where
  "vfio_pci_remove K D y =
     (let d = pdev (vdev y);
          (found, y) = sys_rc K (Life Del_group_dev) y in
      if found = 0 then Some y
      else do {
        r \<leftarrow> reflck (vdev y);
        let y = sys_do K (Life Iommu_group_put) (vfio_pci_reflck_put r y);
        let y = (if vfio_pci_is_vga d then
                   sys_do K (Life (Vga_set_legacy_decoding (of_nat VGA_RSRC_NORMAL_IO OR of_nat VGA_RSRC_NORMAL_MEM
                       OR of_nat VGA_RSRC_LEGACY_IO OR of_nat VGA_RSRC_LEGACY_MEM)))
                     (sys_do K (Life (Vga_register False)) y)
                 else y);
        Some (if \<not> disable_idle_d3 D then sys_do K (Power (Set_power_state PCI_D0)) y else y) })"

section \<open>Identifiers\<close>

text \<open>\<^verbatim>\<open>strsep\<close> at commas: all the parts, empty ones included.\<close>

fun split_at :: "char \<Rightarrow> string \<Rightarrow> string list" where
  "split_at x [] = [[]]"
| "split_at x (c # cs) =
     (if c = x then [] # split_at x cs
      else case split_at x cs of [] \<Rightarrow> [[c]] | w # ws \<Rightarrow> (c # w) # ws)"

definition hex_value :: "char \<Rightarrow> nat option" where
  "hex_value c =
     (let n = of_char c :: nat in
      if 48 \<le> n \<and> n \<le> 57 then Some (n - 48)
      else if 97 \<le> n \<and> n \<le> 102 then Some (n - 87)
      else if 65 \<le> n \<and> n \<le> 70 then Some (n - 55)
      else None)"

definition is_space :: "char \<Rightarrow> bool" where
  "is_space c \<longleftrightarrow> c = CHR '' '' \<or> (9 \<le> (of_char c :: nat) \<and> (of_char c :: nat) \<le> 13) \<or> (of_char c :: nat) = 0xa0"

text \<open>The digits from here on, and the rest. The number is kept in 32 bits.\<close>

fun hex_digits :: "u32 \<Rightarrow> string \<Rightarrow> u32 \<times> string" where
  "hex_digits v [] = (v, [])"
| "hex_digits v (c # cs) =
     (case hex_value c of None \<Rightarrow> (v, c # cs) | Some d \<Rightarrow> hex_digits (16 * v + of_nat d) cs)"

text \<open>The conversion \<^verbatim>\<open>%x\<close> of the kernel's \<^verbatim>\<open>sscanf\<close>: white space, an optional prefix, digits.\<close>

definition scan_hex :: "string \<Rightarrow> (u32 \<times> string) option" where
  "scan_hex str =
     (let str = dropWhile is_space str in
      case str of
        [] \<Rightarrow> None
      | c # cs \<Rightarrow>
          if hex_value c = None then None
          else
            (case cs of
               x # cs' \<Rightarrow> if c = CHR ''0'' \<and> (x = CHR ''x'' \<or> x = CHR ''X'') then Some (hex_digits 0 cs')
                          else Some (hex_digits 0 str)
             | [] \<Rightarrow> Some (hex_digits 0 str)))"

text \<open>\<open>scan_fields n\<close> is \<^verbatim>\<open>sscanf\<close> with \<open>n\<close> conversions \<^verbatim>\<open>%x\<close> and colons between them: the numbers converted.\<close>

fun scan_fields :: "nat \<Rightarrow> string \<Rightarrow> u32 list" where
  "scan_fields 0 str = []"
| "scan_fields (Suc n) str =
     (case scan_hex str of
        None \<Rightarrow> []
      | Some (v, rest) \<Rightarrow>
          v # (case rest of c # cs \<Rightarrow> if c = CHR '':'' then scan_fields n cs else [] | [] \<Rightarrow> []))"

text \<open>Fields that were not given keep their initial values.\<close>

definition default_fields :: "u32 list" where
  "default_fields = [0, 0, - 1, - 1, 0, 0]"

definition add_id :: "kernel \<Rightarrow> string \<Rightarrow> 'a kstate_scheme \<Rightarrow> 'a kstate_scheme" where
  "add_id K ident s =
     (if ident = [] then s
      else
        let fields = scan_fields 6 ident in
        if length fields < 2 then s
        else kcall_do K (Life (Add_dynid (fields @ drop (length fields) default_fields))) s)"

definition vfio_pci_fill_ids :: "kernel \<Rightarrow> string \<Rightarrow> 'a kstate_scheme \<Rightarrow> 'a kstate_scheme" where
  "vfio_pci_fill_ids K ids s = (if ids = [] then s else fold (add_id K) (split_at (CHR '','') ids) s)"

section \<open>Loading and unloading\<close>

definition vfio_pci_cleanup :: "kernel \<Rightarrow> perm_tables \<Rightarrow> 'a kstate_scheme \<Rightarrow> perm_tables \<times> 'a kstate_scheme" where
  "vfio_pci_cleanup K T s = (vfio_pci_uninit_perm_bits T, kcall_do K (Life Unregister_driver) s)"

definition vfio_pci_init ::
    "kernel \<Rightarrow> string \<Rightarrow> perm_tables \<Rightarrow> 'a kstate_scheme \<Rightarrow> (int \<times> perm_tables \<times> 'a kstate_scheme) option" where
  "vfio_pci_init K ids T s = do {
     (ret, T, s) \<leftarrow> vfio_pci_init_perm_bits K T s;
     if ret \<noteq> 0 then Some (ret, T, s)
     else
       let (ret, s) = kcall_rc K (Life Register_driver) s in
       if ret \<noteq> 0 then Some (ret, vfio_pci_uninit_perm_bits T, s)
       else Some (0, T, vfio_pci_fill_ids K ids s) }"

end
