(* ===== verification/Vfio_Module_Props.thy ===== *)
theory Vfio_Module_Props
  imports Vfio_Module Vfio_Samples
begin

text \<open>
  Properties of the driver as a module: the identifiers given as a parameter are read back as they are
  printed.
\<close>

section \<open>Printing identifiers\<close>

definition hex_digit :: "nat \<Rightarrow> char" where
  "hex_digit d = char_of (if d < 10 then 48 + d else 87 + d)"

fun hex_of_nat :: "nat \<Rightarrow> string" where
  "hex_of_nat n = (if n < 16 then [hex_digit n] else hex_of_nat (n div 16) @ [hex_digit (n mod 16)])"

declare hex_of_nat.simps [simp del]

definition print_hex :: "u32 \<Rightarrow> string" where
  "print_hex w = hex_of_nat (unat w)"

fun print_fields :: "u32 list \<Rightarrow> string" where
  "print_fields [] = []"
| "print_fields [w] = print_hex w"
| "print_fields (w # ws) = print_hex w @ CHR '':'' # print_fields ws"

fun print_ids :: "u32 list list \<Rightarrow> string" where
  "print_ids [] = []"
| "print_ids [i] = print_fields i"
| "print_ids (i # is) = print_fields i @ CHR '','' # print_ids is"

section \<open>Reading a number back\<close>

lemma hex_digit_code: "d < 16 \<Longrightarrow> (of_char (hex_digit d) :: nat) = (if d < 10 then 48 + d else 87 + d)"
  by (auto simp: hex_digit_def)

lemma hex_value_digit [simp]: "d < 16 \<Longrightarrow> hex_value (hex_digit d) = Some d"
  by (simp add: hex_value_def hex_digit_code Let_def)

lemma hex_digits_append:
  "hex_digits v xs = (w, []) \<Longrightarrow> hex_digits v (xs @ ys) = hex_digits w ys"
  by (induction v xs rule: hex_digits.induct) (auto split: option.splits)

lemma hex_digits_print: "hex_digits 0 (hex_of_nat n) = (of_nat n, [])"
proof (induction n rule: hex_of_nat.induct)
  case (1 n)
  show ?case
  proof (cases "n < 16")
    case True
    then show ?thesis by (simp add: hex_of_nat.simps)
  next
    case False
    have "(16 * of_nat (n div 16) + of_nat (n mod 16) :: u32) = of_nat n"
      by (metis mult_div_mod_eq of_nat_add of_nat_mult of_nat_numeral)
    with False hex_digits_append [OF "1.IH"] show ?thesis by (subst hex_of_nat.simps) simp
  qed
qed

text \<open>What may follow a number: nothing, or a character that is neither a digit nor part of a prefix.\<close>

definition ends_number :: "string \<Rightarrow> bool" where
  "ends_number r \<longleftrightarrow> (case r of [] \<Rightarrow> True | c # _ \<Rightarrow> hex_value c = None \<and> c \<noteq> CHR ''x'' \<and> c \<noteq> CHR ''X'')"

lemma hex_digits_stop: "ends_number r \<Longrightarrow> hex_digits v r = (v, r)"
  by (cases r) (simp_all add: ends_number_def)

lemma hex_of_nat_digits: "\<exists>d ds. hex_of_nat n = map hex_digit (d # ds) \<and> (\<forall>e \<in> set (d # ds). e < 16)"
proof (induction n rule: hex_of_nat.induct)
  case (1 n)
  show ?case
  proof (cases "n < 16")
    case True
    then have "hex_of_nat n = map hex_digit (n # [])" by (simp add: hex_of_nat.simps)
    with True show ?thesis by (metis empty_iff list.set(1) set_ConsD)
  next
    case False
    with "1.IH" obtain d ds where "hex_of_nat (n div 16) = map hex_digit (d # ds)" "\<forall>e \<in> set (d # ds). e < 16" by blast
    with False have "hex_of_nat n = map hex_digit (d # ds @ [n mod 16])" "\<forall>e \<in> set (d # ds @ [n mod 16]). e < 16"
      by (simp_all add: hex_of_nat.simps [of n])
    then show ?thesis by blast
  qed
qed

lemma digit_is_plain: "d < 16 \<Longrightarrow> \<not> is_space (hex_digit d) \<and> hex_digit d \<notin> {CHR ''x'', CHR ''X'', CHR '','', CHR '':''}"
proof -
  assume "d < 16"
  then have "of_char (hex_digit d) \<in> {48..57} \<union> {97..102 :: nat}" by (auto simp: hex_digit_code)
  then show ?thesis by (auto simp: is_space_def)
qed

lemma scan_print_hex:
  assumes "ends_number r"
  shows "scan_hex (print_hex w @ r) = Some (w, r)"
proof -
  obtain d ds where d: "print_hex w = map hex_digit (d # ds)" "\<forall>e \<in> set (d # ds). e < 16"
    using hex_of_nat_digits [of "unat w"] unfolding print_hex_def by blast
  have all: "hex_digits 0 (print_hex w @ r) = (w, r)"
    using hex_digits_append [OF hex_digits_print] hex_digits_stop [OF assms] by (simp add: print_hex_def)
  have second: "case map hex_digit ds @ r of [] \<Rightarrow> True | x # _ \<Rightarrow> x \<noteq> CHR ''x'' \<and> x \<noteq> CHR ''X''"
    using d(2) assms digit_is_plain by (cases ds) (auto simp: ends_number_def split: list.splits)
  have "dropWhile is_space (print_hex w @ r) = hex_digit d # map hex_digit ds @ r"
    using d digit_is_plain [of d] by simp
  with second d(2) all [unfolded d(1)] show ?thesis
    by (auto simp: scan_hex_def Let_def split: list.splits)
qed

section \<open>Reading a list of identifiers back\<close>

lemma scan_print_fields:
  "fs \<noteq> [] \<Longrightarrow> length fs \<le> n \<Longrightarrow> scan_fields n (print_fields fs) = fs"
proof (induction fs arbitrary: n rule: print_fields.induct)
  case (2 w)
  then obtain m where "n = Suc m" by (cases n) auto
  moreover have "ends_number []" by (simp add: ends_number_def)
  ultimately show ?case using scan_print_hex [of "[]" w] by simp
next
  case (3 w v ws)
  then obtain m where n: "n = Suc m" by (cases n) auto
  have "ends_number (CHR '':'' # print_fields (v # ws))" by (simp add: ends_number_def hex_value_def)
  from scan_print_hex [OF this] have "scan_hex (print_fields (w # v # ws)) = Some (w, CHR '':'' # print_fields (v # ws))"
    by simp
  with 3 n show ?case by simp
qed simp

lemma print_hex_chars: "print_hex w \<noteq> [] \<and> CHR '','' \<notin> set (print_hex w)"
proof -
  obtain d ds where d: "print_hex w = map hex_digit (d # ds)" "\<forall>e \<in> set (d # ds). e < 16"
    using hex_of_nat_digits [of "unat w"] unfolding print_hex_def by blast
  then have "\<forall>c \<in> set (print_hex w). c \<noteq> CHR '',''" using digit_is_plain by auto
  with d(1) show ?thesis by auto
qed

lemma print_fields_chars: "fs \<noteq> [] \<Longrightarrow> print_fields fs \<noteq> [] \<and> CHR '','' \<notin> set (print_fields fs)"
  by (induction fs rule: print_fields.induct) (simp_all add: print_hex_chars)

lemma split_at_plain: "x \<notin> set s \<Longrightarrow> split_at x s = [s]"
  by (induction s) auto

lemma split_at_append: "x \<notin> set s \<Longrightarrow> split_at x (s @ x # r) = s # split_at x r"
  by (induction s) auto

lemma split_print_ids:
  "ids \<noteq> [] \<Longrightarrow> [] \<notin> set ids \<Longrightarrow> split_at (CHR '','') (print_ids ids) = map print_fields ids"
  by (induction ids rule: print_ids.induct) (auto simp: split_at_plain split_at_append print_fields_chars)

lemma print_ids_empty: "ids \<noteq> [] \<Longrightarrow> [] \<notin> set ids \<Longrightarrow> print_ids ids \<noteq> []"
  by (induction ids rule: print_ids.induct) (auto simp: print_fields_chars)

lemma add_id_print:
  "2 \<le> length fs \<Longrightarrow> length fs \<le> 6 \<Longrightarrow>
    add_id K (print_fields fs) s = kcall_do K (Life (Add_dynid (fs @ drop (length fs) default_fields))) s"
proof -
  assume len: "2 \<le> length fs" "length fs \<le> 6"
  then have "fs \<noteq> []" by auto
  with len print_fields_chars [of fs] show ?thesis by (simp add: add_id_def scan_print_fields Let_def)
qed

lemma add_ids_print:
  "list_all (\<lambda>fs. 2 \<le> length fs \<and> length fs \<le> 6) ids \<Longrightarrow>
    extends s (fold (add_id K) (map print_fields ids) s) \<and>
    calls s (fold (add_id K) (map print_fields ids) s)
      = map (\<lambda>fs. Life (Add_dynid (fs @ drop (length fs) default_fields))) ids"
proof (induction ids arbitrary: s)
  case (Cons fs ids)
  let ?c = "Life (Add_dynid (fs @ drop (length fs) default_fields))"
  let ?t = "kcall_do K ?c s"
  from Cons have IH: "extends ?t (fold (add_id K) (map print_fields ids) ?t)"
    "calls ?t (fold (add_id K) (map print_fields ids) ?t)
      = map (\<lambda>fs. Life (Add_dynid (fs @ drop (length fs) default_fields))) ids" by auto
  have step: "extends s ?t" "calls s ?t = [?c]" by (simp_all add: kcall_simps extends_def calls_def new_events_def)
  have "fold (add_id K) (map print_fields (fs # ids)) s = fold (add_id K) (map print_fields ids) ?t"
    using Cons.prems by (simp add: add_id_print)
  with IH step calls_trans [OF step(1) IH(1)] extends_trans [OF step(1) IH(1)] show ?case by simp
qed simp

text \<open>C39. The identifiers given when the module is loaded are read as they were meant. Printing a list of
  identifiers, each of two to six hexadecimal numbers with colons between them, and reading the text back adds exactly
  these identifiers to the driver, in order, with the default for every number that was left out.\<close>

theorem fill_ids_round_trip:
  assumes "list_all (\<lambda>fs. 2 \<le> length fs \<and> length fs \<le> 6) ids"
  shows "calls s (vfio_pci_fill_ids K (print_ids ids) s)
    = map (\<lambda>fs. Life (Add_dynid (fs @ drop (length fs) default_fields))) ids"
proof (cases "ids = []")
  case False
  have "[] \<notin> set ids" using assms by (auto simp: list_all_iff)
  with False show ?thesis
    by (simp add: vfio_pci_fill_ids_def print_ids_empty split_print_ids add_ids_print [OF assms, THEN conjunct2])
qed (simp add: vfio_pci_fill_ids_def)

theorem fill_ids_round_trip_witness:
  "print_ids [[0x10de, 0x1b80], [0x8086, 0x1572, 1, 2]] = ''10de:1b80,8086:1572:1:2'' \<and>
    calls sample_device (vfio_pci_fill_ids (sample_kernel sample_cfg) ''10de:1b80,8086:1572:1:2'' sample_device)
      = [Life (Add_dynid [0x10de, 0x1b80, - 1, - 1, 0, 0]), Life (Add_dynid [0x8086, 0x1572, 1, 2, 0, 0])]"
proof -
  have digits: "hex_digit 0 = CHR ''0''" "hex_digit (Suc 0) = CHR ''1''" "hex_digit 2 = CHR ''2''" "hex_digit 5 = CHR ''5''"
    "hex_digit 6 = CHR ''6''" "hex_digit 7 = CHR ''7''" "hex_digit 8 = CHR ''8''" "hex_digit 11 = CHR ''b''"
    "hex_digit 13 = CHR ''d''" "hex_digit 14 = CHR ''e''"
    by (simp_all add: hex_digit_def char_of_def bit_0)
  have printed: "print_ids [[0x10de, 0x1b80], [0x8086, 0x1572, 1, 2]] = ''10de:1b80,8086:1572:1:2''"
    by (simp add: print_hex_def hex_of_nat.simps digits)
  then show ?thesis
    using fill_ids_round_trip [of "[[0x10de, 0x1b80], [0x8086, 0x1572, 1, 2]]" sample_device "sample_kernel sample_cfg"]
    by (simp add: default_fields_def)
qed

end
