(* ===== verification/Vfio_Bus_Props.thy ===== *)
theory Vfio_Bus_Props
  imports Vfio_Ioctl Vfio_Samples
begin

text \<open>
  Properties of the resets of a slot or a bus: when one is tried after the last close, and that a user who
  asks for one owns everything it affects.
\<close>

section \<open>Calls on the system\<close>

lemma sys_fields [simp]:
  "vdev (sys_do K c y) = kcall_do K c (vdev y)" "vdev (snd (sys_rc K c y)) = snd (kcall_rc K c (vdev y))"
  "peers (sys_do K c y) = peers y" "peers (snd (sys_rc K c y)) = peers y"
  "fst (sys_rc K c y) = fst (respond K (trace (vdev y)) c)"
  by (simp_all add: sys_do_def sys_rc_def case_prod_unfold) (simp add: kcall_rc_Pair)

lemma trace_do: "trace (kcall_do K c s) = (c, respond K (trace s) c) # trace s"
  "trace (snd (kcall_rc K c s)) = (c, respond K (trace s) c) # trace s"
  "trace (snd (kcall K c s)) = (c, respond K (trace s) c) # trace s"
  for s :: vfio_pci_device
  by (simp_all add: kcall_simps)

lemma binding_of_sys [simp]:
  "binding_of B (sys_do K c y) = binding_of B y" "binding_of B (snd (sys_rc K c y)) = binding_of B y"
  by (simp_all add: binding_of_def fun_eq_iff)

text \<open>References taken to a device, and external references to groups.\<close>

definition net_refs :: "kcall \<Rightarrow> kcall \<Rightarrow> kevent list \<Rightarrow> int" where
  "net_refs get put h = sum_list (map (\<lambda>e. (if fst e = get then 1 else 0) - (if fst e = put then 1 else 0)) h)"

lemma net_refs_Cons [simp]:
  "net_refs get put (e # h) = (if fst e = get then 1 else 0) - (if fst e = put then 1 else 0) + net_refs get put h"
  by (simp add: net_refs_def)

abbreviation device_refs :: "nat \<Rightarrow> system \<Rightarrow> int" where
  "device_refs d y \<equiv> net_refs (Life (Device_get d)) (Life (Device_put d)) (trace (vdev y))"

section \<open>Unused devices\<close>

definition unused :: "bus \<Rightarrow> system \<Rightarrow> nat \<Rightarrow> bool" where
  "unused B y d \<longleftrightarrow> (\<exists>p. binding_of B y d = Vfio_pci p \<and> peer_refcnt p = 0)"

definition device_call :: "kcall \<Rightarrow> bool" where
  "device_call c \<longleftrightarrow> (\<exists>d. c = Life (Device_get d) \<or> c = Life (Device_put d))"

text \<open>What the walk that collects the unused devices leaves: the list \<open>xs\<close> it added, one reference to each.\<close>

definition collected :: "bus \<Rightarrow> system \<Rightarrow> system \<Rightarrow> nat list \<Rightarrow> bool" where
  "collected B y y' xs \<longleftrightarrow>
     binding_of B y' = binding_of B y \<and> peers y' = peers y \<and> emits device_call (vdev y) (vdev y') \<and>
     (\<forall>d. device_refs d y' = device_refs d y + int (count_list xs d))"

lemma collected_refl [simp]: "collected B y y []"
  by (simp add: collected_def)

lemma collected_trans: "collected B y t xs \<Longrightarrow> collected B t u ys \<Longrightarrow> collected B y u (xs @ ys)"
  by (auto simp: collected_def intro: emits_trans)

lemma get_unused_step:
  assumes run: "vfio_pci_get_unused_devs K B d (devs, y) = (ret, devs', y')"
  shows "\<exists>xs. devices devs' = devices devs @ xs \<and> collected B y y' xs \<and>
    (if ret = 0 then xs = [d] \<and> unused B y d else xs = [])"
proof -
  let ?g = "sys_do K (Life (Device_get d)) y"
  let ?p = "sys_do K (Life (Device_put d)) ?g"
  have g: "collected B y ?g [d]" and p: "collected B y ?p []"
    by (auto simp: collected_def trace_do device_call_def)
  from run g p show ?thesis
    by (auto simp: vfio_pci_get_unused_devs_def unused_def Let_def split: if_splits binding.splits)
qed

lemma walk_wrapper [simp]:
  "affected B slot d \<Longrightarrow> vfio_pci_walk_wrapper B slot fn d r x = fn d x"
  "\<not> affected B slot d \<Longrightarrow> vfio_pci_walk_wrapper B slot fn d r x = (r, x)"
  by (simp_all add: vfio_pci_walk_wrapper_def)

lemma get_unused_walk:
  assumes "pci_walk_bus (vfio_pci_walk_wrapper B slot (vfio_pci_get_unused_devs K B)) ds 0 (devs, y) = (ret, devs', y')"
  shows "\<exists>xs. devices devs' = devices devs @ xs \<and> collected B y y' xs \<and> set xs \<subseteq> {d \<in> set ds. affected B slot d} \<and>
    (ret = 0 \<longrightarrow> (\<forall>d \<in> set ds. affected B slot d \<longrightarrow> unused B y d \<and> d \<in> set xs))"
  using assms
proof (induction ds arbitrary: devs y)
  case Nil
  then show ?case by auto
next
  case (Cons d ds)
  show ?case
  proof (cases "affected B slot d")
    case False
    with Cons.prems have "pci_walk_bus (vfio_pci_walk_wrapper B slot (vfio_pci_get_unused_devs K B)) ds 0 (devs, y)
        = (ret, devs', y')"
      by simp
    from Cons.IH [OF this] False show ?thesis by auto
  next
    case True
    obtain r v t where step: "vfio_pci_get_unused_devs K B d (devs, y) = (r, v, t)" by (metis prod_cases3)
    from get_unused_step [OF step] obtain xs where xs: "devices v = devices devs @ xs" "collected B y t xs"
      "if r = 0 then xs = [d] \<and> unused B y d else xs = []" by blast
    show ?thesis
    proof (cases "r = 0")
      case False
      with Cons.prems True step xs show ?thesis by auto
    next
      case r: True
      with Cons.prems True step have "pci_walk_bus (vfio_pci_walk_wrapper B slot (vfio_pci_get_unused_devs K B)) ds 0 (v, t)
          = (ret, devs', y')"
        by simp
      from Cons.IH [OF this] obtain ys where ys: "devices devs' = devices v @ ys" "collected B t y' ys"
        "set ys \<subseteq> {d \<in> set ds. affected B slot d}"
        "ret = 0 \<longrightarrow> (\<forall>d \<in> set ds. affected B slot d \<longrightarrow> unused B t d \<and> d \<in> set ys)" by blast
      have "unused B t = unused B y" using xs(2) by (simp add: collected_def unused_def fun_eq_iff)
      with xs ys r True collected_trans [OF xs(2) ys(2)] show ?thesis
        by (intro exI [of _ "xs @ ys"]) auto
    qed
  qed
qed

section \<open>Giving the devices back\<close>

lemma clear_needs_reset_fields [simp]:
  "trace (vdev (clear_needs_reset B d y)) = trace (vdev y)" "refcnt (vdev (clear_needs_reset B d y)) = refcnt (vdev y)"
  "emits P s (vdev (clear_needs_reset B d y)) = emits P s (vdev y)"
  by (auto simp: clear_needs_reset_def emits_def extends_def calls_def new_events_def split: binding.split)

lemma needs_reset_clear: "needs_reset_of B (clear_needs_reset B d y) e = (needs_reset_of B y e \<and> e \<noteq> d)"
  by (auto simp: needs_reset_of_def clear_needs_reset_def binding_of_def split: binding.splits)

lemma needs_reset_sys [simp]: "needs_reset_of B (sys_do K c y) = needs_reset_of B y"
  by (simp add: needs_reset_of_def fun_eq_iff)

definition put_call :: "kcall \<Rightarrow> bool" where
  "put_call c \<longleftrightarrow> (\<exists>d. c = Life (Device_put d) \<or> (\<exists>p. c = Life (Peer_set_power_state d p)))"

lemma put_devs_effect:
  "emits put_call (vdev y) (vdev (put_devs K idle B ret ds y)) \<and>
   (\<forall>d. device_refs d (put_devs K idle B ret ds y) = device_refs d y - int (count_list ds d)) \<and>
   (\<forall>d. needs_reset_of B (put_devs K idle B ret ds y) d = (needs_reset_of B y d \<and> \<not> (ret = 0 \<and> d \<in> set ds)))"
proof (induction ds arbitrary: y)
  case (Cons d ds)
  define t where "t = (if ret = 0 then
      (let y = clear_needs_reset B d y in
       if d \<noteq> self B \<and> \<not> idle then sys_do K (Life (Peer_set_power_state d PCI_D3hot)) y else y) else y)"
  define u where "u = sys_do K (Life (Device_put d)) t"
  have "emits put_call (vdev y) (vdev u)" by (simp add: u_def t_def put_call_def Let_def)
  moreover have "device_refs e u = device_refs e y - (if e = d then 1 else 0)" for e
    by (simp add: u_def t_def trace_do Let_def)
  moreover have "needs_reset_of B u e = (needs_reset_of B y e \<and> \<not> (ret = 0 \<and> e = d))" for e
    by (simp add: u_def t_def needs_reset_clear Let_def)
  moreover have "put_devs K idle B ret (d # ds) y = put_devs K idle B ret ds u" by (simp add: u_def t_def Let_def)
  ultimately show ?case using Cons.IH [of u] by (auto intro: emits_trans)
qed simp

section \<open>The reset after the last close\<close>

text \<open>The reset that the kernel says it can do, as its answer to the first question of the driver.\<close>

definition slot_reset :: "kernel \<Rightarrow> system \<Rightarrow> bool" where
  "slot_reset K y \<longleftrightarrow> fst (respond K (trace (vdev y)) (Life Probe_reset_slot)) = 0"

lemma no_reset_emits:
  assumes "emits P s s'" "\<not> P (Life Reset_bus)"
  shows "Life Reset_bus \<notin> set (calls s s')"
  using assms by (auto simp: emits_def)

lemma reset_only_here:
  assumes "emits P s t" "extends t u" "emits Q u v" "\<not> P c" "\<not> Q c" "c \<in> set (calls s v)"
  shows "c \<in> set (calls t u)"
proof -
  have ext: "extends s t" "extends u v" using assms(1,3) by (simp_all add: emits_def)
  have "calls s v = calls s t @ calls t u @ calls u v"
    using calls_trans [OF ext(1) extends_trans [OF assms(2) ext(2)]] calls_trans [OF assms(2) ext(2)] by simp
  with assms show ?thesis by (auto simp: emits_def)
qed

definition before_call :: "kcall \<Rightarrow> bool" where
  "before_call c \<longleftrightarrow> c \<in> {Life Probe_reset_slot, Life Probe_reset_bus, Mem Alloc} \<or> device_call c"

lemma try_bus_reset_cases [consumes 1, case_names none tried]:
  assumes run: "vfio_pci_try_bus_reset K idle B y = y'"
  obtains "binding_of B y' = binding_of B y" "emits before_call (vdev y) (vdev y')" "\<And>d. device_refs d y' = device_refs d y"
  | xs t u ret and r :: int where "binding_of B t = binding_of B y" "emits before_call (vdev y) (vdev t)"
      "\<And>d. device_refs d t = device_refs d y + int (count_list xs d)"
      "set xs \<subseteq> {d \<in> set (walked B). affected B (slot_reset K y) d}"
      "r = 0 \<longrightarrow> (\<forall>d \<in> set (walked B). affected B (slot_reset K y) d \<longrightarrow> unused B y d \<and> d \<in> set xs)"
      "(ret, u) = (if r = 0 \<and> list_ex (needs_reset_of B t) xs then sys_rc K (Life Reset_bus) t else (- EINVAL, t))"
      "y' = put_devs K idle B ret xs u"
proof -
  define slot where "slot = slot_reset K y"
  define a where "a = snd (sys_rc K (Life Probe_reset_slot) y)"
  define b where "b = (if slot then a else snd (sys_rc K (Life Probe_reset_bus) a))"
  define brc where "brc = (if slot then 0 else fst (sys_rc K (Life Probe_reset_bus) a))"
  define n where "n = vfio_pci_for_each_slot_or_bus B vfio_pci_count_devs 0 slot"
  define c where "c = snd (sys_rc K (Mem Alloc) b)"
  obtain r devs t where walk: "vfio_pci_for_each_slot_or_bus B (vfio_pci_get_unused_devs K B) (\<lparr>devices = [], max_index = snd n\<rparr>, c) slot
      = (r, devs, t)" by (metis prod_cases3)
  from get_unused_walk [OF walk [unfolded vfio_pci_for_each_slot_or_bus_def]] obtain xs
    where xs: "devices devs = xs" "collected B c t xs" "set xs \<subseteq> {d \<in> set (walked B). affected B slot d}"
      "r = 0 \<longrightarrow> (\<forall>d \<in> set (walked B). affected B slot d \<longrightarrow> unused B c d \<and> d \<in> set xs)" by auto
  define ru where "ru = (if r = 0 \<and> list_ex (needs_reset_of B t) xs then sys_rc K (Life Reset_bus) t else (- EINVAL, t))"
  have result: "y' = (if brc \<noteq> 0 then b else if fst n \<noteq> 0 \<or> snd n = 0 then b
      else if fst (sys_rc K (Mem Alloc) b) = 0 then c else put_devs K idle B (fst ru) xs (snd ru))"
  proof -
    obtain rc where 1: "sys_rc K (Life Probe_reset_slot) y = (rc, a)" and rc: "(rc = 0) = slot"
      by (metis a_def prod.collapse slot_def slot_reset_def sys_fields(5))
    have 2: "(if slot then (0, a) else sys_rc K (Life Probe_reset_bus) a) = (brc, b)"
      by (simp add: brc_def b_def del: sys_fields)
    obtain p where 3: "sys_rc K (Mem Alloc) b = (p, c)" by (cases "sys_rc K (Mem Alloc) b") (simp add: c_def)
    obtain n1 n2 where 4: "vfio_pci_for_each_slot_or_bus B vfio_pci_count_devs 0 slot = (n1, n2)" "n = (n1, n2)"
      by (cases n) (simp add: n_def)
    show ?thesis
      using run walk xs(1) unfolding vfio_pci_try_bus_reset_def Let_def 1 prod.case rc 2 3 4 fst_conv snd_conv
      by (cases "brc = 0"; cases "n1 = 0 \<and> n2 \<noteq> 0"; cases "p = 0") (auto simp: ru_def case_prod_unfold)
  qed
  have early: "emits before_call (vdev y) (vdev b)" "emits before_call (vdev y) (vdev c)"
    by (simp_all add: b_def a_def c_def before_call_def)
  have same: "binding_of B b = binding_of B y" "binding_of B c = binding_of B y"
    "device_refs d b = device_refs d y" "device_refs d c = device_refs d y" for d
    by (simp_all add: a_def b_def c_def trace_do)
  have "emits before_call (vdev c) (vdev t)"
    using xs(2) by (auto simp: collected_def emits_def before_call_def)
  from emits_trans [OF early(2) this]
  have coll: "binding_of B t = binding_of B y" "emits before_call (vdev y) (vdev t)"
    "device_refs d t = device_refs d y + int (count_list xs d)" for d
    using xs(2) same(2,4) by (auto simp: collected_def)
  have unused: "unused B c = unused B y" using same(2) by (simp add: unused_def fun_eq_iff)
  show thesis
  proof (cases "y' = b \<or> y' = c")
    case True
    with early same that(1) show thesis by auto
  next
    case False
    with result have "y' = put_devs K idle B (fst ru) xs (snd ru)" by (auto split: if_splits)
    with coll xs(3,4) unused show thesis
      by (intro that(2) [where t = t and xs = xs and r = r and ret = "fst ru" and u = "snd ru"])
        (simp_all add: slot_def ru_def [symmetric])
  qed
qed

text \<open>C11. A reset of the slot or the bus is tried on a close only if it is safe and needed. If the driver makes it,
  every device it affects is bound to the driver and not open, and one of them is waiting for a reset. Only a
  successful reset takes that mark from a device, and then from one it affects. And every reference taken to
  a device on the way is given back, whether the reset was made or not.\<close>

theorem bus_reset_safe:
  assumes run: "vfio_pci_try_bus_reset K idle B y = y'"
  shows "(Life Reset_bus \<in> set (calls (vdev y) (vdev y')) \<longrightarrow>
      (\<forall>d \<in> set (walked B). affected B (slot_reset K y) d \<longrightarrow> unused B y d) \<and>
      (\<exists>d \<in> set (walked B). affected B (slot_reset K y) d \<and> needs_reset_of B y d)) \<and>
    (\<forall>d. needs_reset_of B y d \<and> \<not> needs_reset_of B y' d \<longrightarrow>
      d \<in> set (walked B) \<and> affected B (slot_reset K y) d \<and> (\<exists>v. (Life Reset_bus, 0, v) \<in> set (trace (vdev y')))) \<and>
    (\<forall>d. device_refs d y' = device_refs d y)"
  using run
proof (cases rule: try_bus_reset_cases)
  case none
  have "Life Reset_bus \<notin> set (calls (vdev y) (vdev y'))"
    by (rule no_reset_emits [OF none(2)]) (simp add: before_call_def device_call_def)
  with none show ?thesis by (simp add: needs_reset_of_def)
next
  case (tried xs t u ret r)
  note put = put_devs_effect [of u K idle B ret xs, folded tried(7)]
  have needs: "needs_reset_of B t = needs_reset_of B y" using tried(1) by (simp add: needs_reset_of_def fun_eq_iff)
  have quiet: "\<not> before_call (Life Reset_bus)" "\<not> put_call (Life Reset_bus)"
    by (simp_all add: before_call_def device_call_def put_call_def)
  show ?thesis
  proof (cases "r = 0 \<and> list_ex (needs_reset_of B t) xs")
    case False
    with tried(6) have u: "u = t" "ret \<noteq> 0" by auto
    have "Life Reset_bus \<notin> set (calls (vdev y) (vdev y'))"
      using reset_only_here [where P = before_call and Q = put_call and c = "Life Reset_bus" and s = "vdev y" and
          t = "vdev t" and u = "vdev u" and v = "vdev y'"] tried(2) put u quiet by auto
    with put u tried(3) needs show ?thesis by simp
  next
    case True
    with tried(6) have u: "u = snd (sys_rc K (Life Reset_bus) t)" "ret = fst (respond K (trace (vdev t)) (Life Reset_bus))"
      by (simp_all add: prod_eq_iff)
    have "(Life Reset_bus, ret, snd (respond K (trace (vdev t)) (Life Reset_bus))) \<in> set (trace (vdev u))"
      by (simp add: u trace_do)
    moreover have "set (trace (vdev u)) \<subseteq> set (trace (vdev y'))" using put by (auto simp: emits_def extends_def)
    ultimately have ev: "\<exists>v. (Life Reset_bus, ret, v) \<in> set (trace (vdev y'))" by blast
    have "needs_reset_of B u = needs_reset_of B y" using needs by (simp add: needs_reset_of_def u fun_eq_iff)
    moreover have "device_refs d u = device_refs d t" for d by (simp add: u trace_do)
    ultimately show ?thesis using True tried(3,4,5) put needs ev by (auto simp: list_ex_iff)
  qed
qed

theorem bus_reset_safe_witness:
  "let y' = vfio_pci_try_bus_reset (sample_kernel sample_cfg) False sample_bus sample_system in
    Life Reset_bus \<in> set (calls (vdev sample_system) (vdev y')) \<and> unused sample_bus sample_system 1 \<and>
    device_refs 1 y' = device_refs 1 sample_system"
proof -
  define y' where "y' = vfio_pci_try_bus_reset (sample_kernel sample_cfg) False sample_bus sample_system"
  have reset: "Life Reset_bus \<in> set (calls (vdev sample_system) (vdev y'))" unfolding y'_def by code_simp
  have "affected sample_bus (slot_reset (sample_kernel sample_cfg) sample_system) 1" "1 \<in> set (walked sample_bus)"
    by code_simp+
  with bus_reset_safe [OF y'_def [symmetric]] reset have "unused sample_bus sample_system 1"
    "device_refs 1 y' = device_refs 1 sample_system" by blast+
  with reset show ?thesis by (simp add: y'_def Let_def)
qed

end
