(* ===== verification/Vfio_Reset_Props.thy ===== *)
theory Vfio_Reset_Props
  imports Vfio_Bus_Props
begin

text \<open>
  The reset of a slot or bus that a user asks for: it is made only when every device it affects belongs to a
  group that the user named, and all references taken on the way are given back.
\<close>

section \<open>The events of an operation\<close>

text \<open>\<open>steps y h y'\<close>: the calls made from \<open>y\<close> to \<open>y'\<close> and their answers, oldest first.\<close>

definition steps :: "system \<Rightarrow> kevent list \<Rightarrow> system \<Rightarrow> bool" where
  "steps y h y' \<longleftrightarrow> trace (vdev y') = rev h @ trace (vdev y)"

lemma steps_refl [simp]: "steps y [] y"
  by (simp add: steps_def)

lemma steps_trans: "steps y h t \<Longrightarrow> steps t k u \<Longrightarrow> steps y (h @ k) u"
  by (simp add: steps_def)

lemma steps_sys [simp]:
  "steps y [(c, respond K (trace (vdev y)) c)] (sys_do K c y)"
  "steps y [(c, respond K (trace (vdev y)) c)] (snd (sys_rc K c y))"
  by (simp_all add: steps_def trace_do)

lemma steps_events: "steps y h y' \<Longrightarrow> new_events (vdev y) (vdev y') = h"
  by (simp add: steps_def new_events_append)

text \<open>How often more something was taken than given back.\<close>

definition net :: "(kevent \<Rightarrow> bool) \<Rightarrow> (kevent \<Rightarrow> bool) \<Rightarrow> kevent list \<Rightarrow> int" where
  "net take_it give_it h = int (length (filter take_it h)) - int (length (filter give_it h))"

lemma net_simps [simp]:
  "net t g [] = 0"
  "net t g (e # h) = (if t e then 1 else 0) - (if g e then 1 else 0) + net t g h"
  "net t g (h @ k) = net t g h + net t g k"
  by (simp_all add: net_def)

text \<open>References to a group the user named, to an open file, and to the group of a device.\<close>

definition group_net :: "int \<Rightarrow> kevent list \<Rightarrow> int" where
  "group_net g = net (\<lambda>e. \<exists>f v. e = (Life (Group_get_external_user f), g, v)) (\<lambda>e. fst e = Life (Put_external_user g))"

definition fd_net :: "int \<Rightarrow> kevent list \<Rightarrow> int" where
  "fd_net fd = net (\<lambda>e. \<exists>f v. e = (Life (Fdget fd), f, v) \<and> f \<noteq> 0) (\<lambda>e. fst e = Life (Fdput fd))"

definition peer_net :: "nat \<Rightarrow> kevent list \<Rightarrow> int" where
  "peer_net d = net (\<lambda>e. \<exists>p v. e = (Life (Peer_iommu_group d), p, v) \<and> p \<noteq> 0) (\<lambda>e. fst e = Life (Peer_iommu_group_put d))"

definition quiet :: "kevent list \<Rightarrow> bool" where
  "quiet h \<longleftrightarrow> (\<forall>fd. fd_net fd h = 0) \<and> (\<forall>d. peer_net d h = 0) \<and>
     (\<forall>e \<in> set h. fst e \<noteq> Life Reset_bus \<and> fst e \<noteq> Life Probe_reset_slot)"

lemmas nets = group_net_def fd_net_def peer_net_def

lemma quiet_append: "quiet h \<Longrightarrow> quiet k \<Longrightarrow> quiet (h @ k)"
  by (auto simp: quiet_def nets)

text \<open>A group that the user named, with the identifier of its IOMMU group; a device that is in one.\<close>

definition user_group :: "kevent list \<Rightarrow> int \<Rightarrow> int \<Rightarrow> bool" where
  "user_group h g ident \<longleftrightarrow> 0 \<le> g \<and> (\<exists>f v. (Life (Group_get_external_user f), g, v) \<in> set h) \<and>
     (\<exists>v. (Life (External_user_iommu_id g), ident, v) \<in> set h)"

definition owned :: "kevent list \<Rightarrow> nat \<Rightarrow> bool" where
  "owned h d \<longleftrightarrow> (\<exists>p ident g. (Life (Peer_iommu_group d), p, ident) \<in> set h \<and> p \<noteq> 0 \<and> user_group h g (uint ident))"

section \<open>The groups the user names\<close>

lemma get_groups_effect:
  assumes "get_groups K fds groups y = (ret, groups', y')"
  shows "\<exists>h xs. groups' = groups @ xs \<and> steps y h y' \<and> quiet h \<and>
    (\<forall>(g, ident) \<in> set xs. user_group h g ident) \<and> (\<forall>g\<ge>0. group_net g h = int (count_list (map fst xs) g))"
  using assms
proof (induction fds arbitrary: groups y)
  case Nil
  then show ?case by (auto intro!: exI [of _ "[]"] simp: quiet_def nets)
next
  case (Cons fd fds)
  define fr where "fr = respond K (trace (vdev y)) (Life (Fdget fd))"
  define a where "a = snd (sys_rc K (Life (Fdget fd)) y)"
  have a: "sys_rc K (Life (Fdget fd)) y = (fst fr, a)" "steps y [(Life (Fdget fd), fr)] a"
    by (simp_all add: a_def fr_def prod_eq_iff)
  define gr where "gr = respond K (trace (vdev a)) (Life (Group_get_external_user (fst fr)))"
  define b where "b = snd (sys_rc K (Life (Group_get_external_user (fst fr))) a)"
  have b: "sys_rc K (Life (Group_get_external_user (fst fr))) a = (fst gr, b)"
    "steps a [(Life (Group_get_external_user (fst fr)), gr)] b"
    by (simp_all add: b_def gr_def prod_eq_iff)
  define pr where "pr = respond K (trace (vdev b)) (Life (Fdput fd))"
  define c where "c = sys_do K (Life (Fdput fd)) b"
  have c: "steps b [(Life (Fdput fd), pr)] c" by (simp add: c_def pr_def)
  define ir where "ir = respond K (trace (vdev c)) (Life (External_user_iommu_id (fst gr)))"
  define t where "t = snd (sys_rc K (Life (External_user_iommu_id (fst gr))) c)"
  have t: "sys_rc K (Life (External_user_iommu_id (fst gr))) c = (fst ir, t)"
    "steps c [(Life (External_user_iommu_id (fst gr)), ir)] t"
    by (simp_all add: t_def ir_def prod_eq_iff)
  note run = Cons.prems [unfolded get_groups.simps Let_def a(1) prod.case b(1) c_def [symmetric] t(1)]
  have abc: "steps y [(Life (Fdget fd), fr), (Life (Group_get_external_user (fst fr)), gr), (Life (Fdput fd), pr)] c"
    using steps_trans [OF steps_trans [OF a(2) b(2)] c] by simp
  consider "fst fr = 0" | "fst fr \<noteq> 0" "fst gr < 0" | "fst fr \<noteq> 0" "0 \<le> fst gr" by linarith
  then show ?case
  proof cases
    case 1
    with run a(2) show ?thesis
      by (intro exI [of _ "[(Life (Fdget fd), fr)]"] exI [of _ "[]"]) (auto simp: quiet_def nets prod_eq_iff)
  next
    case 2
    with run abc show ?thesis
      by (intro exI [of _ "[(Life (Fdget fd), fr), (Life (Group_get_external_user (fst fr)), gr), (Life (Fdput fd), pr)]"]
          exI [of _ "[]"]) (auto simp: quiet_def nets prod_eq_iff)
  next
    case 3
    define k where "k = [(Life (Fdget fd), fr), (Life (Group_get_external_user (fst fr)), gr), (Life (Fdput fd), pr),
      (Life (External_user_iommu_id (fst gr)), ir)]"
    have k: "steps y k t" "quiet k" "user_group k (fst gr) (fst ir)"
      "\<forall>g\<ge>0. group_net g k = (if g = fst gr then 1 else 0)"
      using steps_trans [OF abc t(2)] 3
      by (auto simp: k_def quiet_def nets user_group_def prod_eq_iff intro: exI [of _ "snd gr"] exI [of _ "snd ir"])
    from 3 run have "get_groups K fds (groups @ [(fst gr, fst ir)]) t = (ret, groups', y')" by simp
    from Cons.IH [OF this] obtain h xs where h: "groups' = groups @ (fst gr, fst ir) # xs" "steps t h y'" "quiet h"
      "\<forall>(g, ident) \<in> set xs. user_group h g ident" "\<forall>g\<ge>0. group_net g h = int (count_list (map fst xs) g)" by auto
    have "\<forall>(g, ident) \<in> set ((fst gr, fst ir) # xs). user_group (k @ h) g ident"
      using k(3) h(4) by (fastforce simp: user_group_def)
    moreover have "\<forall>g\<ge>0. group_net g (k @ h) = int (count_list (map fst ((fst gr, fst ir) # xs)) g)"
      using k(4) h(5) by (simp add: group_net_def)
    ultimately show ?thesis using h(1) steps_trans [OF k(1) h(2)] quiet_append [OF k(2) h(3)]
      by (intro exI [of _ "k @ h"] exI [of _ "(fst gr, fst ir) # xs"]) simp
  qed
qed

lemma put_groups_effect:
  "\<exists>h. steps y h (put_groups K groups y) \<and> quiet h \<and> (\<forall>g. group_net g h = - int (count_list (map fst groups) g))"
proof -
  have "\<exists>h. steps y h (fold (\<lambda>(group, ident). sys_do K (Life (Put_external_user group))) gs y) \<and> quiet h \<and>
    (\<forall>g. group_net g h = - int (count_list (map fst gs) g))" for gs :: "(int \<times> int) list"
  proof (induction gs arbitrary: y)
    case (Cons x gs)
    let ?e = "(Life (Put_external_user (fst x)), respond K (trace (vdev y)) (Life (Put_external_user (fst x))))"
    from Cons [of "sys_do K (Life (Put_external_user (fst x))) y"] obtain h
      where h: "steps (sys_do K (Life (Put_external_user (fst x))) y) h
          (fold (\<lambda>(group, ident). sys_do K (Life (Put_external_user group))) gs (sys_do K (Life (Put_external_user (fst x))) y))"
        "quiet h" "\<forall>g. group_net g h = - int (count_list (map fst gs) g)" by blast
    have "quiet [?e]" by (auto simp: quiet_def nets)
    with h steps_trans [OF steps_sys(1) h(1)] quiet_append [of "[?e]" h] show ?case
      by (intro exI [of _ "[?e] @ h"]) (auto simp: case_prod_unfold group_net_def)
  qed (auto intro!: exI [of _ "[]"] simp: quiet_def nets)
  from this [of "rev groups"] show ?thesis by (simp add: put_groups_def rev_map [symmetric])
qed

section \<open>The devices of the groups\<close>

lemma iommu_group_get_effect:
  "iommu_group_get K d y = (m, y') \<Longrightarrow> \<exists>p ident. steps y [(Life (Peer_iommu_group d), p, ident)] y' \<and>
     m = (if p = 0 then None else Some (uint ident))"
  by (auto simp: iommu_group_get_def steps_def kcall_simps split: prod.splits)

lemma validate_dev_effect:
  assumes "vfio_pci_validate_devs K groups d y = (ret, y')"
  shows "\<exists>h. steps y h y' \<and> quiet h \<and> (\<forall>g. group_net g h = 0) \<and>
    (ret = 0 \<longrightarrow> (\<exists>p ident. (Life (Peer_iommu_group d), p, ident) \<in> set h \<and> p \<noteq> 0 \<and> uint ident \<in> set (map snd groups)))"
proof -
  obtain m t where get: "iommu_group_get K d y = (m, t)" by fastforce
  from iommu_group_get_effect [OF get] obtain p ident where e: "steps y [(Life (Peer_iommu_group d), p, ident)] t"
    "m = (if p = 0 then None else Some (uint ident))" by blast
  let ?put = "(Life (Peer_iommu_group_put d), respond K (trace (vdev t)) (Life (Peer_iommu_group_put d)))"
  show ?thesis
  proof (cases "p = 0")
    case True
    with assms get e show ?thesis
      by (intro exI [of _ "[(Life (Peer_iommu_group d), p, ident)]"])
        (auto simp: vfio_pci_validate_devs_def quiet_def nets)
  next
    case False
    with assms get e steps_trans [OF e(1) steps_sys(1)] show ?thesis
      by (intro exI [of _ "[(Life (Peer_iommu_group d), p, ident), ?put]"])
        (auto simp: vfio_pci_validate_devs_def quiet_def nets split: if_splits)
  qed
qed

lemma validate_walk:
  assumes "pci_walk_bus (vfio_pci_walk_wrapper B slot (vfio_pci_validate_devs K groups)) ds 0 y = (ret, y')"
  shows "\<exists>h. steps y h y' \<and> quiet h \<and> (\<forall>g. group_net g h = 0) \<and>
    (ret = 0 \<longrightarrow> (\<forall>d \<in> set ds. affected B slot d \<longrightarrow>
      (\<exists>p ident. (Life (Peer_iommu_group d), p, ident) \<in> set h \<and> p \<noteq> 0 \<and> uint ident \<in> set (map snd groups))))"
  using assms
proof (induction ds arbitrary: y)
  case Nil
  then show ?case by (auto intro!: exI [of _ "[]"] simp: quiet_def nets)
next
  case (Cons d ds)
  show ?case
  proof (cases "affected B slot d")
    case False
    with Cons.prems Cons.IH [of y] show ?thesis by auto
  next
    case True
    obtain r t where step: "vfio_pci_validate_devs K groups d y = (r, t)" by fastforce
    from validate_dev_effect [OF step] obtain h where h: "steps y h t" "quiet h" "\<forall>g. group_net g h = 0"
      "r = 0 \<longrightarrow> (\<exists>p ident. (Life (Peer_iommu_group d), p, ident) \<in> set h \<and> p \<noteq> 0 \<and> uint ident \<in> set (map snd groups))"
      by blast
    show ?thesis
    proof (cases "r = 0")
      case False
      with Cons.prems True step h show ?thesis by auto
    next
      case r: True
      with Cons.prems True step have "pci_walk_bus (vfio_pci_walk_wrapper B slot (vfio_pci_validate_devs K groups)) ds 0 t = (ret, y')"
        by simp
      from Cons.IH [OF this] obtain k where k: "steps t k y'" "quiet k" "\<forall>g. group_net g k = 0"
        "ret = 0 \<longrightarrow> (\<forall>d \<in> set ds. affected B slot d \<longrightarrow>
          (\<exists>p ident. (Life (Peer_iommu_group d), p, ident) \<in> set k \<and> p \<noteq> 0 \<and> uint ident \<in> set (map snd groups)))" by blast
      have "\<forall>g. group_net g (h @ k) = 0" using h(3) k(3) by (simp add: group_net_def)
      moreover have "ret = 0 \<longrightarrow> (\<forall>e \<in> set (d # ds). affected B slot e \<longrightarrow>
          (\<exists>p ident. (Life (Peer_iommu_group e), p, ident) \<in> set (h @ k) \<and> p \<noteq> 0 \<and> uint ident \<in> set (map snd groups)))"
        using h(4) k(4) r by (simp only: set_append list.set Un_iff) blast
      ultimately show ?thesis using steps_trans [OF h(1) k(1)] quiet_append [OF h(2) k(2)] by blast
    qed
  qed
qed

section \<open>The reset\<close>

definition balanced :: "kevent list \<Rightarrow> bool" where
  "balanced h \<longleftrightarrow> (\<forall>g\<ge>0. group_net g h = 0) \<and> (\<forall>fd. fd_net fd h = 0) \<and> (\<forall>d. peer_net d h = 0)"

lemma balanced_append: "balanced h \<Longrightarrow> balanced k \<Longrightarrow> balanced (h @ k)"
  by (simp add: balanced_def nets)

lemma user_group_mono: "user_group h g ident \<Longrightarrow> set h \<subseteq> set k \<Longrightarrow> user_group k g ident"
  unfolding user_group_def by (meson subsetD)

lemma owned_mono: "owned h d \<Longrightarrow> set h \<subseteq> set k \<Longrightarrow> owned k d"
  unfolding owned_def by (meson subsetD user_group_mono)

lemma hot_reset_groups_effect:
  assumes run: "hot_reset_groups K B slot fds y = (ret, y')"
  shows "\<exists>h. steps y h y' \<and> balanced h \<and> (\<forall>e \<in> set h. fst e \<noteq> Life Probe_reset_slot) \<and>
    ((\<exists>e \<in> set h. fst e = Life Reset_bus) \<longrightarrow> (\<forall>d \<in> set (walked B). affected B slot d \<longrightarrow> owned h d))"
proof -
  obtain r1 groups a where get: "get_groups K fds [] y = (r1, groups, a)" by (metis prod_cases3)
  from get_groups_effect [OF get] obtain h where h: "steps y h a" "quiet h"
    "\<forall>(g, ident) \<in> set groups. user_group h g ident" "\<forall>g\<ge>0. group_net g h = int (count_list (map fst groups) g)" by auto
  have last: "\<exists>k. steps t k (put_groups K groups t) \<and> quiet k \<and> (\<forall>g. group_net g k = - int (count_list (map fst groups) g))" for t
    by (rule put_groups_effect)
  show ?thesis
  proof (cases "r1 = 0")
    case False
    with run get have y': "y' = put_groups K groups a" by (simp add: hot_reset_groups_def)
    from last [of a] obtain k where "steps a k y'" "quiet k" "\<forall>g. group_net g k = - int (count_list (map fst groups) g)"
      unfolding y' by blast
    with h steps_trans [OF h(1) \<open>steps a k y'\<close>] show ?thesis
      by (intro exI [of _ "h @ k"]) (auto simp: balanced_def quiet_def nets)
  next
    case True
    obtain r2 b where walk: "vfio_pci_for_each_slot_or_bus B (vfio_pci_validate_devs K groups) a slot = (r2, b)" by fastforce
    from validate_walk [OF walk [unfolded vfio_pci_for_each_slot_or_bus_def]] obtain m where m: "steps a m b" "quiet m"
      "\<forall>g. group_net g m = 0" "r2 = 0 \<longrightarrow> (\<forall>d \<in> set (walked B). affected B slot d \<longrightarrow>
        (\<exists>p ident. (Life (Peer_iommu_group d), p, ident) \<in> set m \<and> p \<noteq> 0 \<and> uint ident \<in> set (map snd groups)))" by blast
    show ?thesis
    proof (cases "r2 = 0")
      case False
      with run get walk True have y': "y' = put_groups K groups b" by (simp add: hot_reset_groups_def)
      from last [of b] obtain k where k: "steps b k y'" "quiet k" "\<forall>g. group_net g k = - int (count_list (map fst groups) g)"
        unfolding y' by blast
      with h m steps_trans [OF steps_trans [OF h(1) m(1)] k(1)] show ?thesis
        by (intro exI [of _ "h @ m @ k"]) (auto simp: balanced_def quiet_def nets)
    next
      case r2: True
      define c where "c = snd (sys_rc K (Life Reset_bus) b)"
      let ?e = "(Life Reset_bus, respond K (trace (vdev b)) (Life Reset_bus))"
      have y': "y' = put_groups K groups c" using run get walk True r2
        by (cases "sys_rc K (Life Reset_bus) b") (simp add: hot_reset_groups_def c_def)
      from last [of c] obtain k where k: "steps c k y'" "quiet k" "\<forall>g. group_net g k = - int (count_list (map fst groups) g)"
        unfolding y' by blast
      have "steps b [?e] c" by (simp add: c_def)
      then have all: "steps y (h @ m @ [?e] @ k) y'" using h(1) m(1) k(1) by (simp add: steps_def)
      have "owned (h @ m @ [?e] @ k) d" if "d \<in> set (walked B)" "affected B slot d" for d
      proof -
        from m(4) r2 that obtain p ident where d: "(Life (Peer_iommu_group d), p, ident) \<in> set m" "p \<noteq> 0"
          "uint ident \<in> set (map snd groups)" by blast
        then obtain g where "(g, uint ident) \<in> set groups" by auto
        with h(3) have "user_group h g (uint ident)" by blast
        then have "user_group (h @ m) g (uint ident)" by (rule user_group_mono) simp
        moreover have "(Life (Peer_iommu_group d), p, ident) \<in> set (h @ m)" using d(1) by simp
        ultimately have "owned (h @ m) d" using d(2) unfolding owned_def by blast
        then show ?thesis by (rule owned_mono) auto
      qed
      with all h m k show ?thesis
        by (intro exI [of _ "h @ m @ [?e] @ k"]) (auto simp: balanced_def quiet_def nets)
    qed
  qed
qed

text \<open>The calls before the groups are looked at: copies from the user, allocations and the question what is possible.\<close>

lemma probe_reset_effect:
  assumes "probe_reset K y = (m, y')"
  shows "\<exists>h. steps y h y' \<and> balanced h \<and> (\<forall>e \<in> set h. fst e \<noteq> Life Reset_bus) \<and>
    (\<forall>slot. m = Some slot \<longrightarrow> slot = (\<exists>v. (Life Probe_reset_slot, 0, v) \<in> set h))"
proof -
  define r where "r = respond K (trace (vdev y)) (Life Probe_reset_slot)"
  define a where "a = snd (sys_rc K (Life Probe_reset_slot) y)"
  have a: "sys_rc K (Life Probe_reset_slot) y = (fst r, a)" "steps y [(Life Probe_reset_slot, r)] a"
    by (simp_all add: a_def r_def prod_eq_iff)
  define q where "q = respond K (trace (vdev a)) (Life Probe_reset_bus)"
  define b where "b = snd (sys_rc K (Life Probe_reset_bus) a)"
  have b: "sys_rc K (Life Probe_reset_bus) a = (fst q, b)" "steps a [(Life Probe_reset_bus, q)] b"
    by (simp_all add: b_def q_def prod_eq_iff)
  note run = assms [unfolded probe_reset_def Let_def a(1) prod.case b(1)]
  show ?thesis
  proof (cases "fst r = 0")
    case True
    with run a(2) show ?thesis
      by (intro exI [of _ "[(Life Probe_reset_slot, r)]"]) (auto simp: balanced_def nets prod_eq_iff intro: exI [of _ "snd r"])
  next
    case False
    with run steps_trans [OF a(2) b(2)] show ?thesis
      by (intro exI [of _ "[(Life Probe_reset_slot, r), (Life Probe_reset_bus, q)]"])
        (auto simp: balanced_def nets prod_eq_iff split: if_splits)
  qed
qed

definition mem_only :: "kevent list \<Rightarrow> bool" where
  "mem_only h \<longleftrightarrow> (\<forall>e \<in> set h. \<exists>c. fst e = Mem c)"

lemma mem_only_balanced: "mem_only h \<Longrightarrow> balanced h"
  by (induction h) (auto simp: mem_only_def balanced_def nets)

lemma copy_struct_effect: "copy_struct K addr n y = (rc, bs, y') \<Longrightarrow> \<exists>h. steps y h y' \<and> mem_only h"
  by (auto simp: copy_struct_def steps_def mem_only_def trace_do sys_rc_def case_prod_unfold
      intro!: exI [of _ "[(Mem (Copy_from_user addr n), respond K (trace (vdev y)) (Mem (Copy_from_user addr n)))]"])

lemma mem_only_not: "mem_only h \<Longrightarrow> (Life x, r) \<notin> set h" "mem_only h \<Longrightarrow> \<forall>e \<in> set h. fst e \<noteq> Life x"
  by (force simp: mem_only_def)+

lemma mem_only_append: "mem_only h \<Longrightarrow> mem_only k \<Longrightarrow> mem_only (h @ k)"
  by (auto simp: mem_only_def)

lemma sys_rc_Alloc: "sys_rc K (Mem Alloc) y = (p, y') \<Longrightarrow> \<exists>h. steps y h y' \<and> mem_only h"
  using steps_sys(2) [of y "Mem Alloc" K]
  by (intro exI [of _ "[(Mem Alloc, respond K (trace (vdev y)) (Mem Alloc))]"]) (simp add: mem_only_def)

text \<open>The request ends early, after copies, allocations and the question, or goes on to the groups.\<close>

lemma hot_reset_stages:
  assumes run: "ioctl_hot_reset K B arg y = (ret, y')"
  obtains h where "steps y h y'" "mem_only h"
  | a m b h k where "steps y h a" "mem_only h" "probe_reset K a = (m, b)" "steps b k y'" "mem_only k"
  | a slot b c h k fds where "steps y h a" "mem_only h" "probe_reset K a = (Some slot, b)" "steps b k c" "mem_only k"
      "hot_reset_groups K B slot fds c = (ret, y')"
proof -
  obtain rc hdr a where 1: "copy_struct K arg 12 y = (rc, hdr, a)" by (metis prod_cases3)
  obtain m b where 2: "probe_reset K a = (m, b)" by fastforce
  obtain p c where 3: "sys_rc K (Mem Alloc) b = (p, c)" by fastforce
  obtain q d where 4: "sys_rc K (Mem Alloc) c = (q, d)" by fastforce
  obtain rc2 bs e where 5: "copy_struct K (arg + 12) (unat (u32_at hdr 8) * 4) d = (rc2, bs, e)" by (metis prod_cases3)
  from copy_struct_effect [OF 1] obtain h where h: "steps y h a" "mem_only h" by blast
  from sys_rc_Alloc [OF 3] sys_rc_Alloc [OF 4] copy_struct_effect [OF 5] obtain k1 k2 k3
    where k: "steps b k1 c" "mem_only k1" "steps c k2 d" "mem_only k2" "steps d k3 e" "mem_only k3" by blast
  have bd: "steps b (k1 @ k2) d" "mem_only (k1 @ k2)" and be: "steps b (k1 @ k2 @ k3) e" "mem_only (k1 @ k2 @ k3)"
    using k by (simp_all add: steps_def mem_only_append)
  define fds where "fds = map (\<lambda>i. sint (u32_at bs (4 * i))) [0..<unat (u32_at hdr 8)]"
  consider "y' = a" | "y' = b" | "y' = d" | "y' = e"
    | slot where "m = Some slot" "hot_reset_groups K B slot fds e = (ret, y')"
  proof (cases m)
    case None
    with run 1 2 that(1,2) show thesis by (auto simp: ioctl_hot_reset_def Let_def split: if_splits)
  next
    case (Some slot)
    obtain n1 n2 where n: "vfio_pci_for_each_slot_or_bus B vfio_pci_count_devs 0 slot = (n1, n2)" by fastforce
    from run Some that show thesis
      unfolding ioctl_hot_reset_def 1 prod.case Let_def 2 option.case n 3 4 5 fds_def [symmetric]
      by (auto simp: n split: if_splits)
  qed
  then show thesis
  proof cases
    case 1
    with h that(1) show thesis by blast
  next
    case 2
    have "steps b [] y'" "mem_only []" using 2 by (simp_all add: mem_only_def)
    with h \<open>probe_reset K a = (m, b)\<close> that(2) show thesis by blast
  next
    case 3
    with h \<open>probe_reset K a = (m, b)\<close> bd that(2) show thesis by blast
  next
    case 4
    with h \<open>probe_reset K a = (m, b)\<close> be that(2) show thesis by blast
  next
    case 5
    with h \<open>probe_reset K a = (m, b)\<close> be that(3) show thesis by blast
  qed
qed

lemma hot_reset_effect:
  assumes run: "ioctl_hot_reset K B arg y = (ret, y')"
  shows "\<exists>h. steps y h y' \<and> balanced h \<and> ((\<exists>e \<in> set h. fst e = Life Reset_bus) \<longrightarrow>
    (\<forall>d \<in> set (walked B). affected B (\<exists>v. (Life Probe_reset_slot, 0, v) \<in> set h) d \<longrightarrow> owned h d))"
  using run
proof (cases rule: hot_reset_stages)
  case (1 h)
  then have "balanced h" "\<forall>e \<in> set h. fst e \<noteq> Life Reset_bus" by (simp_all add: mem_only_balanced mem_only_not)
  with 1 show ?thesis by blast
next
  case (2 a m b h k)
  from probe_reset_effect [OF 2(3)] obtain j where j: "steps a j b" "balanced j" "\<forall>e \<in> set j. fst e \<noteq> Life Reset_bus" by blast
  have "steps y (h @ j @ k) y'" using 2 j by (simp add: steps_def)
  moreover have "balanced (h @ j @ k)" using 2 j by (simp add: balanced_append mem_only_balanced)
  moreover have "\<forall>e \<in> set (h @ j @ k). fst e \<noteq> Life Reset_bus" using 2 j(3) mem_only_not(2) by auto
  ultimately show ?thesis by blast
next
  case (3 a slot b c h k fds)
  from probe_reset_effect [OF 3(3)] obtain j where j: "steps a j b" "balanced j" "\<forall>e \<in> set j. fst e \<noteq> Life Reset_bus"
    "slot = (\<exists>v. (Life Probe_reset_slot, 0, v) \<in> set j)" by blast
  from hot_reset_groups_effect [OF 3(6)] obtain m where m: "steps c m y'" "balanced m"
    "\<forall>e \<in> set m. fst e \<noteq> Life Probe_reset_slot"
    "(\<exists>e \<in> set m. fst e = Life Reset_bus) \<longrightarrow> (\<forall>d \<in> set (walked B). affected B slot d \<longrightarrow> owned m d)" by blast
  have "steps y (h @ j @ k @ m) y'" using 3 j m by (simp add: steps_def)
  moreover have "balanced (h @ j @ k @ m)" using 3 j m by (simp add: balanced_append mem_only_balanced)
  moreover have "slot = (\<exists>v. (Life Probe_reset_slot, 0, v) \<in> set (h @ j @ k @ m))"
    unfolding j(4) using 3(2,5) m(3) mem_only_not(1) by fastforce
  moreover have "(\<exists>e \<in> set (h @ j @ k @ m). fst e = Life Reset_bus) \<longrightarrow> (\<exists>e \<in> set m. fst e = Life Reset_bus)"
    using 3(2,5) j(3) mem_only_not(2) by (metis (no_types, lifting) Un_iff set_append)
  moreover have "owned (h @ j @ k @ m) d" if "owned m d" for d using that by (rule owned_mono) auto
  ultimately show ?thesis using m(4) by (intro exI [of _ "h @ j @ k @ m"]) blast
qed

text \<open>C4. A reset that the user asks for cannot reach devices of others. If the request resets the slot or the bus,
  then every device that the reset affects was found to be in an IOMMU group, and that group is one of those the user
  gave open files of. And on every path, errors included, each reference to a group of the user, each open file and
  each reference to the group of a device that the request took has been given back.\<close>

theorem hot_reset_owned:
  assumes run: "ioctl_hot_reset K B arg y = (ret, y')"
  shows "(Life Reset_bus \<in> set (calls (vdev y) (vdev y')) \<longrightarrow>
      (\<forall>d \<in> set (walked B). affected B (\<exists>v. (Life Probe_reset_slot, 0, v) \<in> set (new_events (vdev y) (vdev y'))) d \<longrightarrow>
        owned (new_events (vdev y) (vdev y')) d)) \<and>
    balanced (new_events (vdev y) (vdev y'))"
proof -
  have "\<exists>h. steps y h y' \<and> balanced h \<and> ((\<exists>e \<in> set h. fst e = Life Reset_bus) \<longrightarrow>
    (\<forall>d \<in> set (walked B). affected B (\<exists>v. (Life Probe_reset_slot, 0, v) \<in> set h) d \<longrightarrow> owned h d))"
    using run by (rule hot_reset_effect)
  then obtain h where h: "steps y h y'" "balanced h" "(\<exists>e \<in> set h. fst e = Life Reset_bus) \<longrightarrow>
    (\<forall>d \<in> set (walked B). affected B (\<exists>v. (Life Probe_reset_slot, 0, v) \<in> set h) d \<longrightarrow> owned h d)" by blast
  have "Life Reset_bus \<in> set (calls (vdev y) (vdev y')) \<longleftrightarrow> (\<exists>e \<in> set h. fst e = Life Reset_bus)"
    unfolding calls_def steps_events [OF h(1)] set_map image_iff by metis
  with h(2,3) show ?thesis unfolding steps_events [OF h(1)] by blast
qed

text \<open>A request with one group, of identifier 9, for a slot whose devices are all in that group.\<close>

definition reset_kernel :: kernel where
  "reset_kernel = (sample_kernel sample_cfg)\<lparr>respond := (\<lambda>h c. case c of
     Life (Fdget fd) \<Rightarrow> (7, 0)
   | Life (Group_get_external_user f) \<Rightarrow> (3, 0)
   | Life (External_user_iommu_id g) \<Rightarrow> (9, 0)
   | Life (Peer_iommu_group d) \<Rightarrow> (1, 9)
   | _ \<Rightarrow> sample_respond sample_cfg h c)\<rparr>"

definition reset_request :: system where
  "reset_request = on_vdev (\<lambda>s. s\<lparr>user_mem :=
     put_list 256 (u32_bytes 16 @ u32_bytes 0 @ u32_bytes 1 @ u32_bytes 5) (\<lambda>_. 0)\<rparr>) sample_system"

lemma sys_rc_eq: "sys_rc K c y = (fst (respond K (trace (vdev y)) c), sys_do K c y)"
  by (simp add: sys_rc_def sys_do_def kcall_simps)

lemma copy_struct_eq: "copy_struct K addr n y =
    (fst (respond K (trace (vdev y)) (Mem (Copy_from_user addr n))),
     map (\<lambda>i. user_mem (vdev y) (addr + i)) [0..<n], sys_do K (Mem (Copy_from_user addr n)) y)"
  by (simp add: copy_struct_def sys_rc_eq)

lemma reset_kernel_answers:
  "respond reset_kernel h (Mem (Copy_from_user addr n)) = (0, 0)" "respond reset_kernel h (Mem Alloc) = (1, 0)"
  "respond reset_kernel h (Life Probe_reset_slot) = (0, 0)"
  by (simp_all add: reset_kernel_def sample_kernel_def)

lemma reset_request_runs:
  "ioctl_hot_reset reset_kernel sample_bus 256 reset_request = hot_reset_groups reset_kernel sample_bus True [5]
     (sys_do reset_kernel (Mem (Copy_from_user 268 4)) (sys_do reset_kernel (Mem Alloc) (sys_do reset_kernel (Mem Alloc)
       (sys_do reset_kernel (Life Probe_reset_slot) (sys_do reset_kernel (Mem (Copy_from_user 256 12)) reset_request)))))"
proof -
  have mem: "map (\<lambda>i. user_mem (vdev reset_request) (256 + i)) [0..<12] = u32_bytes 16 @ u32_bytes 0 @ u32_bytes 1"
    "map (\<lambda>i. user_mem (vdev reset_request) (268 + i)) [0..<4] = u32_bytes 5" by code_simp+
  have args: "u32_at (u32_bytes 16 @ u32_bytes 0 @ u32_bytes 1) 0 = 16" "u32_at (u32_bytes 16 @ u32_bytes 0 @ u32_bytes 1) 4 = 0"
    "u32_at (u32_bytes 16 @ u32_bytes 0 @ u32_bytes 1) 8 = 1" "u32_at (u32_bytes 5) 0 = 5" by code_simp+
  have n: "vfio_pci_for_each_slot_or_bus sample_bus vfio_pci_count_devs 0 True = (0, 2)" by code_simp
  show ?thesis
    by (simp add: ioctl_hot_reset_def copy_struct_eq probe_reset_def sys_rc_eq reset_kernel_answers mem args n
        del: upt_conv_Cons upt_rec_numeral)
qed

theorem hot_reset_owned_witness:
  "let (ret, y') = ioctl_hot_reset reset_kernel sample_bus 256 reset_request in
    ret = 0 \<and> Life Reset_bus \<in> set (calls (vdev reset_request) (vdev y')) \<and>
    owned (new_events (vdev reset_request) (vdev y')) 1"
proof -
  obtain ret y' where run: "ioctl_hot_reset reset_kernel sample_bus 256 reset_request = (ret, y')" by fastforce
  have "case ioctl_hot_reset reset_kernel sample_bus 256 reset_request of (ret, y') \<Rightarrow>
    ret = 0 \<and> Life Reset_bus \<in> set (calls (vdev reset_request) (vdev y'))"
    unfolding reset_request_runs by code_simp
  with run have r: "ret = 0" "Life Reset_bus \<in> set (calls (vdev reset_request) (vdev y'))" by simp_all
  have "affected sample_bus True 1" "affected sample_bus False 1" by code_simp+
  then have "affected sample_bus slot 1" for slot by (cases slot) simp_all
  moreover have "1 \<in> set (walked sample_bus)" by code_simp
  ultimately have "owned (new_events (vdev reset_request) (vdev y')) 1" using hot_reset_owned [OF run] r(2) by blast
  with run r show ?thesis by simp
qed

end
