(* ===== verification/Intrs_Frame.thy ===== *)
theory Intrs_Frame
  imports Intrs_Inv
begin

text \<open>
  What the interrupt code leaves alone: everything but the context array, the kind of interrupt, the queue
  size and the two single triggers. Each lemma is stated from a state \<open>s\<close> that is already framed, so that the
  lemmas chain along the code as elimination rules.
\<close>

definition irq_rest :: "vfio_pci_device \<Rightarrow> vfio_pci_device" where
  "irq_rest s = s\<lparr>trace := [], ctx := [], num_ctx := 0, irq_type := 0, msi_qmax := 0, err_trigger := None,
     req_trigger := None\<rparr>"

definition irq_frame :: "vfio_pci_device \<Rightarrow> vfio_pci_device \<Rightarrow> bool" where
  "irq_frame s s' \<longleftrightarrow> irq_rest s' = irq_rest s \<and> extends s s'"

lemma irq_frame_refl [simp, intro!]: "irq_frame s s"
  by (simp add: irq_frame_def)

lemma irq_frame_kcall [simp, intro!]:
  assumes "irq_frame s t"
  shows "irq_frame s (kcall_do K c t)" "irq_frame s (snd (kcall_rc K c t))" "irq_frame s (snd (kcall K c t))"
  using assms by (auto simp: irq_frame_def irq_rest_def kcall_simps extends_def)

lemma irq_frame_upd [simp, intro!]:
  assumes "irq_frame s t"
  shows "irq_frame s (ctx_upd i f t)" "irq_frame s (t\<lparr>ctx := c\<rparr>)" "irq_frame s (t\<lparr>num_ctx := n\<rparr>)"
    "irq_frame s (t\<lparr>irq_type := n\<rparr>)" "irq_frame s (t\<lparr>msi_qmax := q\<rparr>)" "irq_frame s (t\<lparr>err_trigger := e\<rparr>)"
    "irq_frame s (t\<lparr>req_trigger := e\<rparr>)"
  using assms by (auto simp: irq_frame_def irq_rest_def ctx_upd_def extends_def)

lemma frame_rc: "kcall_rc K c u = (r, s') \<Longrightarrow> irq_frame s u \<Longrightarrow> irq_frame s s'"
  by (metis irq_frame_kcall(2) snd_conv)

lemma irq_frame_fields:
  assumes "irq_frame s s'"
  shows "pdev s' = pdev s" "barmap s' = barmap s" "ioeventfds_list s' = ioeventfds_list s"
    "dummy_resources_list s' = dummy_resources_list s" "regions s' = regions s" "extends s s'"
    "refcnt s' = refcnt s" "pci_saved_state s' = pci_saved_state s" "reset_works s' = reset_works s"
  using assms by (auto simp: irq_frame_def irq_rest_def vfio_pci_device.defs kstate.defs dest: arg_cong [of _ _ pdev]
      arg_cong [of _ _ barmap] arg_cong [of _ _ ioeventfds_list] arg_cong [of _ _ dummy_resources_list]
      arg_cong [of _ _ regions] arg_cong [of _ _ refcnt] arg_cong [of _ _ pci_saved_state] arg_cong [of _ _ reset_works])

lemmas frame_simps = bind_eq_Some_conv case_prod_unfold Let_def

section \<open>INTx\<close>

lemma frame_signal: "eventfd_signal K t u = Some s' \<Longrightarrow> irq_frame s u \<Longrightarrow> irq_frame s s'"
  by (auto simp: eventfd_signal_def)

lemma frame_kfree: "kfree_name i u = Some s' \<Longrightarrow> irq_frame s u \<Longrightarrow> irq_frame s s'"
  by (auto simp: kfree_name_def split: if_splits)

lemma frame_virqfds:
  "disable_unmask_virqfd K i u = Some s' \<Longrightarrow> irq_frame s u \<Longrightarrow> irq_frame s s'"
  "disable_mask_virqfd K i u = Some s' \<Longrightarrow> irq_frame s u \<Longrightarrow> irq_frame s s'"
  by (auto simp: disable_unmask_virqfd_def disable_mask_virqfd_def frame_simps)

lemma frame_send: "vfio_send_intx_eventfd K u = Some s' \<Longrightarrow> irq_frame s u \<Longrightarrow> irq_frame s s'"
  by (auto simp: vfio_send_intx_eventfd_def frame_simps elim!: frame_signal split: if_splits)

lemma frame_mask: "vfio_pci_intx_mask K u = Some s' \<Longrightarrow> irq_frame s u \<Longrightarrow> irq_frame s s'"
  by (auto simp: vfio_pci_intx_mask_def frame_simps split: if_splits)

lemma frame_unmask_handler: "vfio_pci_intx_unmask_handler K u = Some (r, s') \<Longrightarrow> irq_frame s u \<Longrightarrow> irq_frame s s'"
  by (auto simp: vfio_pci_intx_unmask_handler_def frame_simps split: if_splits)

lemma frame_unmask: "vfio_pci_intx_unmask K u = Some s' \<Longrightarrow> irq_frame s u \<Longrightarrow> irq_frame s s'"
  by (auto simp: vfio_pci_intx_unmask_def frame_simps elim!: frame_send frame_unmask_handler split: if_splits)

lemma frame_intx_enable: "vfio_intx_enable K u = (r, s') \<Longrightarrow> irq_frame s u \<Longrightarrow> irq_frame s s'"
  by (auto simp: vfio_intx_enable_def frame_simps split: if_splits)

lemma frame_intx_signal: "vfio_intx_set_signal K fd u = Some (r, s') \<Longrightarrow> irq_frame s u \<Longrightarrow> irq_frame s s'"
  by (auto simp: vfio_intx_set_signal_def frame_simps elim!: frame_kfree split: if_splits option.splits)

lemma frame_intx_disable: "vfio_intx_disable K u = Some s' \<Longrightarrow> irq_frame s u \<Longrightarrow> irq_frame s s'"
  by (auto simp: vfio_intx_disable_def frame_simps elim!: frame_intx_signal frame_virqfds)

section \<open>MSI\<close>

lemma frame_msi_enable: "vfio_msi_enable K n x u = (r, s') \<Longrightarrow> irq_frame s u \<Longrightarrow> irq_frame s s'"
  by (auto simp: vfio_msi_enable_def frame_simps split: if_splits)

lemma frame_vector:
  assumes run: "vfio_msi_set_vector_signal K vector fd x u = Some (r, s')" and u: "irq_frame s u"
  shows "irq_frame s s'"
proof (cases "vector < 0 \<or> int (num_ctx u) \<le> vector")
  case True
  with run u show ?thesis by (auto simp: vfio_msi_set_vector_signal_def)
next
  case False
  define v where "v = nat vector"
  define irq where "irq = fst (kcall_rc K (Irq (Irq_vector v)) u)"
  define t where "t = snd (kcall_rc K (Irq (Irq_vector v)) u)"
  have t: "irq_frame s t" "kcall_rc K (Irq (Irq_vector v)) u = (irq, t)" using u by (simp_all add: t_def irq_def)
  from run False obtain c w where c: "nth_opt (ctx t) v = Some c"
    "(case trigger c of None \<Rightarrow> Some t | Some e \<Rightarrow> do {
        let z = kcall_do K (Irq (Free_irq irq (Cookie_eventfd e))) t;
        let z = kcall_do K (Irq (Bypass_unregister (case token c of None \<Rightarrow> 0 | Some u \<Rightarrow> u))) z;
        z \<leftarrow> kfree_name v z;
        let z = kcall_do K (Evt (Eventfd_ctx_put e)) z;
        Some (ctx_upd v (\<lambda>c. c\<lparr>trigger := None\<rparr>) z) }) = Some w"
    by (simp only: vfio_msi_set_vector_signal_def v_def [symmetric] t(2) if_False Let_def prod.case bind_eq_Some_conv) blast
  have w: "irq_frame s w" using c(2) t(1) by (auto simp: frame_simps elim!: frame_kfree split: option.splits)
  from run False c have rest: "(if fd < 0 then Some (0, w)
        else case kcall_rc K (Mem Alloc) w of (p, z) \<Rightarrow>
          if p = 0 then Some (- ENOMEM, ctx_upd v (\<lambda>c. c\<lparr>irq_name := False\<rparr>) z)
          else do {
            let z = ctx_upd v (\<lambda>c. c\<lparr>irq_name := True\<rparr>) z;
            let (e, z) = kcall_rc K (Evt (Eventfd_ctx_fdget fd)) z;
            if e < 0 then do { z \<leftarrow> kfree_name v z; Some (e, z) }
            else do {
              let z = (if x then kcall_do K (Irq (Write_msi_msg irq)) (kcall_do K (Irq (Get_cached_msi_msg irq)) z) else z);
              let (ret, z) = kcall_rc K (Irq (Request_irq irq False (Cookie_eventfd e))) z;
              if ret \<noteq> 0 then do { z \<leftarrow> kfree_name v z; Some (ret, kcall_do K (Evt (Eventfd_ctx_put e)) z) }
              else do {
                let z = ctx_upd v (\<lambda>c. c\<lparr>token := Some e\<rparr>) z;
                let z = kcall_do K (Irq (Bypass_register e irq)) z;
                Some (0, ctx_upd v (\<lambda>c. c\<lparr>trigger := Some e\<rparr>) z) } } }) = Some (r, s')"
    by (simp only: vfio_msi_set_vector_signal_def v_def [symmetric] t(2) if_False Let_def prod.case c Option.bind.bind_lunit)
  show ?thesis
  proof -
    obtain p b where p: "kcall_rc K (Mem Alloc) w = (p, b)" by fastforce
    have b: "irq_frame s b" using p w by (rule frame_rc)
    define z where "z = ctx_upd v (\<lambda>c. c\<lparr>irq_name := True\<rparr>) b"
    have z: "irq_frame s z" using b by (simp add: z_def)
    obtain e y where e: "kcall_rc K (Evt (Eventfd_ctx_fdget fd)) z = (e, y)" by fastforce
    have y: "irq_frame s y" using e z by (rule frame_rc)
    define q where "q = (if x then kcall_do K (Irq (Write_msi_msg irq)) (kcall_do K (Irq (Get_cached_msi_msg irq)) y) else y)"
    have q: "irq_frame s q" using y by (simp add: q_def)
    obtain ret m where m: "kcall_rc K (Irq (Request_irq irq False (Cookie_eventfd e))) q = (ret, m)" by fastforce
    have "irq_frame s m" using m q by (rule frame_rc)
    with rest [unfolded p Let_def prod.case z_def [symmetric] e q_def [symmetric] m] w b y show ?thesis
      by (auto simp: bind_eq_Some_conv elim!: frame_kfree split: if_splits)
  qed
qed

lemma frame_set_loop: "msi_set_loop K n i j fds x u = Some (r, j', s') \<Longrightarrow> irq_frame s u \<Longrightarrow> irq_frame s s'"
proof (induction n arbitrary: i j u)
  case (Suc n)
  then show ?case by (auto simp: frame_simps split: if_splits dest: frame_vector)
qed simp

lemma frame_unset_loop: "msi_unset_loop K n j x u = Some s' \<Longrightarrow> irq_frame s u \<Longrightarrow> irq_frame s s'"
  by (induction n arbitrary: j u) (auto simp: frame_simps dest: frame_vector)

lemma frame_set_block: "vfio_msi_set_block K st n fds x u = Some (r, s') \<Longrightarrow> irq_frame s u \<Longrightarrow> irq_frame s s'"
  by (auto simp: vfio_msi_set_block_def frame_simps split: if_splits elim!: frame_unset_loop frame_set_loop)

lemma frame_virqfd_loop: "msi_virqfd_loop K n i u = Some s' \<Longrightarrow> irq_frame s u \<Longrightarrow> irq_frame s s'"
  by (induction n arbitrary: i u) (auto simp: frame_simps dest: frame_virqfds)

lemma frame_msi_disable: "vfio_msi_disable K x u = Some s' \<Longrightarrow> irq_frame s u \<Longrightarrow> irq_frame s s'"
  by (auto simp: vfio_msi_disable_def frame_simps split: if_splits elim!: frame_set_block frame_virqfd_loop)

lemma frame_loopback: "msi_loopback K is st flags data u = Some s' \<Longrightarrow> irq_frame s u \<Longrightarrow> irq_frame s s'"
proof (induction "is" arbitrary: u)
  case (Cons i "is")
  from Cons.prems(1) obtain c :: vfio_pci_irq_ctx and t where c: "msi_loopback K is st flags data t = Some s'"
    "(if trigger c = None then Some u
      else if flags AND VFIO_IRQ_SET_DATA_NONE \<noteq> 0 then eventfd_signal K (trigger c) u
      else if flags AND VFIO_IRQ_SET_DATA_BOOL \<noteq> 0 then do {
        b \<leftarrow> u8_at data (i - st);
        if b \<noteq> 0 then eventfd_signal K (trigger c) u else Some u
      } else Some u) = Some t"
    unfolding msi_loopback.simps bind_eq_Some_conv [of "nth_opt _ _"] bind_eq_Some_conv [of _ "\<lambda>s. msi_loopback K is st flags data s"]
    by (elim exE conjE) (rule that)
  have "irq_frame s t" using c(2) Cons.prems(2) by (auto simp: frame_simps dest: frame_signal split: if_splits)
  with c(1) show ?case by (rule Cons.IH)
qed simp

section \<open>The ioctl\<close>

lemma frame_set_intx_unmask:
  "vfio_pci_set_intx_unmask K i st n flags data u = Some (r, s') \<Longrightarrow> irq_frame s u \<Longrightarrow> irq_frame s s'"
  by (auto simp: vfio_pci_set_intx_unmask_def frame_simps split: if_splits elim!: frame_unmask frame_virqfds)

lemma frame_set_intx_mask:
  "vfio_pci_set_intx_mask K i st n flags data u = Some (r, s') \<Longrightarrow> irq_frame s u \<Longrightarrow> irq_frame s s'"
  by (auto simp: vfio_pci_set_intx_mask_def frame_simps split: if_splits elim!: frame_mask)

lemma frame_set_intx_trigger:
  "vfio_pci_set_intx_trigger K i st n flags data u = Some (r, s') \<Longrightarrow> irq_frame s u \<Longrightarrow> irq_frame s s'"
  by (auto simp: vfio_pci_set_intx_trigger_def bind_eq_Some_conv Let_def split: if_splits prod.splits
      elim!: frame_intx_disable frame_intx_signal frame_intx_enable frame_send)

lemma frame_set_msi_trigger:
  "vfio_pci_set_msi_trigger K i st n flags data u = Some (r, s') \<Longrightarrow> irq_frame s u \<Longrightarrow> irq_frame s s'"
  by (auto simp: vfio_pci_set_msi_trigger_def bind_eq_Some_conv Let_def split: if_splits prod.splits
      elim!: frame_msi_disable frame_set_block frame_msi_enable frame_loopback)

lemma frame_ctx_trigger:
  "vfio_pci_set_ctx_trigger_single K c n flags data u = Some (r, c', s') \<Longrightarrow> irq_frame s u \<Longrightarrow> irq_frame s s'"
  by (auto simp: vfio_pci_set_ctx_trigger_single_def frame_simps split: if_splits option.splits)

lemma frame_ioctl: "vfio_pci_set_irqs_ioctl K flags i st n data s = Some (r, s') \<Longrightarrow> irq_frame s s'"
  by (auto simp: vfio_pci_set_irqs_ioctl_def vfio_pci_set_err_trigger_def vfio_pci_set_req_trigger_def frame_simps
      split: if_splits option.splits irq_func.splits
      dest!: frame_set_intx_unmask frame_set_intx_mask frame_set_intx_trigger frame_set_msi_trigger
      elim!: frame_ctx_trigger)

end
