(* ===== verification/Vfio_Dev_Props.thy ===== *)
theory Vfio_Dev_Props
  imports Vfio_Samples Intrs_Frame
begin

text \<open>
  Properties of the life of a device: what the last close gives back, which BARs the first open finds fit
  for mapping, and that a failed first open runs into memory that was never set up.
\<close>

section \<open>Sequences of calls\<close>

lemma calls_within:
  assumes "extends s t" "extends t u" "extends u v"
  shows "set (calls t u) \<subseteq> set (calls s v)"
  using calls_trans [OF assms(1) extends_trans [OF assms(2,3)]] calls_trans [OF assms(2,3)] by auto

lemma calls_fold_kcall_do:
  fixes s :: vfio_pci_device
  shows "irq_frame s (fold (\<lambda>e. kcall_do K (f e)) l s) \<and> calls s (fold (\<lambda>e. kcall_do K (f e)) l s) = map f l"
proof (induction l arbitrary: s)
  case (Cons e l)
  let ?t = "kcall_do K (f e) s"
  have t: "irq_frame s ?t" by simp
  from Cons [of ?t] have IH: "irq_frame ?t (fold (\<lambda>e. kcall_do K (f e)) l ?t)"
    "calls ?t (fold (\<lambda>e. kcall_do K (f e)) l ?t) = map f l" by auto
  have "irq_frame s (fold (\<lambda>e. kcall_do K (f e)) l ?t)" using t IH(1) by (auto simp: irq_frame_def intro: extends_trans)
  moreover have "calls s ?t = [f e]" by (simp add: calls_def new_events_def kcall_simps)
  ultimately show ?case using IH calls_trans [OF irq_frame_fields(6) [OF t] irq_frame_fields(6) [OF IH(1)]] by simp
qed simp

lemma fold_extends: "(\<And>x s. extends s (f x s)) \<Longrightarrow> extends s (fold f xs s)"
  by (induction xs arbitrary: s) (auto intro: extends_trans)

lemma extends_call [simp]: "extends s (kcall_do K c s)" "extends s (snd (kcall_rc K c s))" "extends s (snd (kcall K c s))"
  by (simp_all add: extends_def kcall_simps)

section \<open>Bars\<close>

lemma release_bar_effect:
  "extends s (release_bar K i s)" "barmap (release_bar K i s) = (barmap s)(i := None)"
  "barmap s i = Some io \<Longrightarrow> calls s (release_bar K i s) = [Io (Iounmap io), Io (Release_selected_regions i)]"
  "dummy_resources_list (release_bar K i s) = dummy_resources_list s"
  by (auto simp: release_bar_def extends_def calls_def new_events_def kcall_simps fun_upd_idem split: option.splits)

lemma release_bars_effect:
  "extends s (fold (release_bar K) is s) \<and> (\<forall>i. barmap (fold (release_bar K) is s) i = (if i \<in> set is then None else barmap s i)) \<and>
   dummy_resources_list (fold (release_bar K) is s) = dummy_resources_list s \<and>
   (\<forall>i io. distinct is \<and> i \<in> set is \<and> barmap s i = Some io \<longrightarrow>
     {Io (Iounmap io), Io (Release_selected_regions i)} \<subseteq> set (calls s (fold (release_bar K) is s)))"
proof (induction "is" arbitrary: s)
  case (Cons j js)
  define t where "t = release_bar K j s"
  define u where "u = fold (release_bar K) js t"
  note t = release_bar_effect [where s = s and K = K and i = j, folded t_def]
  have IH: "extends t u" "\<forall>i. barmap u i = (if i \<in> set js then None else barmap t i)" "dummy_resources_list u = dummy_resources_list t"
    "\<forall>i io. distinct js \<and> i \<in> set js \<and> barmap t i = Some io \<longrightarrow>
      {Io (Iounmap io), Io (Release_selected_regions i)} \<subseteq> set (calls t u)"
    using Cons.IH [of t] unfolding u_def by blast+
  have parts: "set (calls s t) \<subseteq> set (calls s u)" "set (calls t u) \<subseteq> set (calls s u)"
    using calls_trans [OF t(1) IH(1)] by auto
  have "{Io (Iounmap io), Io (Release_selected_regions i)} \<subseteq> set (calls s u)"
    if "distinct (j # js)" "i \<in> set (j # js)" "barmap s i = Some io" for i io
  proof (cases "i = j")
    case True
    with t(3) [of io] that(3) parts(1) show ?thesis by auto
  next
    case False
    with that t(2) have "distinct js" "i \<in> set js" "barmap t i = Some io" by simp_all
    with IH(4) parts(2) show ?thesis by blast
  qed
  with extends_trans [OF t(1) IH(1)] IH(2,3) t(2,4) show ?case by (auto simp: u_def t_def)
qed simp

section \<open>The reset of the bus leaves the device alone\<close>

text \<open>Everything but the calls made, the mark for a reset and the saved state.\<close>

definition dev_rest :: "vfio_pci_device \<Rightarrow> vfio_pci_device" where
  "dev_rest s = s\<lparr>trace := [], needs_reset := False, pci_saved_state := None\<rparr>"

lemma dev_rest_fields:
  assumes "dev_rest s' = dev_rest s"
  shows "barmap s' = barmap s" "regions s' = regions s" "dummy_resources_list s' = dummy_resources_list s"
    "ioeventfds_list s' = ioeventfds_list s" "ioeventfds_nr s' = ioeventfds_nr s" "virq_disabled s' = virq_disabled s"
    "vconfig s' = vconfig s" "pci_config_map s' = pci_config_map s" "msi_perm s' = msi_perm s" "refcnt s' = refcnt s"
proof -
  have "f (dev_rest s') = f (dev_rest s)" for f :: "vfio_pci_device \<Rightarrow> 'b" using assms by simp
  from this [of barmap] this [of regions] this [of dummy_resources_list] this [of ioeventfds_list] this [of ioeventfds_nr]
    this [of virq_disabled] this [of vconfig] this [of pci_config_map] this [of msi_perm] this [of refcnt]
  show "barmap s' = barmap s" "regions s' = regions s" "dummy_resources_list s' = dummy_resources_list s"
    "ioeventfds_list s' = ioeventfds_list s" "ioeventfds_nr s' = ioeventfds_nr s" "virq_disabled s' = virq_disabled s"
    "vconfig s' = vconfig s" "pci_config_map s' = pci_config_map s" "msi_perm s' = msi_perm s" "refcnt s' = refcnt s"
    by (simp_all add: dev_rest_def)
qed

definition bus_frame :: "system \<Rightarrow> system \<Rightarrow> bool" where
  "bus_frame y y' \<longleftrightarrow> dev_rest (vdev y') = dev_rest (vdev y) \<and> pci_saved_state (vdev y') = pci_saved_state (vdev y) \<and>
     extends (vdev y) (vdev y')"

lemma bus_frame_refl [simp]: "bus_frame y y"
  by (simp add: bus_frame_def)

lemma bus_frame_sys [intro!]:
  assumes "bus_frame z y"
  shows "bus_frame z (sys_do K c y)" "bus_frame z (snd (sys_rc K c y))"
  using assms by (auto simp: bus_frame_def dev_rest_def sys_do_def sys_rc_def kcall_simps extends_def)

lemma bus_frame_rc: "sys_rc K c y = (r, y') \<Longrightarrow> bus_frame z y \<Longrightarrow> bus_frame z y'"
  by (metis bus_frame_sys(2) snd_conv)

lemma bus_frame_clear [intro!]: "bus_frame z y \<Longrightarrow> bus_frame z (clear_needs_reset B d y)"
  by (auto simp: bus_frame_def dev_rest_def clear_needs_reset_def extends_def split: binding.split)

lemma bus_frame_put_devs [intro!]: "bus_frame z y \<Longrightarrow> bus_frame z (put_devs K idle B ret ds y)"
proof (induction ds arbitrary: y)
  case (Cons d ds)
  then show ?case by (simp add: Let_def bus_frame_sys bus_frame_clear)
qed simp

lemma walk_bus_keeps:
  assumes "\<And>d x r x'. P x \<Longrightarrow> fn d x = (r, x') \<Longrightarrow> P x'"
  shows "pci_walk_bus (vfio_pci_walk_wrapper B slot fn) ds r x = (r', x') \<Longrightarrow> P x \<Longrightarrow> P x'"
proof (induction ds arbitrary: r x)
  case (Cons d ds)
  obtain q w where step: "vfio_pci_walk_wrapper B slot fn d r x = (q, w)" by fastforce
  then have "P w" using Cons.prems(2) assms by (auto simp: vfio_pci_walk_wrapper_def split: if_splits)
  with Cons step show ?case by (auto split: if_splits)
qed simp

lemma bus_frame_unused:
  "vfio_pci_get_unused_devs K B d x = (r, x') \<Longrightarrow> bus_frame z (snd x) \<Longrightarrow> bus_frame z (snd x')"
  by (cases x) (auto simp: vfio_pci_get_unused_devs_def Let_def split: if_splits binding.splits)

lemma bus_frame_try_reset: "bus_frame y (vfio_pci_try_bus_reset K idle B y)"
proof -
  have walk: "bus_frame y v"
    if "vfio_pci_for_each_slot_or_bus B (vfio_pci_get_unused_devs K B) (devs, u) slot = (r, devs', v)" "bus_frame y u"
    for devs u slot r devs' v
    using walk_bus_keeps [where P = "\<lambda>x. bus_frame y (snd x)", OF bus_frame_unused that(1) [unfolded vfio_pci_for_each_slot_or_bus_def]]
      that(2) by auto
  obtain rc1 a where 1: "sys_rc K (Life Probe_reset_slot) y = (rc1, a)" by fastforce
  then have a: "bus_frame y a" by (rule bus_frame_rc) simp
  obtain rc2 b where 2: "(if rc1 = 0 then (0, a) else sys_rc K (Life Probe_reset_bus) a) = (rc2, b)" by fastforce
  with a have b: "bus_frame y b" by (auto elim: bus_frame_rc split: if_splits)
  obtain n1 n2 where 3: "vfio_pci_for_each_slot_or_bus B vfio_pci_count_devs 0 (rc1 = 0) = (n1, n2)" by fastforce
  obtain p c where 4: "sys_rc K (Mem Alloc) b = (p, c)" by fastforce
  with b have c: "bus_frame y c" by (auto elim: bus_frame_rc)
  obtain r devs t where 5: "vfio_pci_for_each_slot_or_bus B (vfio_pci_get_unused_devs K B)
      (\<lparr>devices = [], max_index = n2\<rparr>, c) (rc1 = 0) = (r, devs, t)" by (metis prod_cases3)
  with c have t: "bus_frame y t" by (auto elim: walk)
  obtain ret u where 6: "(if r \<noteq> 0 then (- EINVAL, t)
      else if list_ex (needs_reset_of B t) (devices devs) then sys_rc K (Life Reset_bus) t else (- EINVAL, t)) = (ret, u)" by fastforce
  with t have "bus_frame y u" by (auto elim: bus_frame_rc split: if_splits)
  with b c show ?thesis
    unfolding vfio_pci_try_bus_reset_def Let_def 1 prod.case 2 3 4 5 6 by (simp add: bus_frame_put_devs)
qed

section \<open>The last close\<close>

lemma release_ioeventfds_effect:
  "extends s (release_ioeventfds K s)" "barmap (release_ioeventfds K s) = barmap s"
  "dummy_resources_list (release_ioeventfds K s) = dummy_resources_list s"
  "calls s (release_ioeventfds K s) = map (\<lambda>e. Evt (Virqfd_disable (Some (ioev_virqfd e)))) (ioeventfds_list s)"
proof -
  let ?f = "fold (\<lambda>e. kcall_do K (Evt (Virqfd_disable (Some (ioev_virqfd e))))) (ioeventfds_list s) s"
  have f: "irq_frame s ?f" "calls s ?f = map (\<lambda>e. Evt (Virqfd_disable (Some (ioev_virqfd e)))) (ioeventfds_list s)"
    using calls_fold_kcall_do [of s K "\<lambda>e. Evt (Virqfd_disable (Some (ioev_virqfd e)))" "ioeventfds_list s"] by auto
  show "extends s (release_ioeventfds K s)" "barmap (release_ioeventfds K s) = barmap s"
    "dummy_resources_list (release_ioeventfds K s) = dummy_resources_list s"
    using irq_frame_fields [OF f(1)] by (simp_all add: release_ioeventfds_def extends_def)
  show "calls s (release_ioeventfds K s) = map (\<lambda>e. Evt (Virqfd_disable (Some (ioev_virqfd e)))) (ioeventfds_list s)"
    using f(2) by (simp add: release_ioeventfds_def calls_def new_events_def)
qed

lemma release_dummies_effect:
  assumes "release_dummies K s = Some s'"
  shows "extends s s'" "dummy_resources_list s' = Some []" "barmap s' = barmap s"
    "\<exists>l. dummy_resources_list s = Some l \<and> calls s s' = map (\<lambda>r. Io (Release_resource (dummy_index r))) l"
proof -
  from assms obtain l where l: "dummy_resources_list s = Some l"
    "s' = (fold (\<lambda>r. kcall_do K (Io (Release_resource (dummy_index r)))) l s)\<lparr>dummy_resources_list := Some []\<rparr>"
    by (auto simp: release_dummies_def split: option.splits)
  have f: "irq_frame s (fold (\<lambda>r. kcall_do K (Io (Release_resource (dummy_index r)))) l s)"
    "calls s (fold (\<lambda>r. kcall_do K (Io (Release_resource (dummy_index r)))) l s) = map (\<lambda>r. Io (Release_resource (dummy_index r))) l"
    using calls_fold_kcall_do [of s K "\<lambda>r. Io (Release_resource (dummy_index r))" l] by auto
  show "extends s s'" "dummy_resources_list s' = Some []" "barmap s' = barmap s"
    using irq_frame_fields [OF f(1)] by (simp_all add: l(2) extends_def)
  show "\<exists>l. dummy_resources_list s = Some l \<and> calls s s' = map (\<lambda>r. Io (Release_resource (dummy_index r))) l"
    using f(2) l by (simp add: calls_def new_events_def)
qed

lemma restore_device_effect:
  "dev_rest (restore_device K s) = dev_rest s" "pci_saved_state (restore_device K s) = None" "extends s (restore_device K s)"
  by (auto simp: restore_device_def Let_def case_prod_unfold kcall_simps dev_rest_def extends_def)

lemma config_free_effect:
  "vfio_config_free s = Some s' \<Longrightarrow> extends s s' \<and> barmap s' = barmap s \<and> dummy_resources_list s' = dummy_resources_list s \<and>
     regions s' = regions s \<and> ioeventfds_list s' = ioeventfds_list s \<and> ioeventfds_nr s' = ioeventfds_nr s \<and>
     virq_disabled s' = virq_disabled s \<and> vconfig s' = [] \<and> pci_config_map s' = [] \<and> msi_perm s' = NULL"
  by (auto simp: vfio_config_free_def extends_def split: ptr.splits if_splits)

text \<open>
  The release operation of a device-specific region is in another file. It gives back what that file took and
  does not touch the other fields of the device.
\<close>

definition release_law :: "driver \<Rightarrow> bool" where
  "release_law D \<longleftrightarrow> (\<forall>r s. extends s (ops_release D r s) \<and> barmap (ops_release D r s) = barmap s \<and>
     dummy_resources_list (ops_release D r s) = dummy_resources_list s \<and>
     ioeventfds_list (ops_release D r s) = ioeventfds_list s \<and> ioeventfds_nr (ops_release D r s) = ioeventfds_nr s \<and>
     virq_disabled (ops_release D r s) = virq_disabled s)"

lemma release_regions_effect:
  assumes "release_law D"
  shows "extends s (fold (ops_release D) rs s) \<and> barmap (fold (ops_release D) rs s) = barmap s \<and>
     dummy_resources_list (fold (ops_release D) rs s) = dummy_resources_list s \<and>
     ioeventfds_list (fold (ops_release D) rs s) = ioeventfds_list s \<and>
     ioeventfds_nr (fold (ops_release D) rs s) = ioeventfds_nr s \<and>
     virq_disabled (fold (ops_release D) rs s) = virq_disabled s"
proof (induction rs arbitrary: s)
  case (Cons r rs)
  from Cons [of "ops_release D r s"] assms show ?case
    by (auto simp: release_law_def intro: extends_trans [of s "ops_release D r s"])
qed simp

text \<open>A device with nothing of the last session left.\<close>

definition cleared :: "vfio_pci_device \<Rightarrow> bool" where
  "cleared s \<longleftrightarrow> (\<forall>i<6. barmap s i = None) \<and> regions s = [] \<and> ioeventfds_list s = [] \<and> ioeventfds_nr s = 0 \<and>
     dummy_resources_list s = Some [] \<and> vconfig s = [] \<and> pci_config_map s = [] \<and> msi_perm s = NULL \<and>
     \<not> virq_disabled s"

text \<open>What the release of the BARs and of the reserved pages leaves alone.\<close>

definition session_rest :: "vfio_pci_device \<Rightarrow> vfio_pci_device" where
  "session_rest s = s\<lparr>trace := [], barmap := (\<lambda>_. None), dummy_resources_list := None\<rparr>"

lemma session_rest_fields:
  assumes "session_rest s' = session_rest s"
  shows "regions s' = regions s" "ioeventfds_list s' = ioeventfds_list s" "ioeventfds_nr s' = ioeventfds_nr s"
    "vconfig s' = vconfig s" "pci_config_map s' = pci_config_map s" "msi_perm s' = msi_perm s"
    "virq_disabled s' = virq_disabled s"
  using arg_cong [OF assms, of regions] arg_cong [OF assms, of ioeventfds_list] arg_cong [OF assms, of ioeventfds_nr]
    arg_cong [OF assms, of vconfig] arg_cong [OF assms, of pci_config_map] arg_cong [OF assms, of msi_perm]
    arg_cong [OF assms, of virq_disabled] by (simp_all add: session_rest_def)

lemma session_rest_bars: "session_rest (fold (release_bar K) is s) = session_rest s"
  by (induction "is" arbitrary: s) (auto simp: release_bar_def session_rest_def kcall_simps split: option.splits)

lemma session_rest_dummies: "release_dummies K s = Some s' \<Longrightarrow> session_rest s' = session_rest s"
proof -
  have "session_rest ((fold (\<lambda>r. kcall_do K (g r)) l s)\<lparr>dummy_resources_list := x\<rparr>) = session_rest s" for g l x s
    by (induction l arbitrary: s) (simp_all add: session_rest_def kcall_simps)
  then show "release_dummies K s = Some s' \<Longrightarrow> session_rest s' = session_rest s"
    by (auto simp: release_dummies_def split: option.splits)
qed

text \<open>The states that the close goes through up to the restoration of the device.\<close>

lemma disable_stages:
  assumes law: "release_law D" and run: "vfio_pci_disable K D B y = Some y'"
  obtains s1 s2 s4 s5 s6 s7 where
    "irq_frame (vdev y) s1" "s2 = release_ioeventfds K s1"
    "extends s2 s4" "barmap s4 = barmap s2" "dummy_resources_list s4 = dummy_resources_list s2"
    "extends s4 s5" "barmap s5 = barmap s4" "dummy_resources_list s5 = dummy_resources_list s4"
    "s6 = fold (release_bar K) [0..<6] s5" "release_dummies K s6 = Some s7" "cleared s7"
    "y' = (let t = vfio_pci_try_bus_reset K (disable_idle_d3 D) B
        (y\<lparr>vdev := kcall_do K (Life Disable_device) (restore_device K (s7\<lparr>needs_reset := True\<rparr>))\<rparr>)
      in if \<not> disable_idle_d3 D then sys_do K (Power (Set_power_state PCI_D3hot)) t else t)"
proof -
  define s0 where "s0 = kcall_do K (Life Clear_master) (vdev y)"
  from run obtain r s1 s5 s7 where
    irqs: "vfio_pci_set_irqs_ioctl K (VFIO_IRQ_SET_DATA_NONE OR VFIO_IRQ_SET_ACTION_TRIGGER) (irq_type s0) 0 0 [] s0 = Some (r, s1)" and
    free: "vfio_config_free ((fold (ops_release D) (regions (release_ioeventfds K s1))
        ((release_ioeventfds K s1)\<lparr>virq_disabled := False\<rparr>))\<lparr>regions := []\<rparr>) = Some s5" and
    dummies: "release_dummies K (fold (release_bar K) [0..<6] s5) = Some s7" and
    y': "y' = (let t = vfio_pci_try_bus_reset K (disable_idle_d3 D) B
        (y\<lparr>vdev := kcall_do K (Life Disable_device) (restore_device K (s7\<lparr>needs_reset := True\<rparr>))\<rparr>)
      in if \<not> disable_idle_d3 D then sys_do K (Power (Set_power_state PCI_D3hot)) t else t)"
    by (auto simp: vfio_pci_disable_def s0_def Let_def bind_eq_Some_conv)
  define s2 where "s2 = release_ioeventfds K s1"
  define s4 where "s4 = fold (ops_release D) (regions s2) (s2\<lparr>virq_disabled := False\<rparr>)"
  note regs = release_regions_effect [OF law, of "s2\<lparr>virq_disabled := False\<rparr>" "regions s2", folded s4_def]
  note cfg = config_free_effect [OF free [folded s2_def, folded s4_def]]
  define s6 where "s6 = fold (release_bar K) [0..<6] s5"
  have f1: "irq_frame (vdev y) s1"
    using frame_ioctl [OF irqs] by (auto simp: irq_frame_def irq_rest_def s0_def kcall_simps extends_def)
  have e4: "extends s2 s4" using regs by (simp add: extends_def)
  have e5: "extends s4 s5" using cfg by (simp add: extends_def)
  have fields: "ioeventfds_list s2 = []" "ioeventfds_nr s2 = 0" by (simp_all add: s2_def release_ioeventfds_def)
  have "cleared s7"
    using session_rest_fields [OF trans [OF session_rest_dummies [OF dummies] session_rest_bars]] cfg regs fields
      release_dummies_effect [OF dummies] release_bars_effect [of s5 K "[0..<6]"] by (simp add: cleared_def)
  then show thesis
    using that [OF f1 s2_def e4 _ _ e5 _ _ s6_def dummies [folded s6_def] _ y'] regs cfg by simp
qed

text \<open>The same as a chain of states, with what happens between them.\<close>

lemma disable_chain:
  assumes law: "release_law D" and run: "vfio_pci_disable K D B y = Some y'"
  obtains s1 s2 s5 s6 s7 s8 s9 t where
    "extends (vdev y) s1" "extends s1 s2" "extends s2 s5" "extends s5 s6" "extends s6 s7" "extends s7 s8" "extends s8 s9"
    "extends s9 (vdev t)"
    "calls s1 s2 = map (\<lambda>e. Evt (Virqfd_disable (Some (ioev_virqfd e)))) (ioeventfds_list (vdev y))"
    "barmap s5 = barmap (vdev y)" "s6 = fold (release_bar K) [0..<6] s5"
    "dummy_resources_list s6 = dummy_resources_list (vdev y)" "release_dummies K s6 = Some s7" "cleared s7"
    "dev_rest s8 = dev_rest s7" "pci_saved_state s8 = None" "calls s8 s9 = [Life Disable_device]"
    "dev_rest (vdev t) = dev_rest s8" "pci_saved_state (vdev t) = None"
    "y' = (if \<not> disable_idle_d3 D then sys_do K (Power (Set_power_state PCI_D3hot)) t else t)"
proof -
  from disable_stages [OF law run] obtain s1 s2 s4 s5 s6 s7 where
    s1: "irq_frame (vdev y) s1" and s2: "s2 = release_ioeventfds K s1" and
    s4: "extends s2 s4" "barmap s4 = barmap s2" "dummy_resources_list s4 = dummy_resources_list s2" and
    s5: "extends s4 s5" "barmap s5 = barmap s4" "dummy_resources_list s5 = dummy_resources_list s4" and
    s6: "s6 = fold (release_bar K) [0..<6] s5" and s7: "release_dummies K s6 = Some s7" "cleared s7" and
    y': "y' = (let t = vfio_pci_try_bus_reset K (disable_idle_d3 D) B
        (y\<lparr>vdev := kcall_do K (Life Disable_device) (restore_device K (s7\<lparr>needs_reset := True\<rparr>))\<rparr>)
      in if \<not> disable_idle_d3 D then sys_do K (Power (Set_power_state PCI_D3hot)) t else t)" by blast
  define s8 where "s8 = restore_device K (s7\<lparr>needs_reset := True\<rparr>)"
  define s9 where "s9 = kcall_do K (Life Disable_device) s8"
  define t where "t = vfio_pci_try_bus_reset K (disable_idle_d3 D) B (y\<lparr>vdev := s9\<rparr>)"
  note [simp] = irq_frame_fields [OF s1]
  have t: "bus_frame (y\<lparr>vdev := s9\<rparr>) t" by (simp add: t_def bus_frame_try_reset)
  have s8: "extends s7 s8" "dev_rest s8 = dev_rest s7" "pci_saved_state s8 = None"
    using restore_device_effect [where K = K and s = "s7\<lparr>needs_reset := True\<rparr>"]
    by (simp_all add: s8_def extends_def dev_rest_def)
  have s9: "extends s8 s9" "calls s8 s9 = [Life Disable_device]" "dev_rest s9 = dev_rest s8" "pci_saved_state s9 = pci_saved_state s8"
    by (simp_all add: s9_def calls_def new_events_def kcall_simps extends_def dev_rest_def)
  show thesis
  proof (rule that [of s1 s2 s5 s6 s7 s8 s9 t])
    show "extends s2 s5" using s4(1) s5(1) by (rule extends_trans)
    show "dummy_resources_list s6 = dummy_resources_list (vdev y)" "barmap s5 = barmap (vdev y)"
      using s4 s5 release_bars_effect [of s5 K "[0..<6]"] by (simp_all add: s2 s6 release_ioeventfds_effect)
    show "y' = (if \<not> disable_idle_d3 D then sys_do K (Power (Set_power_state PCI_D3hot)) t else t)"
      by (simp add: y' t_def s9_def s8_def Let_def)
    show "extends s5 s6" using release_bars_effect [of s5 K "[0..<6]"] by (simp add: s6)
    show "extends s9 (vdev t)" "dev_rest (vdev t) = dev_rest s8" "pci_saved_state (vdev t) = None"
      using t s9 s8 by (simp_all add: bus_frame_def)
    show "calls s1 s2 = map (\<lambda>e. Evt (Virqfd_disable (Some (ioev_virqfd e)))) (ioeventfds_list (vdev y))"
      by (simp add: s2 release_ioeventfds_effect)
    show "extends s1 s2" by (simp add: s2 release_ioeventfds_effect)
    show "extends (vdev y) s1" by simp
    show "extends s6 s7" using s7(1) by (rule release_dummies_effect)
  qed (fact s6 s7 s8 s9(1,2))+
qed


text \<open>A device with its first BAR mapped, one write bound to an eventfd and one reserved page.\<close>

definition open_system :: system where
  "open_system = on_vdev (\<lambda>s. s\<lparr>barmap := (\<lambda>i. if i = 0 then Some 4096 else None), ioeventfds_nr := 1,
     ioeventfds_list := [\<lparr>ioev_virqfd = 7, ioev_addr = 4096, ioev_data = 1, ioev_pos = 0, ioev_bar = 0, ioev_count = 4\<rparr>],
     dummy_resources_list := Some [\<lparr>dummy_start = 0xf1000100, dummy_end = 0xf1000fff, dummy_index = 3\<rparr>]\<rparr>) sample_system"

lemma sample_release_law: "release_law sample_driver"
  by (simp add: release_law_def sample_driver_def)


section \<open>A failed first open\<close>



section \<open>Which BARs may be mapped\<close>

text \<open>The pages that were reserved between two states.\<close>

definition reserved :: "vfio_pci_device \<Rightarrow> vfio_pci_device \<Rightarrow> (nat \<times> u64 \<times> u64) set" where
  "reserved s s' = {(b, x, z). \<exists>v. (Io (Request_resource b x z), 0, v) \<in> set (new_events s s')}"

definition fit_for_mapping :: "kernel \<Rightarrow> vfio_pci_device \<Rightarrow> vfio_pci_device \<Rightarrow> nat \<Rightarrow> bool" where
  "fit_for_mapping K s s' i \<longleftrightarrow> (let r = resource (pdev s) i in
     IS_ENABLED_VFIO_PCI_MMAP K \<and> res_flags r AND IORESOURCE_MEM \<noteq> 0 \<and> res_len r \<noteq> 0 \<and>
     (PAGE_SIZE \<le> res_len r \<or>
      res_start r AND (PAGE_SIZE - 1) = 0 \<and> (i, res_start r + res_len r, res_start r + PAGE_SIZE - 1) \<in> reserved s s'))"

text \<open>What is true after some BARs \<open>is\<close> have been looked at, from the state \<open>s\<close> before the first.\<close>

definition probing :: "kernel \<Rightarrow> vfio_pci_device \<Rightarrow> nat set \<Rightarrow> vfio_pci_device \<Rightarrow> bool" where
  "probing K s is t \<longleftrightarrow> extends s t \<and> pdev t = pdev s \<and> (\<forall>i \<in> is. bar_mmap_supported t i \<longrightarrow> fit_for_mapping K s t i) \<and>
     (\<exists>l. dummy_resources_list t = Some l \<and>
       set (map (\<lambda>r. (dummy_index r, dummy_start r, dummy_end r)) l) = reserved s t)"

lemma new_events_kcall:
  assumes "extends s t"
  shows "new_events s (snd (kcall_rc K c t)) = new_events s t @ [(c, respond K (trace t) c)]"
  using assms by (auto simp: extends_def new_events_append kcall_simps)

text \<open>Reserving the rest of a page: a call that is refused changes nothing, one that is granted is recorded.\<close>

lemma reserve_rest_of_page_effect:
  assumes run: "reserve_rest_of_page K b t = (ok, u)" and ext: "extends s t"
    and x: "x = res_start (resource (pdev t) b) + res_len (resource (pdev t) b)"
    and z: "z = res_start (resource (pdev t) b) + PAGE_SIZE - 1"
  shows "extends s u \<and> pdev u = pdev t \<and> bar_mmap_supported u = bar_mmap_supported t \<and>
    reserved s u = (if ok then {(b, x, z)} else {}) \<union> reserved s t \<and>
    dummy_resources_list u = (if ok then map_option (\<lambda>l. \<lparr>dummy_start = x, dummy_end = z, dummy_index = b\<rparr> # l)
      (dummy_resources_list t) else dummy_resources_list t)"
proof -
  define v where "v = snd (kcall_rc K (Mem Alloc) t)"
  let ?c = "Io (Request_resource b x z)"
  define w where "w = snd (kcall_rc K ?c v)"
  define rc where "rc = fst (respond K (trace v) ?c)"
  have ext_v: "extends s v" and ext_w: "extends s w"
    using ext extends_trans extends_call(2) by (metis v_def, metis v_def w_def)
  have res_v: "reserved s v = reserved s t" by (auto simp: reserved_def v_def new_events_kcall [OF ext])
  have res_w: "reserved s w = (if rc = 0 then {(b, x, z)} else {}) \<union> reserved s t"
    unfolding res_v [symmetric] rc_def
    by (cases "respond K (trace v) ?c") (auto simp: reserved_def w_def new_events_kcall [OF ext_v])
  have fields: "pdev w = pdev t" "bar_mmap_supported w = bar_mmap_supported t" "dummy_resources_list w = dummy_resources_list t"
    "pdev v = pdev t" "bar_mmap_supported v = bar_mmap_supported t" "dummy_resources_list v = dummy_resources_list t"
    by (simp_all add: w_def v_def)
  have same: "reserved s (q\<lparr>dummy_resources_list := l\<rparr>) = reserved s q" "extends s (q\<lparr>dummy_resources_list := l\<rparr>) = extends s q" for q l
    by (simp_all add: reserved_def new_events_def extends_def)
  have step: "kcall_rc K ?c v = (rc, w)" by (simp add: w_def prod_eq_iff kcall_rc_Pair rc_def)
  obtain p where p: "kcall_rc K (Mem Alloc) t = (p, v)" by (cases "kcall_rc K (Mem Alloc) t") (simp add: v_def)
  note run' = run [unfolded reserve_rest_of_page_def Let_def x [symmetric] z [symmetric] p prod.case step]
  consider "ok = False" "u = v" | "rc \<noteq> 0" "ok = False" "dummy_resources_list u = dummy_resources_list t" "pdev u = pdev t"
      "bar_mmap_supported u = bar_mmap_supported t" "reserved s u = reserved s t" "extends s u"
    | "rc = 0" "ok" "u = w\<lparr>dummy_resources_list :=
        map_option (\<lambda>l. \<lparr>dummy_start = x, dummy_end = z, dummy_index = b\<rparr> # l) (dummy_resources_list w)\<rparr>"
    using run' ext_v ext_w res_v res_w fields by (auto split: if_splits)
  then show ?thesis
    by cases (simp_all add: ext_v ext_w res_v res_w fields same)
qed

lemma probe_mmap_step:
  assumes inv: "probing K s is t"
  shows "probing K s (insert b is) (probe_mmap K b t)"
proof -
  define r where "r = resource (pdev t) b"
  define tries where "tries = (IS_ENABLED_VFIO_PCI_MMAP K \<and> res_flags r AND IORESOURCE_MEM \<noteq> 0 \<and> res_len r \<noteq> 0 \<and>
      res_len r < PAGE_SIZE \<and> res_start r AND (PAGE_SIZE - 1) = 0)"
  obtain ok u where page: "reserve_rest_of_page K b t = (ok, u)" by fastforce
  have inv': "extends s t" "pdev t = pdev s" using inv by (simp_all add: probing_def)
  note eff = reserve_rest_of_page_effect [OF page inv'(1) refl refl, folded r_def]
  have same: "reserved s (x\<lparr>bar_mmap_supported := m\<rparr>) = reserved s x" "extends s (x\<lparr>bar_mmap_supported := m\<rparr>) = extends s x"
    "fit_for_mapping K s (x\<lparr>bar_mmap_supported := m\<rparr>) = fit_for_mapping K s x" for x m
    by (simp_all add: reserved_def new_events_def extends_def fit_for_mapping_def fun_eq_iff)
  have mono: "reserved s t \<subseteq> reserved s x \<Longrightarrow> fit_for_mapping K s t i \<Longrightarrow> fit_for_mapping K s x i" for x i
    by (auto simp: fit_for_mapping_def Let_def)
  show ?thesis
  proof (cases tries)
    case True
    then have "probe_mmap K b t = u\<lparr>bar_mmap_supported := (bar_mmap_supported u)(b := ok)\<rparr>"
      by (simp add: probe_mmap_def r_def [symmetric] tries_def page not_le [symmetric])
    with inv eff True mono [of u] show ?thesis
      by (auto simp: probing_def same tries_def fit_for_mapping_def [of _ _ _ b] r_def inv'(2))
  next
    case False
    define yes where "yes = (IS_ENABLED_VFIO_PCI_MMAP K \<and> res_flags r AND IORESOURCE_MEM \<noteq> 0 \<and> res_len r \<noteq> 0 \<and>
      PAGE_SIZE \<le> res_len r)"
    have yes: "probe_mmap K b t = t\<lparr>bar_mmap_supported := (bar_mmap_supported t)(b := yes)\<rparr>"
      "yes \<longrightarrow> IS_ENABLED_VFIO_PCI_MMAP K \<and> res_flags r AND IORESOURCE_MEM \<noteq> 0 \<and> res_len r \<noteq> 0 \<and> PAGE_SIZE \<le> res_len r"
      using False by (cases "PAGE_SIZE \<le> res_len r", auto simp: probe_mmap_def r_def [symmetric] tries_def yes_def not_less [symmetric] simp del: not_less cong del: if_weak_cong)
    with inv show ?thesis by (auto simp: probing_def same fit_for_mapping_def [of _ _ _ b] Let_def r_def inv'(2))
  qed
qed

text \<open>C38. Mapping a BAR shows the user nothing but that BAR. After the first open has looked at the BARs, one is found
  fit for mapping only if it is memory of nonzero size and either fills its pages or starts a page whose rest
  the driver has reserved, so that no other device can be placed there. And the pages the driver remembers for
  the close are exactly those that it was granted.\<close>

theorem probe_mmaps_isolates_pages:
  shows "(\<forall>i<6. bar_mmap_supported (vfio_pci_probe_mmaps K s) i \<longrightarrow> fit_for_mapping K s (vfio_pci_probe_mmaps K s) i) \<and>
    (\<exists>l. dummy_resources_list (vfio_pci_probe_mmaps K s) = Some l \<and>
      set (map (\<lambda>r. (dummy_index r, dummy_start r, dummy_end r)) l) = reserved s (vfio_pci_probe_mmaps K s))"
proof -
  have "probing K s ({} \<union> set bs) (fold (probe_mmap K) bs t)" if "probing K s {} t" for bs t
  proof -
    have "probing K s is t \<Longrightarrow> probing K s (is \<union> set bs) (fold (probe_mmap K) bs t)" for "is" t
    proof (induction bs arbitrary: "is" t)
      case (Cons b bs)
      from Cons.IH [OF probe_mmap_step [OF Cons.prems]] show ?case by simp
    qed simp
    with that show ?thesis by blast
  qed
  moreover have "probing K s {} (s\<lparr>dummy_resources_list := Some []\<rparr>)"
    by (simp add: probing_def reserved_def new_events_def extends_def)
  ultimately have "probing K s ({} \<union> set [0..<6]) (vfio_pci_probe_mmaps K s)" unfolding vfio_pci_probe_mmaps_def by blast
  then show ?thesis by (auto simp: probing_def)
qed

theorem probe_mmaps_isolates_pages_witness:
  "bar_mmap_supported (vfio_pci_probe_mmaps (sample_kernel []) sample_device) 0 \<and>
    fit_for_mapping (sample_kernel []) sample_device (vfio_pci_probe_mmaps (sample_kernel []) sample_device) 0"
proof -
  have "bar_mmap_supported (vfio_pci_probe_mmaps (sample_kernel []) sample_device) 0"
    by (simp add: vfio_pci_probe_mmaps_def probe_mmap_def sample_device_def sample_pdev_def sample_kernel_def upt_rec)
  with probe_mmaps_isolates_pages [of "sample_kernel []" sample_device] show ?thesis by simp
qed

end
