(* ===== verification/Config_Open.thy ===== *)
theory Config_Open
  imports Config_Layout
begin

text \<open>
  What \<^verbatim>\<open>vfio_config_init\<close> makes of a device whose capability lists are as the PCI specification wants
  them. The lists of the device are described by the bytes that do not change (\<open>steady\<close>), as linked lists in
  memory are: \<open>cap_listed K mem pos cs\<close> says that following the links from \<open>pos\<close> meets the capabilities \<open>cs\<close>.
\<close>

section \<open>Lengths of capabilities\<close>

text \<open>The calls that find a length leave the map and the virtual space alone.\<close>

definition same_space :: "vfio_pci_device \<Rightarrow> vfio_pci_device \<Rightarrow> bool" where
  "same_space s s' \<longleftrightarrow> quiet s s' \<and> pdev s' = pdev s \<and> vconfig s' = vconfig s \<and>
     pci_config_map s' = pci_config_map s \<and> rbar s' = rbar s \<and>
     ioeventfds_list s' = ioeventfds_list s \<and> ioeventfds_nr s' = ioeventfds_nr s \<and> refcnt s' = refcnt s \<and>
     (extended_caps s' \<longrightarrow> extended_caps s \<or> PCI_CFG_SPACE_SIZE < cfg_size (pdev s))"

lemma same_space_refl [simp]: "same_space s s"
  by (simp add: same_space_def)

lemma same_space_trans: "same_space s t \<Longrightarrow> same_space t u \<Longrightarrow> same_space s u"
  by (auto simp: same_space_def intro: quiet_trans)

lemma quiet_alloc [simp]: "quiet_call (Mem m)"
  by (simp add: quiet_call_def)

lemma same_space_kcall [intro]:
  assumes "same_space s t" "quiet_call c"
  shows "same_space s (snd (kcall K c t))" "same_space s (snd (kcall_rc K c t))"
  using assms quiet_kcall_full [OF assms(2), of t K] quiet_kcall_rc [OF assms(2), of t K]
  by (auto simp: same_space_def intro: quiet_trans)

lemma same_space_upd [simp]:
  "same_space s (t\<lparr>msi_perm := p\<rparr>) = same_space s t"
  by (simp_all add: same_space_def quiet_def)

text \<open>The permission table for MSI has the length of the capability, rounded up, whatever its flags are.\<close>

definition sized :: "nat \<Rightarrow> perm_bits \<Rightarrow> bool" where
  "sized n p \<longleftrightarrow> length (pvirt p) = n \<and> length (pwrite p) = n \<and> preadfn p = Some Msi_config_read \<and>
     pwritefn p = Some Msi_config_write"

lemma p_set_sized: "sized n p \<Longrightarrow> off + k \<le> n \<Longrightarrow> \<exists>p'. p_set k p off v w = Some p' \<and> sized n p'"
  by (auto simp: p_set_def sized_def store_in le_bytes_def)

lemma p_sets_sized:
  "sized n p \<Longrightarrow> off + 1 \<le> n \<Longrightarrow> \<exists>p'. p_setb p off v1 w1 = Some p' \<and> sized n p'"
  "sized n p \<Longrightarrow> off + 2 \<le> n \<Longrightarrow> \<exists>p'. p_setw p off v2 w2 = Some p' \<and> sized n p'"
  "sized n p \<Longrightarrow> off + 4 \<le> n \<Longrightarrow> \<exists>p'. p_setd p off v4 w4 = Some p' \<and> sized n p'"
  by (simp_all add: p_setb_def p_setw_def p_setd_def p_set_sized)

definition msi_len :: "u16 \<Rightarrow> nat" where
  "msi_len flags = 10 + (if flags AND PCI_MSI_FLAGS_64BIT \<noteq> 0 then 4 else 0)
     + (if flags AND PCI_MSI_FLAGS_MASKBIT \<noteq> 0 then 10 else 0)"

lemma bind_sized: "\<exists>p'. m = Some p' \<and> sized n p' \<Longrightarrow> (\<And>p'. sized n p' \<Longrightarrow> \<exists>t. f p' = Some t \<and> sized n t) \<Longrightarrow>
    \<exists>t. Option.bind m f = Some t \<and> sized n t"
  by auto

lemma msi_entries_sized:
  assumes "n = round_up (msi_len flags) 4"
  shows "\<exists>t. cap_msi_entries flags (zero_table n) = Some t \<and> sized n t"
proof -
  have zero: "sized n ((zero_table n)\<lparr>preadfn := Some Msi_config_read, pwritefn := Some Msi_config_write\<rparr>)"
    by (simp add: sized_def zero_table_def)
  have n: "n = (if flags AND PCI_MSI_FLAGS_64BIT \<noteq> 0 then (if flags AND PCI_MSI_FLAGS_MASKBIT \<noteq> 0 then 24 else 16)
      else (if flags AND PCI_MSI_FLAGS_MASKBIT \<noteq> 0 then 20 else 12))"
    by (simp add: assms msi_len_def round_up_def)
  show ?thesis unfolding cap_msi_entries_def Let_def
    by (rule bind_sized p_sets_sized zero | (auto simp: n split: if_splits; fail) | (assumption; fail) | (simp only: split: if_splits; intro conjI impI) | auto)+
qed

lemma init_perm_trace:
  assumes "init_perm K perm len f s = Some (r, p, s')" "quiet_call (Mem Alloc)"
  shows "same_space s (s' :: vfio_pci_device)"
  using assms by (auto simp: init_perm_def alloc_perm_bits_def Let_def case_prod_unfold bind_eq_Some_conv
      intro!: same_space_kcall split: if_splits)

text \<open>A kernel on which no allocation and no read of configuration space fails.\<close>

definition reliable :: "kernel \<Rightarrow> bool" where
  "reliable K \<longleftrightarrow> alloc_succeeds K \<and> (\<forall>h n p. fst (respond K h (Config (Read_config n p))) = 0)"

lemma reliable_read: "reliable K \<Longrightarrow> kcall K (Config (Read_config n p)) s = ((rc, v), t) \<Longrightarrow> rc = 0"
  by (metis reliable_def kcall_Pair prod.inject fst_conv)

lemma msi_cap_len_cases:
  assumes "msi_perm s = NULL" "errno_law K"
  shows "\<exists>len s'. vfio_msi_cap_len K pos s = Some (len, s') \<and> same_space s s' \<and>
    (len < 0 \<and> \<not> reliable K \<or> 10 \<le> len \<and> (\<exists>t. msi_perm s' = Ptr t \<and> sized (round_up (nat len) 4) t))"
proof -
  let ?c = "Config (Read_config 2 (unat pos + PCI_MSI_FLAGS))"
  obtain rc v s1 where 1: "kcall K ?c s = ((rc, v), s1)" by (metis surj_pair)
  obtain p s2 where 2: "kcall_rc K (Mem Alloc) s1 = (p, s2)" by (metis surj_pair)
  have sp: "same_space s s1" "same_space s s2"
    using same_space_kcall [of s s] same_space_kcall [of s s1 "Mem Alloc" K] 1 2 by (metis same_space_refl quiet_other_calls(1) snd_conv, metis same_space_kcall same_space_refl quiet_other_calls(1) quiet_alloc snd_conv)
  have null: "msi_perm s1 = NULL" using 1 assms by (auto simp: kcall_Pair)
  define flags where "flags = (ucast v :: u16)"
  define len where "len = msi_len flags"
  obtain t where t: "cap_msi_entries flags (zero_table (round_up len 4)) = Some t" "sized (round_up len 4) t"
    using msi_entries_sized [OF refl, of flags] by (auto simp: len_def)
  obtain r perm s3 where 3: "init_perm K direct_perm len (cap_msi_entries flags) s2 = Some (r, perm, s3)"
    "perm_result K t r perm" using init_perm_ex [where entries = "cap_msi_entries flags", OF t(1)] by blast
  have sp3: "same_space s s3" using init_perm_trace [OF 3(1)] sp(2) same_space_trans by (metis quiet_alloc)
  have "vfio_msi_cap_len K pos s =
    (if rc \<noteq> 0 then Some (err_to_errno K rc, s1)
     else if p = 0 then Some (- ENOMEM, s2)
     else if r \<noteq> 0 then Some (r, s3\<lparr>msi_perm := Freed\<rparr>) else Some (int len, s3\<lparr>msi_perm := Ptr perm\<rparr>))"
    unfolding vfio_msi_cap_len_def 1 prod.case Let_def flags_def [symmetric] msi_len_def [symmetric] len_def [symmetric] 2
      init_pci_cap_msi_perm_def 3(1) bind.bind_lunit
    using null by simp
  moreover have "rc \<noteq> 0 \<Longrightarrow> err_to_errno K rc < 0" using assms(2) by (metis errno_law_def not_less_iff_gr_or_eq order_le_less)
  moreover have "10 \<le> len" by (simp add: len_def msi_len_def)
  moreover have "reliable K \<Longrightarrow> rc = 0 \<and> p \<noteq> 0 \<and> r = 0"
    using reliable_read [OF _ 1] 2 3(2) by (auto simp: reliable_def perm_result_def alloc_succeeds_def kcall_rc_Pair)
  ultimately show ?thesis using sp sp3 3(2) t(2) by (auto simp: perm_result_def)
qed

lemma probe_extended_same: "same_space s t \<Longrightarrow> same_space s (probe_extended_caps K t)"
  "msi_perm (probe_extended_caps K t) = msi_perm t"
proof -
  let ?u = "snd (kcall K (Config (Read_config 4 PCI_CFG_SPACE_SIZE)) t)"
  have upd: "same_space s u \<Longrightarrow> PCI_CFG_SPACE_SIZE < cfg_size (pdev u) \<Longrightarrow> same_space s (u\<lparr>extended_caps := b\<rparr>)" for u b
    by (auto simp: same_space_def quiet_def)
  assume "same_space s t"
  with upd [OF same_space_kcall(1)] show "same_space s (probe_extended_caps K t)"
    by (auto simp: probe_extended_caps_def case_prod_unfold)
qed (simp add: probe_extended_caps_def case_prod_unfold)

lemma cap_byte_same: "same_space s t \<Longrightarrow> same_space s (snd (cap_byte K p f t))"
  "msi_perm (snd (cap_byte K p f t)) = msi_perm t"
  by (auto simp: cap_byte_def case_prod_unfold intro!: same_space_kcall)

text \<open>The possible lengths of the capabilities of variable length that have a table.\<close>

definition len_range :: "nat \<Rightarrow> vfio_pci_device \<Rightarrow> int \<Rightarrow> bool" where
  "len_range i s' len \<longleftrightarrow> len < 0 \<or>
     (i = PCI_CAP_ID_MSI \<longrightarrow> 10 \<le> len \<and> (\<exists>t. msi_perm s' = Ptr t \<and> sized (round_up (nat len) 4) t)) \<and>
     (i = PCI_CAP_ID_PCIX \<longrightarrow> len \<le> 24) \<and> (i = PCI_CAP_ID_EXP \<longrightarrow> 12 \<le> len \<and> len \<le> 52)"

lemma cap_len_cases:
  assumes "errno_law K" "unat cap = PCI_CAP_ID_MSI \<longrightarrow> msi_perm s = NULL"
  shows "\<exists>len s'. vfio_cap_len K cap pos s = Some (len, s') \<and> same_space s s' \<and>
    (unat cap \<noteq> PCI_CAP_ID_MSI \<longrightarrow> msi_perm s' = msi_perm s) \<and> len_range (unat cap) s' len \<and> (reliable K \<longrightarrow> 0 \<le> len)"
proof (cases "unat cap = PCI_CAP_ID_MSI")
  case True
  with msi_cap_len_cases [OF _ assms(1), of s pos] assms(2) show ?thesis
    by (fastforce simp: vfio_cap_len_def len_range_def)
next
  case False
  have err: "rc \<noteq> 0 \<Longrightarrow> err_to_errno K rc < 0" for rc
    using assms(1) by (metis errno_law_def not_less_iff_gr_or_eq order_le_less)
  have read: "reliable K \<Longrightarrow> fst (fst (kcall K (Config (Read_config n p)) s)) = 0" for n p and s :: vfio_pci_device
    by (simp add: reliable_def kcall_Pair)
  consider "unat cap = PCI_CAP_ID_PCIX" | "unat cap = PCI_CAP_ID_EXP"
    | "unat cap \<notin> {PCI_CAP_ID_PCIX, PCI_CAP_ID_EXP}" by blast
  then show ?thesis
  proof cases
    case 1
    then show ?thesis
      by (auto simp: vfio_cap_len_def case_prod_unfold len_range_def Let_def err read probe_extended_same(2) intro!: probe_extended_same(1) same_space_kcall)
  next
    case 2
    then show ?thesis
      by (auto simp: vfio_cap_len_def case_prod_unfold len_range_def Let_def probe_extended_same(2) intro!: same_space_kcall probe_extended_same(1))
  next
    case 3
    have "vfio_cap_len K cap pos s = Some (0, s) \<or> (\<exists>p f. vfio_cap_len K cap pos s = Some (cap_byte K p (\<lambda>b. int (f b)) s))"
    proof (cases "unat cap = PCI_CAP_ID_VNDR")
      case True
      then have "vfio_cap_len K cap pos s = Some (cap_byte K (unat pos + PCI_CAP_FLAGS) (\<lambda>b. int (unat b)) s)"
        by (simp add: vfio_cap_len_def)
      then show ?thesis by blast
    next
      case other: False
      with 3 False show ?thesis by (auto simp: vfio_cap_len_def Let_def)
    qed
    then have "vfio_cap_len K cap pos s = Some (0, s) \<or> (\<exists>p f. vfio_cap_len K cap pos s = Some (cap_byte K p f s) \<and> (\<forall>b. 0 \<le> f b))"
      by (metis of_nat_0_le_iff)
    moreover have "same_space s (snd (cap_byte K p f s)) \<and> msi_perm (snd (cap_byte K p f s)) = msi_perm s \<and>
        (reliable K \<longrightarrow> (\<forall>b. 0 \<le> f b) \<longrightarrow> 0 \<le> fst (cap_byte K p f s))" for p f
      by (simp add: cap_byte_same) (simp add: cap_byte_def case_prod_unfold read)
    ultimately show ?thesis using 3 False by (auto simp: len_range_def) (metis prod.collapse)+
  qed
qed

section \<open>Reading the device\<close>

text \<open>
  \<open>mem\<close> has the bytes of configuration space that do not change; a read that succeeds returns them. The
  other bytes may hold anything, and any read may fail.
\<close>

definition steady :: "kernel \<Rightarrow> (nat \<rightharpoonup> u8) \<Rightarrow> bool" where
  "steady K mem \<longleftrightarrow> (\<forall>h n p k b. n \<le> 4 \<longrightarrow> k < n \<longrightarrow> mem (p + k) = Some b \<longrightarrow>
     (case respond K h (Config (Read_config n p)) of (rc, v) \<Rightarrow>
        rc = 0 \<longrightarrow> (ucast (drop_bit (8 * k) (ucast v :: u32)) :: u8) = b))"

lemma steady_read:
  assumes "steady K mem" "kcall K (Config (Read_config n p)) s = ((0, v), s')" "n \<le> 4" "k < n" "mem (p + k) = Some b"
  shows "(ucast (drop_bit (8 * k) (ucast v :: u32)) :: u8) = b"
proof -
  have "respond K (trace s) (Config (Read_config n p)) = (0, v)" using assms(2) by (simp add: kcall_Pair)
  moreover have "case respond K (trace s) (Config (Read_config n p)) of (rc, v) \<Rightarrow>
      rc = 0 \<longrightarrow> (ucast (drop_bit (8 * k) (ucast v :: u32)) :: u8) = b"
    using assms(1) [unfolded steady_def, rule_format, OF assms(3-5)] .
  ultimately show ?thesis by simp
qed

lemma steady_byte:
  assumes "steady K mem" "kcall K (Config (Read_config 1 p)) s = ((0, v), s')" "mem p = Some b"
  shows "(ucast v :: u8) = b"
proof -
  have "(ucast (drop_bit (8 * 0) (ucast v :: u32)) :: u8) = b"
    by (rule steady_read [OF assms(1,2)]) (use assms(3) in simp_all)
  moreover have "(ucast (ucast v :: u32) :: u8) = ucast v" by (rule bit_word_eqI) (simp add: bit_simps)
  ultimately show ?thesis by simp
qed

text \<open>Filling the virtual space keeps all but the bytes filled, and these come from the device.\<close>

definition filled :: "(nat \<rightharpoonup> u8) \<Rightarrow> nat \<Rightarrow> nat \<Rightarrow> vfio_pci_device \<Rightarrow> vfio_pci_device \<Rightarrow> int \<Rightarrow> bool" where
  "filled mem off n s s' ret \<longleftrightarrow> cfg_step s s' \<and>
     (\<forall>p < length (vconfig s). \<not> (off \<le> p \<and> p < off + n) \<longrightarrow> vconfig s' ! p = vconfig s ! p) \<and>
     (ret = 0 \<longrightarrow> (\<forall>p b. off \<le> p \<longrightarrow> p < off + n \<longrightarrow> mem p = Some b \<longrightarrow> vconfig s' ! p = b))"

lemma fill_vconfig:
  assumes "steady K mem" "off + n \<le> length (vconfig s)"
  shows "\<exists>ret s'. vfio_fill_vconfig_bytes K off n s = Some (ret, s') \<and> filled mem off n s s' ret \<and>
    (reliable K \<longrightarrow> ret = 0)"
  using assms
proof (induction K off n s rule: vfio_fill_vconfig_bytes.induct)
  case (1 K off n s)
  show ?case
  proof (cases "n = 0")
    case True
    then show ?thesis by (simp add: vfio_fill_vconfig_bytes.simps filled_def)
  next
    case False
    define m where "m = fill_size off n"
    have m: "0 < m" "m \<le> n" "m \<le> 4" using fill_size_pos [of off n] fill_size_pos(2) [of n off] False by (auto simp: m_def)
    obtain rc v s1 where 1: "kcall K (Config (Read_config m off)) s = ((rc, v), s1)" by (metis surj_pair)
    have step: "cfg_step s s1" "vconfig s1 = vconfig s"
      using cfg_step_calls(3) [of "Config (Read_config m off)" s K] 1 by (auto simp: kcall_Pair)
    obtain s2 where 2: "vstore off m (ucast v) s1 = Some s2" "cfg_step s1 s2"
      using vstore_ex [of off m s1] step(2) m "1.prems"(2) by auto
    have bytes: "vconfig s2 ! p = (if off \<le> p \<and> p < off + m then ucast (drop_bit (8 * (p - off)) (ucast v :: u32)) else vconfig s ! p)"
      if "p < length (vconfig s)" for p
      using 2(1) that step(2) m by (auto simp: vstore_def nth_store nth_le_bytes)
    have len: "length (vconfig s2) = length (vconfig s)" using step 2(2) by (simp add: cfg_step_def)
    have run: "vfio_fill_vconfig_bytes K off n s =
      (if rc \<noteq> 0 \<and> m \<noteq> 1 then Some (rc, s1) else if rc \<noteq> 0 then Some (rc, s2)
       else vfio_fill_vconfig_bytes K (off + m) (n - m) s2)"
      using False unfolding vfio_fill_vconfig_bytes.simps [of K off n s] m_def [symmetric] Let_def 1 prod.case 2(1) bind.bind_lunit
      by simp
    show ?thesis
    proof (cases "rc = 0")
      case False
      have "filled mem off n s s1 rc" "filled mem off n s s2 rc"
        using False step 2(2) bytes m cfg_step_trans by (auto simp: filled_def)
      with run False reliable_read [OF _ 1] show ?thesis by auto
    next
      case True
      obtain ret s' where r: "vfio_fill_vconfig_bytes K (off + m) (n - m) s2 = Some (ret, s')"
        "filled mem (off + m) (n - m) s2 s' ret" "reliable K \<longrightarrow> ret = 0"
        using "1.IH" [OF False refl 1 [unfolded m_def, symmetric] refl] True 2(1) len m "1.prems" by (auto simp: m_def [symmetric])
      have head: "vconfig s2 ! p = b" if "off \<le> p" "p < off + m" "mem p = Some b" for p b
        using bytes [of p] that m "1.prems" steady_read [OF "1.prems"(1) 1 [unfolded True] m(3), of "p - off" b] by auto
      have "filled mem off n s s' ret"
        unfolding filled_def
      proof (intro conjI allI impI)
        show "cfg_step s s'" using r(2) step(1) 2(2) cfg_step_trans by (metis filled_def)
        show "vconfig s' ! p = vconfig s ! p" if "p < length (vconfig s)" "\<not> (off \<le> p \<and> p < off + n)" for p
          using r(2) that bytes [OF that(1)] len m by (auto simp: filled_def)
        show "vconfig s' ! p = b" if "ret = 0" "off \<le> p" "p < off + n" "mem p = Some b" for p b
        proof (cases "p < off + m")
          case True
          with r(2) head that len "1.prems"(2) show ?thesis by (auto simp: filled_def)
        next
          case False
          with r(2) that m show ?thesis by (auto simp: filled_def)
        qed
      qed
      with run True r(1,3) show ?thesis by auto
    qed
  qed
qed

section \<open>The lists of the device\<close>

text \<open>
  A capability \<open>(q, i, r)\<close> at \<open>q\<close> with identifier \<open>i\<close> has \<open>r\<close> bytes of its own, after the header and before the
  extended space, and the length the driver finds for it fits into them.
\<close>

fun cap_sound :: "kernel \<Rightarrow> extent \<Rightarrow> bool" where
  "cap_sound K (q, i, r) \<longleftrightarrow>
     PCI_STD_HEADER_SIZEOF \<le> q \<and> q + r \<le> PCI_CFG_SPACE_SIZE \<and> q < PCI_CFG_SPACE_SIZE \<and> i \<noteq> 0 \<and>
     (unat i \<le> PCI_CAP_ID_MAX \<longrightarrow>
        (if pci_cap_length ! unat i = 0xFF
         then (\<forall>s len s'. vfio_cap_len K i (word_of_nat q) s = Some (len, s') \<longrightarrow> len < 0 \<or> 2 \<le> len \<and> len \<le> int r)
         else pci_cap_length ! unat i \<le> r))"

text \<open>The capabilities that the driver shows to the user: those whose length it knows.\<close>

fun shown :: "extent \<Rightarrow> bool" where
  "shown (q, i, r) \<longleftrightarrow> unat i \<le> PCI_CAP_ID_MAX \<and> pci_cap_length ! unat i \<noteq> 0"

definition place :: "extent \<Rightarrow> nat \<times> u8" where
  "place c = (fst c, fst (snd c))"

primrec cap_listed :: "kernel \<Rightarrow> (nat \<rightharpoonup> u8) \<Rightarrow> u8 \<Rightarrow> extent list \<Rightarrow> bool" where
  "cap_listed K mem pos [] \<longleftrightarrow> pos = 0"
| "cap_listed K mem pos (c # cs) \<longleftrightarrow> pos \<noteq> 0 \<and> unat pos = fst c \<and> mem (fst c) = Some (fst (snd c)) \<and> cap_sound K c \<and>
     (\<exists>next. mem (fst c + PCI_CAP_LIST_NEXT) = Some next \<and> cap_listed K mem next cs)"

section \<open>The list of the user\<close>

text \<open>
  The list that is linked through the virtual space \<open>v\<close>, from the cell of the first link to the cell of the
  last; \<open>vcells\<close> are the bytes it depends on, the last cell excepted.
\<close>

primrec vlinks :: "u8 list \<Rightarrow> nat \<Rightarrow> (nat \<times> u8) list \<Rightarrow> nat \<Rightarrow> bool" where
  "vlinks v cell [] z \<longleftrightarrow> cell = z"
| "vlinks v cell (c # cs) z \<longleftrightarrow>
     v ! cell = word_of_nat (fst c) \<and> v ! fst c = snd c \<and> vlinks v (fst c + PCI_CAP_LIST_NEXT) cs z"

primrec vcells :: "nat \<Rightarrow> (nat \<times> u8) list \<Rightarrow> nat set" where
  "vcells cell [] = {}"
| "vcells cell (c # cs) = {cell, fst c} \<union> vcells (fst c + PCI_CAP_LIST_NEXT) cs"

lemma vlinks_snoc: "vlinks v cell (cs @ [c]) z \<longleftrightarrow>
    (\<exists>l. vlinks v cell cs l \<and> v ! l = word_of_nat (fst c) \<and> v ! fst c = snd c \<and> z = fst c + PCI_CAP_LIST_NEXT)"
  by (induction cs arbitrary: cell) auto

lemma vcells_snoc: "vlinks v cell cs l \<Longrightarrow> vcells cell (cs @ [c]) = vcells cell cs \<union> {l, fst c}"
  by (induction cs arbitrary: cell) auto

lemma vlinks_cong: "\<forall>p \<in> vcells cell cs. v' ! p = v ! p \<Longrightarrow> vlinks v' cell cs l = vlinks v cell cs l"
  by (induction cs arbitrary: cell) auto

definition cover :: "extent list \<Rightarrow> nat set" where
  "cover A = {p. \<exists>(q, i, l) \<in> set A. q \<le> p \<and> p < q + l}"

lemma cover_low:
  assumes "mapped A m" "\<forall>a \<in> set A. fst a < PCI_CFG_SPACE_SIZE"
  shows "cover A \<subseteq> {64..<PCI_CFG_SPACE_SIZE}"
  using mapped_extent(1,3) [OF assms(1)] assms(2) by (fastforce simp: cover_def)

definition linked :: "extent list \<Rightarrow> (nat \<times> u8) list \<Rightarrow> nat \<Rightarrow> u8 \<Rightarrow> u8 list \<Rightarrow> bool" where
  "linked A V prev pos v \<longleftrightarrow>
     vlinks v PCI_CAPABILITY_LIST V prev \<and> v ! prev = pos \<and> prev \<notin> vcells PCI_CAPABILITY_LIST V \<and>
     insert prev (vcells PCI_CAPABILITY_LIST V) \<subseteq> insert PCI_CAPABILITY_LIST (cover A)"

lemma linked_skip:
  assumes "linked A V prev pos v" "prev < length v"
  shows "linked A V prev next (v[prev := next])"
proof -
  have "\<forall>p \<in> vcells PCI_CAPABILITY_LIST V. v[prev := next] ! p = v ! p"
    using assms(1) by (metis linked_def nth_list_update_neq)
  with vlinks_cong [OF this] assms show ?thesis by (simp add: linked_def)
qed

lemma linked_append:
  assumes "linked A V prev (word_of_nat q) v" "2 \<le> l" "64 \<le> q"
    and "\<forall>p \<in> insert PCI_CAPABILITY_LIST (cover A). v' ! p = v ! p \<and> p \<noteq> q \<and> p \<noteq> q + 1"
    and "v' ! q = i" "v' ! (q + 1) = next"
  shows "linked ((q, i, l) # A) (V @ [(q, i)]) (q + 1) next v'"
proof -
  have old: "vlinks v PCI_CAPABILITY_LIST V prev" "v ! prev = word_of_nat q"
    "insert prev (vcells PCI_CAPABILITY_LIST V) \<subseteq> insert PCI_CAPABILITY_LIST (cover A)"
    using assms(1) by (simp_all add: linked_def)
  have same: "v' ! p = v ! p" if "p \<in> insert prev (vcells PCI_CAPABILITY_LIST V)" for p
    using bspec [OF assms(4) subsetD [OF old(3) that]] by (rule conjunct1)
  then have keep: "vlinks v' PCI_CAPABILITY_LIST V prev" "v' ! prev = word_of_nat q"
    using vlinks_cong [of PCI_CAPABILITY_LIST V v' v prev] old(1,2) by simp_all
  have cells: "vcells PCI_CAPABILITY_LIST (V @ [(q, i)]) = vcells PCI_CAPABILITY_LIST V \<union> {prev, q}"
    using vcells_snoc [OF keep(1), of "(q, i)"] by simp
  have cov: "cover ((q, i, l) # A) = {q..<q + l} \<union> cover A" by (auto simp: cover_def)
  have "q + 1 \<notin> vcells PCI_CAPABILITY_LIST (V @ [(q, i)])" using cells old(3) assms(4) by auto
  moreover have "vlinks v' PCI_CAPABILITY_LIST (V @ [(q, i)]) (q + 1)"
    using keep assms(5) by (auto simp: vlinks_snoc)
  ultimately show ?thesis using assms(2,6) cells old(3) by (auto simp: linked_def cov)
qed

section \<open>The capability list\<close>

definition laid :: "vfio_pci_device \<Rightarrow> extent list \<Rightarrow> vfio_pci_device \<Rightarrow> bool" where
  "laid s A t \<longleftrightarrow> quiet s t \<and> pdev t = pdev s \<and>
     ioeventfds_list t = ioeventfds_list s \<and> ioeventfds_nr t = ioeventfds_nr s \<and>
     refcnt t = refcnt s \<and> length (vconfig t) = cfg_size (pdev s) \<and>
     length (pci_config_map t) = cfg_size (pdev s) \<and> length (rbar t) = 7 \<and> mapped A (pci_config_map t) \<and>
     (\<forall>a \<in> set A. served t a) \<and>
     (extended_caps t \<longrightarrow> PCI_CFG_SPACE_SIZE < cfg_size (pdev s)) \<and>
     (msi_perm t \<noteq> NULL \<longrightarrow> (\<exists>(q, i, l) \<in> set A. q < PCI_CFG_SPACE_SIZE \<and> unat i = PCI_CAP_ID_MSI))"

lemma served_mono:
  assumes "served s a" "msi_perm s' = msi_perm s \<or> msi_perm s = NULL"
  shows "served s' a"
proof (cases a)
  case (fields q i l)
  show ?thesis
  proof (cases "q < PCI_CFG_SPACE_SIZE \<and> unat i = PCI_CAP_ID_MSI")
    case True
    with assms fields show ?thesis by (auto simp: table_of_def)
  next
    case False
    then have "table_of s' q i = table_of s q i" by (auto simp: table_of_def)
    with False assms(1) fields show ?thesis by auto
  qed
qed

lemma laid_same: "laid s A t \<Longrightarrow> same_space t u \<Longrightarrow> msi_perm u = msi_perm t \<Longrightarrow> laid s A u"
  by (auto simp: laid_def same_space_def intro: quiet_trans served_mono)

lemma laid_step: "laid s A t \<Longrightarrow> cfg_step t u \<Longrightarrow> laid s A u"
  by (auto simp: laid_def cfg_step_def intro: quiet_trans served_mono)

lemma laid_kcall:
  assumes "laid s A t" "kcall K (Config c) t = (r, u)"
  shows "laid s A u" "vconfig u = vconfig t" "msi_perm u = msi_perm t" "pci_config_map u = pci_config_map t"
  using laid_step [OF assms(1) cfg_step_calls(3), of "Config c" K] assms(2) by (auto simp: kcall_Pair)

text \<open>One more extent: a gap of the map is given to it, and its bytes are read from the device.\<close>

lemma laid_extend:
  assumes laid: "laid s A t" and same: "same_space t u" and msi: "msi_perm u = msi_perm t \<or> msi_perm t = NULL"
    and apart: "\<forall>a \<in> set A. apart (q, i, l) a" and room: "64 \<le> q" "q + l \<le> cfg_size (pdev s)"
      "q < PCI_CFG_SPACE_SIZE \<longrightarrow> q + l \<le> PCI_CFG_SPACE_SIZE"
    and new: "served u (q, i, l)"
      "msi_perm u \<noteq> msi_perm t \<longrightarrow> q < PCI_CFG_SPACE_SIZE \<and> unat i = PCI_CAP_ID_MSI" and steady: "steady K mem"
  shows "\<exists>m ret w. fill (pci_config_map u) q l i = Some m \<and>
    vfio_fill_vconfig_bytes K q l (u\<lparr>pci_config_map := m\<rparr>) = Some (ret, w) \<and> laid s ((q, i, l) # A) w \<and>
    filled mem q l (u\<lparr>pci_config_map := m\<rparr>) w ret \<and> (reliable K \<longrightarrow> ret = 0)"
proof -
  have len: "length (pci_config_map u) = cfg_size (pdev s)" "length (vconfig u) = cfg_size (pdev s)"
    using laid same by (simp_all add: laid_def same_space_def)
  then obtain m where m: "fill (pci_config_map u) q l i = Some m" using room(2) by (auto simp: fill_in)
  define v where "v = u\<lparr>pci_config_map := m\<rparr>"
  obtain ret w where w: "vfio_fill_vconfig_bytes K q l v = Some (ret, w)" "filled mem q l v w ret" "reliable K \<longrightarrow> ret = 0"
    using fill_vconfig [OF steady, of q l v] room(2) len by (auto simp: v_def)
  have "mapped ((q, i, l) # A) m"
    by (rule mapped_fill [OF _ m room(1) apart room(3)]) (use laid same in \<open>simp add: laid_def same_space_def\<close>)
  moreover have "served v (q, i, l)" by (rule served_mono [OF new(1)]) (simp add: v_def)
  moreover have "served v a" if "a \<in> set A" for a
    by (rule served_mono [of t]) (use laid msi that in \<open>simp_all add: laid_def v_def\<close>)
  moreover have "msi_perm v \<noteq> NULL \<longrightarrow> (\<exists>(q, i, l) \<in> set ((q, i, l) # A). q < 256 \<and> unat i = PCI_CAP_ID_MSI)"
  proof (cases "msi_perm u = msi_perm t")
    case True
    with laid show ?thesis by (simp add: laid_def v_def)
  next
    case False
    with new(2) show ?thesis by simp
  qed
  moreover have "quiet s v"
    using laid same quiet_trans [of s t u] by (simp add: laid_def same_space_def v_def quiet_def)
  moreover have "extended_caps v \<longrightarrow> PCI_CFG_SPACE_SIZE < cfg_size (pdev s)"
    using laid same by (auto simp: laid_def same_space_def v_def)
  ultimately have "laid s ((q, i, l) # A) v"
    using laid same len length_fill [OF m] by (simp add: laid_def same_space_def v_def)
  then have "laid s ((q, i, l) # A) w" using w(2) laid_step by (auto simp: filled_def)
  with m w show ?thesis by (auto simp: v_def)
qed

text \<open>The length of a capability, as the loop finds it: 0 hides it.\<close>

definition cap_length :: "kernel \<Rightarrow> u8 \<Rightarrow> u8 \<Rightarrow> vfio_pci_device \<Rightarrow> (int \<times> vfio_pci_device) option" where
  "cap_length K cap pos s =
     (if unat cap \<le> PCI_CAP_ID_MAX then
        (if pci_cap_length ! unat cap = 0xFF then vfio_cap_len K cap pos s
         else Some (int (pci_cap_length ! unat cap), s))
      else Some (0, s))"

lemma served_fixed:
  assumes "q < PCI_CFG_SPACE_SIZE" "i \<noteq> 0" "unat i \<le> PCI_CAP_ID_MAX" "pci_cap_length ! unat i \<noteq> 0xFF"
  shows "served s (q, i, pci_cap_length ! unat i)"
proof -
  have "unat i \<noteq> PCI_CAP_ID_MSI" using assms(4) by (auto simp: pci_cap_length_def)
  moreover have "0 < unat i" using assms(2) by (simp add: unat_gt_0)
  moreover have "pci_cap_length ! unat i \<le> length (pvirt (table_of s q i)) \<and>
      pci_cap_length ! unat i \<le> length (pwrite (table_of s q i)) \<and> cap_reach (table_of s q i) \<le> pci_cap_length ! unat i"
    if "tabled q i"
  proof -
    have "unat i = PCI_CAP_ID_PM \<or> unat i = PCI_CAP_ID_VPD \<or> unat i = PCI_CAP_ID_AF"
      using that assms(1,4) by (auto simp: tabled_def pci_cap_length_def)
    then show ?thesis using assms(1)
      by (elim disjE) (simp_all add: table_of_def ready_tables_def pci_cap_length_def cap_reach_def
          pm_table_def vpd_table_def af_table_def)
  qed
  ultimately show ?thesis using assms(1,3) by simp
qed

lemma served_variable:
  assumes "q < PCI_CFG_SPACE_SIZE" "i \<noteq> 0" "unat i \<le> PCI_CAP_ID_MAX" "pci_cap_length ! unat i = 0xFF"
    and "len_range (unat i) s len" "2 \<le> len"
  shows "served s (q, i, nat len)"
proof -
  have "0 < unat i" using assms(2) by (simp add: unat_gt_0)
  moreover have "\<exists>t. msi_perm s = Ptr t" if "unat i = PCI_CAP_ID_MSI"
    using assms(5,6) that by (auto simp: len_range_def)
  moreover have "nat len \<le> length (pvirt (table_of s q i)) \<and>
      nat len \<le> length (pwrite (table_of s q i)) \<and> cap_reach (table_of s q i) \<le> nat len" if "tabled q i"
  proof -
    have "unat i = PCI_CAP_ID_MSI \<or> unat i = PCI_CAP_ID_PCIX \<or> unat i = PCI_CAP_ID_EXP"
      using that assms(1,4) by (auto simp: tabled_def pci_cap_length_def)
    then show ?thesis using assms(1,5,6)
    proof (elim disjE)
      assume msi: "unat i = PCI_CAP_ID_MSI"
      then obtain t where "msi_perm s = Ptr t" "sized (round_up (nat len) 4) t" "10 \<le> len"
        using assms(5,6) by (auto simp: len_range_def)
      with msi assms(1) show ?thesis by (auto simp: table_of_def sized_def round_up_def cap_reach_def)
    qed (auto simp: table_of_def ready_tables_def len_range_def cap_reach_def pcix_table_def exp_table_def)
  qed
  ultimately show ?thesis using assms(1,3) by simp
qed

lemma cap_length_cases:
  assumes "laid s A t" "errno_law K" "cap_sound K (q, i, r)" "unat pos = q" "\<forall>a \<in> set A. apart a (q, i, r)"
  shows "\<exists>len u. cap_length K i pos t = Some (len, u) \<and> same_space t u \<and>
    (len < 0 \<and> \<not> reliable K \<or> len = 0 \<and> \<not> shown (q, i, r) \<and> msi_perm u = msi_perm t \<or>
     2 \<le> len \<and> len \<le> int r \<and> shown (q, i, r) \<and> served u (q, i, nat len) \<and>
       (msi_perm u \<noteq> msi_perm t \<longrightarrow> msi_perm t = NULL \<and> unat i = PCI_CAP_ID_MSI))"
proof (cases "unat i \<le> PCI_CAP_ID_MAX \<and> pci_cap_length ! unat i = 0xFF")
  case True
  have null: "msi_perm t = NULL" if "unat i = PCI_CAP_ID_MSI"
  proof (rule ccontr)
    assume "msi_perm t \<noteq> NULL"
    then obtain q' i' l' where e: "(q', i', l') \<in> set A" "q' < 256" "unat i' = PCI_CAP_ID_MSI"
      using assms(1) by (auto simp: laid_def)
    then have "i' = i" using that by (metis word_unat_eq_iff)
    with e assms(3,5) that show False by (force simp: tabled_def)
  qed
  then obtain len u where u: "vfio_cap_len K i pos t = Some (len, u)" "same_space t u"
    "unat i \<noteq> PCI_CAP_ID_MSI \<longrightarrow> msi_perm u = msi_perm t" "len_range (unat i) u len"
    "reliable K \<longrightarrow> 0 \<le> len"
    using cap_len_cases [OF assms(2), of i t pos] by blast
  have "pos = word_of_nat q" using assms(4) by auto
  with True assms(3) u(1) have "len < 0 \<or> 2 \<le> len \<and> len \<le> int r" by fastforce
  with True u null served_variable [OF _ _ _ _ u(4), of q] assms(3) show ?thesis
    by (auto simp: cap_length_def)
next
  case False
  show ?thesis
  proof (cases "unat i \<le> PCI_CAP_ID_MAX")
    case True
    have two: "pci_cap_length ! unat i = 0 \<or> 2 \<le> pci_cap_length ! unat i"
    proof -
      have "\<forall>x \<in> set pci_cap_length. x = 0 \<or> 2 \<le> x" by (simp add: pci_cap_length_def)
      moreover have "unat i < length pci_cap_length" using True by (simp add: pci_cap_length_def)
      ultimately show ?thesis using nth_mem by blast
    qed
    with True False assms(3) served_fixed [of q i t] show ?thesis
      by (auto simp: cap_length_def)
  next
    case out: False
    then show ?thesis by (simp add: cap_length_def)
  qed
qed

lemma vstore_byte:
  assumes "p < length (vconfig t)"
  shows "vstore p 1 (ucast (b :: u8)) t = Some (t\<lparr>vconfig := (vconfig t)[p := b]\<rparr>)"
proof -
  have "(ucast (ucast b :: u32) :: u8) = b" by (rule bit_word_eqI) (simp add: bit_simps)
  with assms show ?thesis by (simp add: vstore_def store_in le_bytes_def upd_conv_take_nth_drop)
qed

text \<open>
  The walk over the list. Either it is cut short by an error, or every capability that the driver knows is in
  the map and linked into the list of the user, and no other.
\<close>

lemma cap_init_loop_lays:
  assumes steady: "steady K mem" and errno: "errno_law K" and n: "PCI_CFG_SPACE_SIZE \<le> cfg_size (pdev s)"
  shows "cap_listed K mem pos cs \<Longrightarrow> length cs \<le> fuel \<Longrightarrow> laid s A t \<Longrightarrow> linked A V prev pos (vconfig t) \<Longrightarrow>
    sorted_wrt apart cs \<Longrightarrow> \<forall>a \<in> set A. \<forall>c \<in> set cs. apart a c \<Longrightarrow> \<forall>a \<in> set A. fst a < PCI_CFG_SPACE_SIZE \<Longrightarrow>
    \<exists>early k A' prev' u. cap_init_loop K fuel pos prev caps t = Some (early, k, u) \<and>
      (case early of Some r \<Rightarrow> r \<noteq> 0 \<and> \<not> reliable K
       | None \<Rightarrow> laid s A' u \<and> (\<forall>a \<in> set A'. fst a < PCI_CFG_SPACE_SIZE) \<and>
           linked A' (V @ map place (filter shown cs)) prev' 0 (vconfig u) \<and>
           k = caps + length (filter shown cs) \<and> vconfig u ! PCI_STATUS = vconfig t ! PCI_STATUS)"
proof (induction cs arbitrary: fuel pos A V prev caps t)
  case Nil
  then show ?case by (cases fuel) auto
next
  case (Cons c cs)
  obtain q i r where c: "c = (q, i, r)" by (cases c) auto
  from Cons.prems(1) c obtain nxt where pos: "pos \<noteq> 0" "unat pos = q" "mem q = Some i" "cap_sound K (q, i, r)"
    "mem (q + 1) = Some nxt" "cap_listed K mem nxt cs" by auto
  obtain f where fuel: "fuel = Suc f" "length cs \<le> f" using Cons.prems(2) by (cases fuel) auto
  have bounds: "64 \<le> q" "q + r \<le> 256" "q < 256" "i \<noteq> 0" using pos(4) by simp_all
  have word: "word_of_nat q = pos" using pos(2) by auto
  obtain rc v t1 where 1: "kcall K (Config (Read_config 1 q)) t = ((rc, v), t1)" by (metis surj_pair)
  obtain rc' v' t2 where 2: "kcall K (Config (Read_config 1 (q + 1))) t1 = ((rc', v'), t2)" by (metis surj_pair)
  note k1 = laid_kcall [OF Cons.prems(3) 1] and k2 = laid_kcall [OF laid_kcall(1) [OF Cons.prems(3) 1] 2]
  have apart: "\<forall>a \<in> set A. apart a (q, i, r)" "\<forall>b \<in> set cs. apart (q, i, r) b" "sorted_wrt apart cs"
    "\<forall>a \<in> set A. \<forall>b \<in> set cs. apart a b" using Cons.prems(5,6) c by auto
  obtain len u where u: "cap_length K i pos t2 = Some (len, u)" "same_space t2 u"
    "len < 0 \<and> \<not> reliable K \<or> len = 0 \<and> \<not> shown (q, i, r) \<and> msi_perm u = msi_perm t2 \<or>
     2 \<le> len \<and> len \<le> int r \<and> shown (q, i, r) \<and> served u (q, i, nat len) \<and>
       (msi_perm u \<noteq> msi_perm t2 \<longrightarrow> msi_perm t2 = NULL \<and> unat i = PCI_CAP_ID_MSI)"
    using cap_length_cases [OF k2(1) errno pos(4) pos(2) apart(1)] by blast
  define rest where "rest = (if len < 0 then Some (Some len, caps, u)
    else if len = 0 then do { w \<leftarrow> vstore prev 1 (ucast nxt) u; cap_init_loop K f nxt prev caps w }
    else do { m \<leftarrow> fill (pci_config_map u) q (nat len) i;
      (ret, w) \<leftarrow> vfio_fill_vconfig_bytes K q (nat len) (u\<lparr>pci_config_map := m\<rparr>);
      if ret \<noteq> 0 then Some (Some ret, caps, w) else cap_init_loop K f nxt (q + PCI_CAP_LIST_NEXT) (caps + 1) w })"
  have run: "cap_init_loop K fuel pos prev caps t =
    (if rc \<noteq> 0 then Some (Some rc, caps, t1) else if rc' \<noteq> 0 then Some (Some rc', caps, t2) else rest)"
  proof (cases "rc = 0 \<and> rc' = 0")
    case True
    then have v: "(ucast v :: u8) = i" "(ucast v' :: u8) = nxt"
      using steady_byte [OF steady _ pos(3)] steady_byte [OF steady _ pos(5)] 1 2 by auto
    show ?thesis
      unfolding fuel(1) cap_init_loop.simps(2) pos(2) 1 prod.case Let_def v rest_def 2
      using True pos(1) u(1) unfolding cap_length_def by simp
  next
    case False
    show ?thesis
      unfolding fuel(1) cap_init_loop.simps(2) pos(2) 1 prod.case Let_def 2 using False pos(1) by auto
  qed
  have space: "vconfig u = vconfig t" "length (vconfig u) = cfg_size (pdev s)"
    using u(2) k1(2) k2(1,2) by (auto simp: same_space_def laid_def)
  have cov: "cover A \<subseteq> {64..<PCI_CFG_SPACE_SIZE}" using cover_low [of A "pci_config_map t"] Cons.prems(3,7) by (simp add: laid_def)
  have inside: "insert PCI_CAPABILITY_LIST (cover A) \<subseteq> {..<length (vconfig u)}"
    using cov space n by auto
  have prev: "prev < length (vconfig u)" using Cons.prems(4) inside by (auto simp: linked_def)
  have chain: "linked A V prev pos (vconfig u)" using Cons.prems(4) space by simp
  have shrink: "\<forall>a \<in> set A. apart (q, i, nat len) a" "\<forall>b \<in> set cs. apart (q, i, nat len) b" if "len \<le> int r"
    using apart(1,2) apart_shrink apart_sym that by (metis nat_le_iff)+
  consider "rc \<noteq> 0 \<or> rc' \<noteq> 0 \<or> len < 0" "\<not> reliable K" | "rc = 0" "rc' = 0" "len = 0" "\<not> shown c" "msi_perm u = msi_perm t2"
    | "rc = 0" "rc' = 0" "2 \<le> len" "len \<le> int r" "shown c" "served u (q, i, nat len)"
      "msi_perm u \<noteq> msi_perm t2 \<longrightarrow> msi_perm t2 = NULL \<and> unat i = PCI_CAP_ID_MSI"
    using u(3) c reliable_read [OF _ 1] reliable_read [OF _ 2] by blast
  then show ?case
  proof cases
    case 1
    with run show ?thesis by (auto simp: rest_def)
  next
    case 2
    define w where "w = u\<lparr>vconfig := (vconfig u)[prev := nxt]\<rparr>"
    have w: "vstore prev 1 (ucast nxt) u = Some w" using vstore_byte [OF prev] by (simp add: w_def)
    have "laid s A w" using laid_step [OF laid_same [OF k2(1) u(2) 2(5)] cfg_step_vstore [OF w]] .
    moreover have "linked A V prev nxt (vconfig w)" using linked_skip [OF chain prev] by (simp add: w_def)
    ultimately have "\<exists>early k A' prev' x. cap_init_loop K f nxt prev caps w = Some (early, k, x) \<and>
      (case early of Some r \<Rightarrow> r \<noteq> 0 \<and> \<not> reliable K
       | None \<Rightarrow> laid s A' x \<and> (\<forall>a \<in> set A'. fst a < PCI_CFG_SPACE_SIZE) \<and>
           linked A' (V @ map place (filter shown cs)) prev' 0 (vconfig x) \<and> k = caps + length (filter shown cs) \<and>
           vconfig x ! PCI_STATUS = vconfig w ! PCI_STATUS)"
      using Cons.IH [OF pos(6) fuel(2) _ _ apart(3,4) Cons.prems(7)] by blast
    moreover have "filter shown (c # cs) = filter shown cs" using 2(4) by simp
    moreover have "prev \<noteq> PCI_STATUS" using Cons.prems(4) cov by (auto simp: linked_def)
    then have "vconfig w ! PCI_STATUS = vconfig t ! PCI_STATUS" by (simp add: w_def space)
    ultimately show ?thesis using run 2 w by (simp only: rest_def) simp
  next
    case 3
    define A1 where "A1 = (q, i, nat len) # A"
    have fits: "q + nat len \<le> 256" "2 \<le> nat len" using 3(3,4) bounds(2) by linarith+
    obtain m ret w where w: "fill (pci_config_map u) q (nat len) i = Some m"
      "vfio_fill_vconfig_bytes K q (nat len) (u\<lparr>pci_config_map := m\<rparr>) = Some (ret, w)" "laid s A1 w"
      "filled mem q (nat len) (u\<lparr>pci_config_map := m\<rparr>) w ret" "reliable K \<longrightarrow> ret = 0"
      using laid_extend [OF k2(1) u(2) _ shrink(1) [OF 3(4)] bounds(1) _ _ 3(6) _ steady] 3(7) fits(1) n bounds(3)
      unfolding A1_def by fastforce
    have rest: "rest = (if ret \<noteq> 0 then Some (Some ret, caps, w) else cap_init_loop K f nxt (q + 1) (caps + 1) w)"
      using w(1,2) 3(3) by (simp add: rest_def)
    have new: "vconfig w ! q = i" "vconfig w ! (q + 1) = nxt" if "ret = 0"
      using w(4) that fits(2) pos(3,5) by (simp_all add: filled_def)
    have off: "p \<notin> {q..<q + nat len}" if "p \<in> cover A" for p
      using that shrink(1) [OF 3(4)] by (fastforce simp: cover_def)
    have old: "vconfig w ! p = vconfig u ! p \<and> p \<noteq> q \<and> p \<noteq> q + 1"
      if "p \<in> insert PCI_CAPABILITY_LIST (cover A)" for p
    proof -
      have "p \<notin> {q..<q + nat len}" using that off bounds(1) by auto
      moreover have "p < length (vconfig u)" using that inside by blast
      ultimately show ?thesis using w(4) fits(2) by (auto simp: filled_def)
    qed
    have link: "linked A1 (V @ [(q, i)]) (q + 1) nxt (vconfig w)" if "ret = 0"
      unfolding A1_def by (rule linked_append [OF _ fits(2) bounds(1)]) (use chain word old new that in auto)
    have "\<forall>a \<in> set A1. fst a < PCI_CFG_SPACE_SIZE" using Cons.prems(7) bounds(3) by (simp add: A1_def)
    moreover have "\<forall>a \<in> set A1. \<forall>b \<in> set cs. apart a b" using shrink(2) [OF 3(4)] apart(4) by (simp add: A1_def)
    ultimately have "ret = 0 \<Longrightarrow> \<exists>early k A' prev' x. cap_init_loop K f nxt (q + 1) (caps + 1) w = Some (early, k, x) \<and>
      (case early of Some r \<Rightarrow> r \<noteq> 0 \<and> \<not> reliable K
       | None \<Rightarrow> laid s A' x \<and> (\<forall>a \<in> set A'. fst a < PCI_CFG_SPACE_SIZE) \<and>
           linked A' ((V @ [(q, i)]) @ map place (filter shown cs)) prev' 0 (vconfig x) \<and>
           k = caps + 1 + length (filter shown cs) \<and> vconfig x ! PCI_STATUS = vconfig w ! PCI_STATUS)"
      using Cons.IH [OF pos(6) fuel(2) w(3) link apart(3)] by blast
    moreover have "vconfig w ! PCI_STATUS = vconfig t ! PCI_STATUS"
      using w(4) bounds(1) space n by (simp add: filled_def)
    moreover have "map place (filter shown (c # cs)) = (q, i) # map place (filter shown cs)"
      "length (filter shown (c # cs)) = 1 + length (filter shown cs)" using 3(5) c by (simp_all add: place_def)
    ultimately show ?thesis using run rest 3(1,2) w(5)
      by (cases "ret = 0") (simp_all only: append_assoc append_Cons append_Nil add.assoc, auto)
  qed
qed

section \<open>Both lists\<close>

definition has_caps :: "kernel \<Rightarrow> (nat \<rightharpoonup> u8) \<Rightarrow> extent list \<Rightarrow> bool" where
  "has_caps K mem cs \<longleftrightarrow> length cs \<le> 48 \<and> sorted_wrt apart cs \<and>
     (\<exists>st. mem PCI_STATUS = Some st \<and>
        (if st AND 0x10 = 0 then cs = [] else \<exists>hd. mem PCI_CAPABILITY_LIST = Some hd \<and> cap_listed K mem hd cs))"

text \<open>The list of the user: announced in the status register unless it is empty, linked and closed.\<close>

definition user_list :: "u8 list \<Rightarrow> (nat \<times> u8) list \<Rightarrow> bool" where
  "user_list v V \<longleftrightarrow>
     (if V = [] then v ! PCI_STATUS AND 0x10 = 0
      else v ! PCI_STATUS AND 0x10 \<noteq> 0 \<and> (\<exists>z. vlinks v PCI_CAPABILITY_LIST V z \<and> v ! z = 0))"

lemma status_bit: "(x :: u8) AND 0x10 = 0 \<longleftrightarrow> \<not> bit x 4" "(y :: u16) AND 0x10 = 0 \<longleftrightarrow> \<not> bit y 4"
  using and_exp_eq_0_iff_not_bit [of x 4] and_exp_eq_0_iff_not_bit [of y 4] by simp_all

text \<open>The list depends on the first 256 bytes only.\<close>

definition low_same :: "vfio_pci_device \<Rightarrow> vfio_pci_device \<Rightarrow> bool" where
  "low_same t u \<longleftrightarrow> (\<forall>p < PCI_CFG_SPACE_SIZE. vconfig u ! p = vconfig t ! p)"

lemma linked_user_list:
  assumes "linked A V prev 0 (vconfig u)" "cover A \<subseteq> {64..<PCI_CFG_SPACE_SIZE}" "low_same u w" "V \<noteq> []"
    and "vconfig u ! PCI_STATUS AND 0x10 \<noteq> 0"
  shows "user_list (vconfig w) V"
proof -
  have cells: "insert prev (vcells PCI_CAPABILITY_LIST V) \<subseteq> {..<PCI_CFG_SPACE_SIZE}"
    using assms(1,2) by (fastforce simp: linked_def)
  then have "\<forall>p \<in> vcells PCI_CAPABILITY_LIST V. vconfig w ! p = vconfig u ! p" "vconfig w ! prev = vconfig u ! prev"
    using assms(3) by (auto simp: low_same_def)
  with vlinks_cong [OF this(1)] assms show ?thesis by (auto simp: user_list_def linked_def low_same_def)
qed

lemma cap_init_lays:
  assumes steady: "steady K mem" and errno: "errno_law K" and n: "PCI_CFG_SPACE_SIZE \<le> cfg_size (pdev s)"
    and caps: "has_caps K mem cs" and laid: "laid s [] t"
    and v: "\<And>p b. p \<in> {PCI_STATUS, PCI_CAPABILITY_LIST} \<Longrightarrow> mem p = Some b \<Longrightarrow> vconfig t ! p = b"
  shows "\<exists>ret A u. vfio_cap_init K t = Some (ret, u) \<and> (reliable K \<longrightarrow> ret = 0) \<and>
    (ret = 0 \<longrightarrow> laid s A u \<and> (\<forall>a \<in> set A. fst a < PCI_CFG_SPACE_SIZE) \<and>
       (\<forall>w. low_same u w \<longrightarrow> user_list (vconfig w) (map place (filter shown cs))))"
proof -
  obtain st where st: "mem PCI_STATUS = Some st"
    "if st AND 0x10 = 0 then cs = [] else \<exists>hd. mem PCI_CAPABILITY_LIST = Some hd \<and> cap_listed K mem hd cs"
    using caps by (auto simp: has_caps_def)
  obtain rc x t1 where 1: "kcall K (Config (Read_config 2 PCI_STATUS)) t = ((rc, x), t1)" by (metis surj_pair)
  note k1 = laid_kcall [OF laid 1]
  obtain rc' y t2 where 2: "kcall K (Config (Read_config 1 PCI_CAPABILITY_LIST)) t1 = ((rc', y), t2)" by (metis surj_pair)
  note k2 = laid_kcall [OF k1(1) 2]
  have run: "vfio_cap_init K t = (if rc \<noteq> 0 then Some (rc, t1) else if (ucast x :: u16) AND 0x10 = 0 then Some (0, t1)
    else if rc' \<noteq> 0 then Some (rc', t2) else do {
      (early, k, s) \<leftarrow> cap_init_loop K 48 (ucast y) PCI_CAPABILITY_LIST 0 t2;
      case early of Some r \<Rightarrow> Some (r, s)
      | None \<Rightarrow> if k = 0 then do {
            w \<leftarrow> vload PCI_STATUS 2 s; s \<leftarrow> vstore PCI_STATUS 2 (w AND NOT (ucast PCI_STATUS_CAP_LIST)) s; Some (0, s)
          } else Some (0, s) })"
    by (simp only: vfio_cap_init_def 1 2 prod.case Let_def) simp
  have bit: "(ucast x :: u16) AND 0x10 = 0 \<longleftrightarrow> st AND 0x10 = 0" if "rc = 0"
  proof -
    have "(ucast (drop_bit (8 * 0) (ucast x :: u32)) :: u8) = st"
      by (rule steady_read [OF steady 1 [unfolded that]]) (use st(1) in simp_all)
    then have "bit st 4 = bit x 4" by (auto simp: bit_simps)
    then show ?thesis by (simp add: status_bit bit_simps)
  qed
  have ok: "reliable K \<Longrightarrow> rc = 0 \<and> rc' = 0" using reliable_read [OF _ 1] reliable_read [OF _ 2] by blast
  show ?thesis
  proof (cases "rc = 0 \<and> st AND 0x10 \<noteq> 0 \<and> rc' = 0")
    case False
    have "user_list (vconfig w) []" if "st AND 0x10 = 0" "low_same t1 w" for w
      using v [of PCI_STATUS st] st(1) k1(2) that by (simp add: user_list_def low_same_def)
    moreover have "cs = []" if "st AND 0x10 = 0" using st(2) that by simp
    ultimately show ?thesis using False run bit k1(1) ok by (cases "rc = 0") (auto split: if_splits)
  next
    case True
    then obtain hd where hd: "mem PCI_CAPABILITY_LIST = Some hd" "cap_listed K mem hd cs" using st(2) by auto
    have y: "(ucast y :: u8) = hd" using steady_byte [OF steady _ hd(1)] 2 True by simp
    have few: "length cs \<le> 48" "sorted_wrt apart cs" using caps by (simp_all add: has_caps_def)
    have link: "linked [] [] PCI_CAPABILITY_LIST hd (vconfig t2)"
      using v [of PCI_CAPABILITY_LIST hd] hd(1) k1(2) k2(2) by (simp add: linked_def cover_def)
    obtain early k A prev u where u: "cap_init_loop K 48 hd PCI_CAPABILITY_LIST 0 t2 = Some (early, k, u)"
      "case early of Some r \<Rightarrow> r \<noteq> 0 \<and> \<not> reliable K
       | None \<Rightarrow> laid s A u \<and> (\<forall>a \<in> set A. fst a < PCI_CFG_SPACE_SIZE) \<and>
           linked A (map place (filter shown cs)) prev 0 (vconfig u) \<and> k = length (filter shown cs) \<and>
           vconfig u ! PCI_STATUS = vconfig t2 ! PCI_STATUS"
      using cap_init_loop_lays [OF steady errno n hd(2) few(1) k2(1) link few(2), of 0, unfolded list.set ball_empty append_Nil add_0]
      by blast
    show ?thesis
    proof (cases early)
      case (Some r)
      with u run True bit y show ?thesis by auto
    next
      case None
      have status: "vconfig u ! PCI_STATUS = st" using u(2) None v [of PCI_STATUS st] st(1) k1(2) k2(2) by simp
      show ?thesis
      proof (cases "k = 0")
        case False
        then have "map place (filter shown cs) \<noteq> []" using u(2) None by simp
        moreover have "cover A \<subseteq> {64..<PCI_CFG_SPACE_SIZE}"
          using cover_low [of A "pci_config_map u"] u(2) None by (simp add: laid_def)
        ultimately have "user_list (vconfig w) (map place (filter shown cs))" if "low_same u w" for w
          using linked_user_list [of A _ prev u w] u(2) None True status that by simp
        with False u run True bit y None show ?thesis by auto
      next
        case True
        have len: "PCI_STATUS + 2 \<le> length (vconfig u)" using u(2) None n by (simp add: laid_def)
        obtain w where w: "vload PCI_STATUS 2 u = Some w" using vload_in [OF len] by blast
        obtain z where z: "vstore PCI_STATUS 2 (w AND NOT (ucast PCI_STATUS_CAP_LIST)) u = Some z"
          using vstore_ex [OF len] by blast
        have "vconfig z ! PCI_STATUS = ucast (w AND NOT (ucast PCI_STATUS_CAP_LIST :: u32))"
          using z len by (auto simp: vstore_def nth_store nth_le_bytes)
        then have "vconfig z ! PCI_STATUS AND 0x10 = 0" by (simp add: status_bit bit_simps)
        moreover have "laid s A z" using laid_step [OF _ cfg_step_vstore [OF z]] u(2) None by simp
        moreover have "map place (filter shown cs) = []" using u(2) None True by simp
        ultimately show ?thesis
          using u run \<open>rc = 0 \<and> st AND 0x10 \<noteq> 0 \<and> rc' = 0\<close> bit y None True w z
          by (auto simp: user_list_def low_same_def)
      qed
    qed
  qed
qed

end
