(* ===== verification/Config_Open_Ext.thy ===== *)
theory Config_Open_Ext
  imports Config_Open
begin

text \<open>
  The extended capability list of a device whose list is as the specification wants it, second part of what
  \<^verbatim>\<open>vfio_config_init\<close> makes of a device.
\<close>

section \<open>The extended list\<close>

text \<open>
  An extended capability with the header \<open>h\<close>; its identifier has sixteen bits of which the map keeps eight.
\<close>

definition ecap_sound :: "kernel \<Rightarrow> nat \<Rightarrow> u32 \<Rightarrow> extent \<Rightarrow> bool" where
  "ecap_sound K n h c \<longleftrightarrow> (case c of (q, i, r) \<Rightarrow>
     PCI_CFG_SPACE_SIZE \<le> q \<and> q + r \<le> n \<and> q + PCI_CAP_SIZEOF \<le> n \<and> i = word_of_nat (PCI_EXT_CAP_ID h) \<and>
     (PCI_EXT_CAP_ID h \<le> PCI_EXT_CAP_ID_MAX \<longrightarrow>
        (if pci_ext_cap_length ! PCI_EXT_CAP_ID h = 0xFF
         then (\<forall>s. fst (vfio_ext_cap_len K (PCI_EXT_CAP_ID h) q s) \<le> int r)
         else pci_ext_cap_length ! PCI_EXT_CAP_ID h \<le> r)))"

primrec ecap_listed :: "kernel \<Rightarrow> (nat \<rightharpoonup> u8) \<Rightarrow> nat \<Rightarrow> nat \<Rightarrow> extent list \<Rightarrow> bool" where
  "ecap_listed K mem n epos [] \<longleftrightarrow> epos < PCI_CFG_SPACE_SIZE"
| "ecap_listed K mem n epos (c # cs) \<longleftrightarrow> epos = fst c \<and>
     (\<exists>h. (\<forall>k < 4. mem (epos + k) = Some (ucast (drop_bit (8 * k) h))) \<and> ecap_sound K n h c \<and>
        ecap_listed K mem n (PCI_EXT_CAP_NEXT h) cs)"

text \<open>The first capability of the list cannot be hidden; its four bytes are always in the map.\<close>

definition has_ecaps :: "kernel \<Rightarrow> (nat \<rightharpoonup> u8) \<Rightarrow> nat \<Rightarrow> extent list \<Rightarrow> bool" where
  "has_ecaps K mem n cs \<longleftrightarrow> sorted_wrt apart cs \<and> ecap_listed K mem n PCI_CFG_SPACE_SIZE cs \<and>
     (case cs of [] \<Rightarrow> True | (q, i, r) # _ \<Rightarrow> PCI_CAP_SIZEOF \<le> r \<and> unat i \<le> PCI_EXT_CAP_ID_MAX)"

lemma steady_header:
  assumes "steady K mem" "kcall K (Config (Read_config 4 p)) s = ((0, v), s')"
    and "\<forall>k < 4. mem (p + k) = Some (ucast (drop_bit (8 * k) h))"
  shows "(ucast v :: u32) = h"
proof (rule bit_word_eqI)
  fix j assume j: "j < LENGTH(32)"
  define k where "k = j div 8"
  have k: "k < 4" "j = 8 * k + j mod 8" "j mod 8 < 8" using j by (auto simp: k_def)
  have "(ucast (drop_bit (8 * k) (ucast v :: u32)) :: u8) = ucast (drop_bit (8 * k) h)"
    by (rule steady_read [OF assms(1,2)]) (use k assms(3) in auto)
  then have "bit (ucast (drop_bit (8 * k) (ucast v :: u32)) :: u8) (j mod 8) = bit (ucast (drop_bit (8 * k) h) :: u8) (j mod 8)"
    by simp
  then show "bit (ucast v :: u32) j = bit h j" using k j by (simp add: bit_simps add.commute)
qed

lemma vc_cap_len_same: "same_space t (snd (vfio_vc_cap_len K p t))" "msi_perm (snd (vfio_vc_cap_len K p t)) = msi_perm t"
  by (auto simp: vfio_vc_cap_len_def case_prod_unfold Let_def intro!: same_space_kcall)

lemma ext_cap_len_same:
  "same_space t (snd (vfio_ext_cap_len K e p t)) \<and> msi_perm (snd (vfio_ext_cap_len K e p t)) = msi_perm t"
  by (auto simp: vfio_ext_cap_len_def case_prod_unfold Let_def vc_cap_len_same cap_byte_same(2)
      intro!: same_space_kcall cap_byte_same(1))

lemma ext_cap_len_nonneg:
  assumes "reliable K"
  shows "0 \<le> fst (vfio_ext_cap_len K e p t)"
proof -
  have read: "fst (fst (kcall K (Config (Read_config n p)) s)) = 0" for n p and s :: vfio_pci_device
    using assms by (simp add: reliable_def kcall_Pair)
  have "0 \<le> fst (cap_byte K p f t)" if "\<forall>b. 0 \<le> f b" for p f t
    using that by (simp add: cap_byte_def case_prod_unfold read)
  moreover have "0 \<le> fst (vfio_vc_cap_len K p t)" for p t
    by (simp add: vfio_vc_cap_len_def case_prod_unfold read Let_def)
  ultimately show ?thesis
    by (auto simp: vfio_ext_cap_len_def case_prod_unfold Let_def read)
qed

definition ecap_length :: "kernel \<Rightarrow> nat \<Rightarrow> nat \<Rightarrow> vfio_pci_device \<Rightarrow> int \<times> vfio_pci_device" where
  "ecap_length K ecap epos s =
     (if ecap \<le> PCI_EXT_CAP_ID_MAX then
        (if pci_ext_cap_length ! ecap = 0xFF then vfio_ext_cap_len K ecap epos s
         else (int (pci_ext_cap_length ! ecap), s))
      else (0, s))"

lemma ecap_length_same:
  "same_space t (snd (ecap_length K e p t))" "msi_perm (snd (ecap_length K e p t)) = msi_perm t"
  using ext_cap_len_same by (auto simp: ecap_length_def)

lemma ecap_length_nonneg: "reliable K \<Longrightarrow> ecap_length K e p t = (len, u) \<Longrightarrow> 0 \<le> len"
  using ext_cap_len_nonneg [of K e p t] by (auto simp: ecap_length_def split: if_splits)

lemma served_ext:
  assumes "PCI_CFG_SPACE_SIZE \<le> q" "unat i \<le> PCI_EXT_CAP_ID_MAX" "l \<le> 4 \<or> \<not> tabled q i \<or> l = pci_ext_cap_length ! unat i"
  shows "served s (q, i, l)"
proof -
  have "l \<le> length (pvirt (table_of s q i)) \<and> l \<le> length (pwrite (table_of s q i)) \<and> cap_reach (table_of s q i) \<le> l"
    if "tabled q i"
  proof -
    have "unat i = PCI_EXT_CAP_ID_ERR \<or> unat i = PCI_EXT_CAP_ID_PWR" using that assms(1) by (auto simp: tabled_def)
    then show ?thesis using that assms(1,3)
      by (elim disjE) (auto simp: table_of_def ready_tables_def pci_ext_cap_length_def cap_reach_def err_table_def pwr_table_def)
  qed
  with assms(1,2) show ?thesis by auto
qed

lemma low_same_trans: "low_same t u \<Longrightarrow> low_same u w \<Longrightarrow> low_same t w"
  by (simp add: low_same_def)

lemma low_vstore:
  assumes "vstore q n v t = Some u" "PCI_CFG_SPACE_SIZE \<le> q"
  shows "low_same t u"
proof -
  obtain bs where bs: "store (vconfig t) q n v = Some bs" "u = t\<lparr>vconfig := bs\<rparr>" using assms(1) by (auto simp: vstore_def)
  have "q + n \<le> length (vconfig t)" using bs(1) by (rule store_Some_bound)
  with bs assms(2) show ?thesis by (auto simp: low_same_def nth_store)
qed

text \<open>The two ways a capability is treated: unlinked from the list of the user, or entered into the map.\<close>

definition ecap_unlink ::
    "nat \<Rightarrow> nat \<Rightarrow> vfio_pci_device \<Rightarrow> vfio_pci_device option" where
  "ecap_unlink q epos s = do {
     v \<leftarrow> vload q 4 s;
     vstore q 4 ((v AND NOT (push_bit 20 0xffc)) OR push_bit 20 (word_of_nat epos)) s }"

definition ecap_enter ::
    "kernel \<Rightarrow> nat \<Rightarrow> u8 \<Rightarrow> int \<Rightarrow> vfio_pci_device \<Rightarrow> (int \<times> vfio_pci_device) option" where
  "ecap_enter K epos i len s = do {
     let bytes = (if len = 0 then PCI_CAP_SIZEOF else nat len);
     m \<leftarrow> fill (pci_config_map s) epos bytes i;
     (ret, s) \<leftarrow> vfio_fill_vconfig_bytes K epos bytes (s\<lparr>pci_config_map := m\<rparr>);
     if ret \<noteq> 0 then Some (ret, s)
     else do {
       s \<leftarrow> (if len = 0 then do { v \<leftarrow> vload epos 4 s; vstore epos 4 (v AND push_bit 20 0xffc) s } else Some s);
       Some (0, s) } }"

lemma ecap_unlink_lays:
  assumes "laid s A t" "PCI_CFG_SPACE_SIZE \<le> q" "q + 4 \<le> cfg_size (pdev s)"
  shows "\<exists>u. ecap_unlink q e t = Some u \<and> laid s A u \<and> low_same t u"
proof -
  have len: "q + 4 \<le> length (vconfig t)" using assms by (simp add: laid_def)
  obtain v where v: "vload q 4 t = Some v" using vload_in [OF len] by blast
  obtain u where u: "vstore q 4 ((v AND NOT (push_bit 20 0xffc)) OR push_bit 20 (word_of_nat e)) t = Some u"
    using vstore_ex [OF len] by blast
  show ?thesis using v u laid_step [OF assms(1) cfg_step_vstore [OF u]] low_vstore [OF u assms(2)]
    by (simp add: ecap_unlink_def)
qed

lemma ecap_enter_lays:
  assumes steady: "steady K mem" and laid: "laid s A t" and apart: "\<forall>a \<in> set A. apart a (q, i, r)"
    and q: "PCI_CFG_SPACE_SIZE \<le> q" "q + r \<le> cfg_size (pdev s)" "unat i \<le> PCI_EXT_CAP_ID_MAX"
    and len: "0 \<le> len" "len \<le> int r" "len = 0 \<longrightarrow> 4 \<le> r" "len = 0 \<or> \<not> tabled q i \<or> nat len = pci_ext_cap_length ! unat i"
  shows "\<exists>ret l u. ecap_enter K q i len t = Some (ret, u) \<and> l \<le> r \<and> laid s ((q, i, l) # A) u \<and> low_same t u \<and>
    (reliable K \<longrightarrow> ret = 0)"
proof -
  define l where "l = (if len = 0 then 4 else nat len)"
  have l: "l \<le> r" using len by (auto simp: l_def)
  have far: "\<forall>a \<in> set A. apart (q, i, l) a" using apart apart_shrink [OF _ l] apart_sym by blast
  have srv: "served t (q, i, l)" by (rule served_ext) (use q len in \<open>auto simp: l_def\<close>)
  obtain m ret w where w: "fill (pci_config_map t) q l i = Some m"
    "vfio_fill_vconfig_bytes K q l (t\<lparr>pci_config_map := m\<rparr>) = Some (ret, w)" "laid s ((q, i, l) # A) w"
    "filled mem q l (t\<lparr>pci_config_map := m\<rparr>) w ret" "reliable K \<longrightarrow> ret = 0"
    using laid_extend [OF laid same_space_refl _ far _ _ _ srv _ steady] q l by fastforce
  have low: "low_same t w" using w(4) q laid l by (auto simp: low_same_def filled_def laid_def)
  have run: "ecap_enter K q i len t = (if ret \<noteq> 0 then Some (ret, w)
      else do { x \<leftarrow> (if len = 0 then do { v \<leftarrow> vload q 4 w; vstore q 4 (v AND push_bit 20 0xffc) w } else Some w); Some (0, x) })"
    using w(1,2) by (simp only: ecap_enter_def l_def [symmetric] Let_def bind.bind_lunit prod.case)
  show ?thesis
  proof (cases "ret = 0 \<and> len = 0")
    case False
    with run l w(3,5) low show ?thesis by auto
  next
    case True
    then have inside: "q + 4 \<le> length (vconfig w)" using len(3) q(2) w(3) by (simp add: laid_def)
    obtain v where v: "vload q 4 w = Some v" using vload_in [OF inside] by blast
    obtain x where x: "vstore q 4 (v AND push_bit 20 0xffc) w = Some x" using vstore_ex [OF inside] by blast
    have "laid s ((q, i, l) # A) x" "low_same t x"
      using laid_step [OF w(3) cfg_step_vstore [OF x]] low_same_trans [OF low low_vstore [OF x q(1)]] by auto
    with run True v x l show ?thesis by (auto simp del: push_bit_numeral push_bit_of_Suc_0)
  qed
qed

lemma ecap_init_loop_step:
  assumes "PCI_CFG_SPACE_SIZE \<le> epos" "kcall K (Config (Read_config 4 epos)) t = ((0, v), t1)" "(ucast v :: u32) = h"
    and "ecap_length K (PCI_EXT_CAP_ID h) epos t1 = (len, u)"
  shows "ecap_init_loop K (Suc n) epos prev ecaps t =
    (if len < 0 then Some (Some 0, ecaps, u)
     else case (len = 0, prev) of
       (True, Some q) \<Rightarrow> do { w \<leftarrow> ecap_unlink q (PCI_EXT_CAP_NEXT h) u; ecap_init_loop K n (PCI_EXT_CAP_NEXT h) prev ecaps w }
     | _ \<Rightarrow> do { (ret, w) \<leftarrow> ecap_enter K epos (word_of_nat (PCI_EXT_CAP_ID h)) len u;
         if ret \<noteq> 0 then Some (Some ret, ecaps, w)
         else ecap_init_loop K n (PCI_EXT_CAP_NEXT h) (Some epos) (if len = 0 then ecaps else ecaps + 1) w })"
proof -
  note len = assms(4) [unfolded ecap_length_def]
  define nx where "nx = PCI_EXT_CAP_NEXT h"
  define ecap where "ecap = PCI_EXT_CAP_ID h"
  note run = ecap_init_loop.simps(2) [of K n epos prev ecaps t, unfolded assms(2) prod.case Let_def assms(3) len,
      folded nx_def ecap_def]
  have go: "\<not> epos < PCI_CFG_SPACE_SIZE" using assms(1) by simp
  show ?thesis
  proof (cases "len < 0 \<or> len = 0 \<and> prev \<noteq> None")
    case True
    then show ?thesis unfolding run ecap_unlink_def nx_def [symmetric] using go
      by (auto simp del: push_bit_numeral)
  next
    case False
    define bytes where "bytes = (if len = 0 then PCI_CAP_SIZEOF else nat len)"
    define m where "m = fill (pci_config_map u) epos bytes (word_of_nat ecap)"
    define f where "f = Option.bind m (\<lambda>m. vfio_fill_vconfig_bytes K epos bytes (u\<lparr>pci_config_map := m\<rparr>))"
    have "ecap_init_loop K (Suc n) epos prev ecaps t = Option.bind f (\<lambda>(ret, w).
        if ret \<noteq> 0 then Some (Some ret, ecaps, w)
        else do { w \<leftarrow> (if len = 0 then do { v \<leftarrow> vload epos 4 w; vstore epos 4 (v AND push_bit 20 0xffc) w } else Some w);
          ecap_init_loop K n nx (Some epos) (if len = 0 then ecaps else ecaps + 1) w })"
      unfolding run f_def m_def bytes_def using go False
      by (auto simp del: push_bit_numeral split: option.splits)
    moreover have "ecap_enter K epos (word_of_nat ecap) len u = Option.bind f (\<lambda>(ret, w).
        if ret \<noteq> 0 then Some (ret, w)
        else do { w \<leftarrow> (if len = 0 then do { v \<leftarrow> vload epos 4 w; vstore epos 4 (v AND push_bit 20 0xffc) w } else Some w);
          Some (0, w) })"
      unfolding ecap_enter_def f_def m_def bytes_def Let_def by simp
    ultimately show ?thesis using False unfolding nx_def [symmetric] ecap_def [symmetric]
      by (cases f) (auto simp del: push_bit_numeral split: option.splits)
  qed
qed

lemma ecap_length_value:
  assumes "ecap_length K ecap q t = (len, u)" "i = word_of_nat ecap" "PCI_CFG_SPACE_SIZE \<le> q"
    and "\<And>x. ecap \<le> PCI_EXT_CAP_ID_MAX \<Longrightarrow> pci_ext_cap_length ! ecap = 0xFF \<Longrightarrow> fst (vfio_ext_cap_len K ecap q x) \<le> int r"
    and "ecap \<le> PCI_EXT_CAP_ID_MAX \<Longrightarrow> pci_ext_cap_length ! ecap \<noteq> 0xFF \<Longrightarrow> pci_ext_cap_length ! ecap \<le> r"
  shows "len \<le> int r" "len = 0 \<or> \<not> tabled q i \<or> nat len = pci_ext_cap_length ! unat i"
    and "0 < len \<Longrightarrow> unat i \<le> PCI_EXT_CAP_ID_MAX"
proof -
  have i: "unat i = ecap" if "ecap \<le> PCI_EXT_CAP_ID_MAX" using that assms(2) by (simp add: unat_of_nat)
  have "ecap = PCI_EXT_CAP_ID_ERR \<or> ecap = PCI_EXT_CAP_ID_PWR" if "tabled q i" "ecap \<le> PCI_EXT_CAP_ID_MAX"
    using that assms(3) i by (auto simp: tabled_def)
  moreover have "pci_ext_cap_length ! PCI_EXT_CAP_ID_ERR \<noteq> 0xFF" "pci_ext_cap_length ! PCI_EXT_CAP_ID_PWR \<noteq> 0xFF"
    by (simp_all add: pci_ext_cap_length_def)
  ultimately show "len \<le> int r" "len = 0 \<or> \<not> tabled q i \<or> nat len = pci_ext_cap_length ! unat i"
    "0 < len \<Longrightarrow> unat i \<le> PCI_EXT_CAP_ID_MAX"
    using assms(1) assms(4) [of t] assms(5) i by (auto simp: ecap_length_def split: if_splits)
qed

text \<open>
  The walk over the extended list. The error of a length that cannot be found ends it with a return value of
  zero; what was laid out until then is in order.
\<close>

lemma ecap_init_loop_lays:
  assumes steady: "steady K mem"
  shows "ecap_listed K mem (cfg_size (pdev s)) epos cs \<Longrightarrow> laid s A t \<Longrightarrow> sorted_wrt apart cs \<Longrightarrow>
    \<forall>a \<in> set A. \<forall>c \<in> set cs. apart a c \<Longrightarrow>
    (case prev of Some q \<Rightarrow> PCI_CFG_SPACE_SIZE \<le> q \<and> q + 4 \<le> cfg_size (pdev s)
     | None \<Rightarrow> \<forall>c \<in> set (take 1 cs). 4 \<le> snd (snd c) \<and> unat (fst (snd c)) \<le> PCI_EXT_CAP_ID_MAX) \<Longrightarrow>
    \<exists>early k A' u. ecap_init_loop K fuel epos prev ecaps t = Some (early, k, u) \<and>
      (early = None \<or> early = Some 0 \<longrightarrow> laid s A' u \<and> low_same t u) \<and> (reliable K \<longrightarrow> early = None)"
proof (induction cs arbitrary: fuel epos A prev ecaps t)
  case Nil
  then show ?case by (cases fuel) (auto simp: low_same_def)
next
  case (Cons c cs)
  show ?case
  proof (cases fuel)
    case 0
    with Cons.prems(2) show ?thesis by (auto simp: low_same_def)
  next
    case (Suc f)
    obtain q i r where c: "c = (q, i, r)" by (cases c) auto
    from Cons.prems(1) c obtain h where h: "epos = q" "\<forall>k < 4. mem (q + k) = Some (ucast (drop_bit (8 * k) h))"
      "ecap_sound K (cfg_size (pdev s)) h (q, i, r)" "ecap_listed K mem (cfg_size (pdev s)) (PCI_EXT_CAP_NEXT h) cs" by auto
    define ecap where "ecap = PCI_EXT_CAP_ID h"
    have sound: "256 \<le> q" "q + r \<le> cfg_size (pdev s)" "q + 4 \<le> cfg_size (pdev s)" "i = word_of_nat ecap"
      "ecap \<le> PCI_EXT_CAP_ID_MAX \<Longrightarrow> pci_ext_cap_length ! ecap = 0xFF \<Longrightarrow> fst (vfio_ext_cap_len K ecap q x) \<le> int r"
      "ecap \<le> PCI_EXT_CAP_ID_MAX \<Longrightarrow> pci_ext_cap_length ! ecap \<noteq> 0xFF \<Longrightarrow> pci_ext_cap_length ! ecap \<le> r" for x
      using h(3) by (auto simp: ecap_sound_def ecap_def)
    obtain rc v t1 where 1: "kcall K (Config (Read_config 4 q)) t = ((rc, v), t1)" by (metis surj_pair)
    note k1 = laid_kcall [OF Cons.prems(2) 1]
    show ?thesis
    proof (cases "rc = 0")
      case False
      have "ecap_init_loop K fuel epos prev ecaps t = Some (Some rc, ecaps, t1)"
        unfolding Suc ecap_init_loop.simps(2) h(1) 1 prod.case using False sound(1) by simp
      with False reliable_read [OF _ 1] show ?thesis by auto
    next
      case True
      obtain len u where u: "ecap_length K ecap q t1 = (len, u)" by (metis surj_pair)
      have laid: "laid s A u" and same: "low_same t u"
        using laid_same [OF k1(1)] ecap_length_same [where t = t1 and K = K and e = ecap and p = q] k1(2) u
        by (auto simp: low_same_def same_space_def)
      have len: "len \<le> int r" "len = 0 \<or> \<not> tabled q i \<or> nat len = pci_ext_cap_length ! unat i" "0 < len \<Longrightarrow> unat i \<le> PCI_EXT_CAP_ID_MAX"
        using ecap_length_value [OF u sound(4,1,5,6)] by auto
      note run = ecap_init_loop_step [OF sound(1) 1 [unfolded True] steady_header [OF steady 1 [unfolded True] h(2)]
          u [unfolded ecap_def], of f prev ecaps, folded ecap_def sound(4), folded h(1) Suc]
      have apart: "\<forall>a \<in> set A. apart a (q, i, r)" "\<forall>b \<in> set cs. apart (q, i, r) b" "sorted_wrt apart cs"
        "\<forall>a \<in> set A. \<forall>b \<in> set cs. apart a b" using Cons.prems(3,4) c by auto
      consider "len < 0" | p where "len = 0" "prev = Some p" | "0 \<le> len" "len = 0 \<longrightarrow> prev = None" by fastforce
      then show ?thesis
      proof cases
        case 1
        with run laid same ecap_length_nonneg [OF _ u] show ?thesis by force
      next
        case (2 p)
        obtain w where w: "ecap_unlink p (PCI_EXT_CAP_NEXT h) u = Some w" "laid s A w" "low_same u w"
          using ecap_unlink_lays [OF laid] Cons.prems(5) 2(2) by fastforce
        obtain early k A' x where "ecap_init_loop K f (PCI_EXT_CAP_NEXT h) prev ecaps w = Some (early, k, x)"
          "early = None \<or> early = Some 0 \<longrightarrow> laid s A' x \<and> low_same w x" "reliable K \<longrightarrow> early = None"
          using Cons.IH [OF h(4) w(2) apart(3,4), of prev f ecaps] Cons.prems(5) 2(2) by auto
        moreover have "ecap_init_loop K fuel epos prev ecaps t = ecap_init_loop K f (PCI_EXT_CAP_NEXT h) prev ecaps w"
          using run 2 w(1) by (simp add: h(1))
        ultimately show ?thesis using low_same_trans [OF same low_same_trans [OF w(3)]] by (intro exI conjI) auto
      next
        case 3
        have first: "unat i \<le> PCI_EXT_CAP_ID_MAX" "len = 0 \<longrightarrow> 4 \<le> r"
          using 3 len(3) Cons.prems(5) c by (cases "len = 0"; auto split: option.splits)+
        obtain ret l w where w: "ecap_enter K q i len u = Some (ret, w)" "l \<le> r" "laid s ((q, i, l) # A) w" "low_same u w"
          "reliable K \<longrightarrow> ret = 0"
          using ecap_enter_lays [OF steady laid apart(1) sound(1,2) first(1) 3(1) len(1) first(2) len(2)] by blast
        define n where "n = (if len = 0 then ecaps else ecaps + 1)"
        have "\<forall>a \<in> set ((q, i, l) # A). \<forall>b \<in> set cs. apart a b"
          using apart(2,4) apart_shrink [OF _ w(2)] apart_sym by (metis set_ConsD)
        then obtain early k A' x where "ecap_init_loop K f (PCI_EXT_CAP_NEXT h) (Some q) n w = Some (early, k, x)"
          "early = None \<or> early = Some 0 \<longrightarrow> laid s A' x \<and> low_same w x" "reliable K \<longrightarrow> early = None"
          using Cons.IH [OF h(4) w(3) apart(3), of "Some q" f n] sound(1,3) by auto
        moreover have "ecap_init_loop K fuel epos prev ecaps t = (if ret \<noteq> 0 then Some (Some ret, ecaps, w)
            else ecap_init_loop K f (PCI_EXT_CAP_NEXT h) (Some q) n w)"
          using run 3 w(1) by (auto simp: h(1) n_def split: option.splits)
        ultimately show ?thesis using low_same_trans [OF same low_same_trans [OF w(4)]] w(5)
          by (cases "ret = 0") (intro exI conjI, auto)
      qed
    qed
  qed
qed

section \<open>The whole initialisation\<close>

lemma ecap_init_lays:
  assumes steady: "steady K mem" and laid: "laid s A t" and ecaps: "PCI_CFG_SPACE_SIZE < cfg_size (pdev s) \<longrightarrow> has_ecaps K mem (cfg_size (pdev s)) cs"
    and low: "\<forall>a \<in> set A. fst a < PCI_CFG_SPACE_SIZE" and dword: "cfg_size (pdev s) mod 4 = 0"
  shows "\<exists>ret A' u. vfio_ecap_init K t = Some (ret, u) \<and> (ret = 0 \<longrightarrow> laid s A' u \<and> low_same t u) \<and>
    (reliable K \<longrightarrow> ret = 0)"
proof (cases "extended_caps t")
  case False
  with laid show ?thesis by (auto simp: vfio_ecap_init_def low_same_def)
next
  case True
  then have big: "PCI_CFG_SPACE_SIZE + 4 \<le> cfg_size (pdev s)" using laid dword by (auto simp: laid_def)
  have ecaps: "has_ecaps K mem (cfg_size (pdev s)) cs" using ecaps big by simp
  then have list: "ecap_listed K mem (cfg_size (pdev s)) PCI_CFG_SPACE_SIZE cs" "sorted_wrt apart cs"
    by (simp_all add: has_ecaps_def)
  have high: "PCI_CFG_SPACE_SIZE \<le> fst c" if "ecap_listed K mem n e cs" "c \<in> set cs" for c e n
    using that by (induction cs arbitrary: e) (auto simp: ecap_sound_def)
  have "apart a c" if "a \<in> set A" "c \<in> set cs" for a c
  proof -
    have "fst a + snd (snd a) \<le> PCI_CFG_SPACE_SIZE"
      using mapped_extent(3) [of A "pci_config_map t" "fst a" "fst (snd a)" "snd (snd a)"] laid low that(1) by (simp add: laid_def)
    with high [OF list(1) that(2)] low that(1) show ?thesis by (cases a; cases c) fastforce
  qed
  then have far: "\<forall>a \<in> set A. \<forall>c \<in> set cs. apart a c" by blast
  have first: "\<forall>c \<in> set (take 1 cs). 4 \<le> snd (snd c) \<and> unat (fst (snd c)) \<le> PCI_EXT_CAP_ID_MAX"
    using ecaps by (cases cs) (auto simp: has_ecaps_def)
  obtain early k A' u where u:
    "ecap_init_loop K ((cfg_size (pdev s) - PCI_CFG_SPACE_SIZE) div PCI_CAP_SIZEOF) PCI_CFG_SPACE_SIZE None 0 t = Some (early, k, u)"
    "early = None \<or> early = Some 0 \<longrightarrow> laid s A' u \<and> low_same t u" "reliable K \<longrightarrow> early = None"
    using ecap_init_loop_lays [OF steady list(1) laid list(2) far, of None, unfolded option.case, OF first] by blast
  have cfg: "cfg_size (pdev t) = cfg_size (pdev s)" using laid by (simp add: laid_def)
  show ?thesis
  proof (cases "early = None \<and> k = 0")
    case True
    then have "PCI_CFG_SPACE_SIZE + 4 \<le> length (vconfig u)" using u(2) big by (simp add: laid_def)
    then obtain w where w: "vstore PCI_CFG_SPACE_SIZE 4 0 u = Some w" using vstore_ex by blast
    have "laid s A' w" "low_same t w"
      using True u(2) laid_step [OF _ cfg_step_vstore [OF w]] low_same_trans [OF _ low_vstore [OF w]] by auto
    with True u(1) w \<open>extended_caps t\<close> cfg show ?thesis by (auto simp: vfio_ecap_init_def)
  next
    case False
    with u \<open>extended_caps t\<close> cfg show ?thesis by (cases early) (auto simp: vfio_ecap_init_def)
  qed
qed

text \<open>The header: its bytes are the device's, but for the identity and the interrupt pin.\<close>

lemma set_rbar_ex:
  assumes "64 \<le> length (vconfig s)"
  shows "\<exists>l. set_rbar s = Some (s\<lparr>rbar := l\<rparr>) \<and> length l = 7"
  using assms by (auto simp: set_rbar_def vload_def load_in intro: exI [of _ "[_, _, _, _, _, _, _]"])

definition header_step :: "vfio_pci_device \<Rightarrow> vfio_pci_device \<Rightarrow> bool" where
  "header_step t u \<longleftrightarrow> cfg_step t u \<and> (\<forall>p \<in> {PCI_STATUS, PCI_CAPABILITY_LIST}. vconfig u ! p = vconfig t ! p)"

lemma header_store:
  assumes "64 \<le> length (vconfig t)" "p + n \<le> PCI_STATUS \<or> PCI_CAPABILITY_LIST < p \<and> p + n \<le> 64"
  shows "\<exists>u. vstore p n v t = Some u \<and> header_step t u"
proof -
  have len: "p + n \<le> length (vconfig t)" using assms by auto
  obtain u where u: "vstore p n v t = Some u" "cfg_step t u" using vstore_ex [OF len] by blast
  then have "header_step t u" using assms by (auto simp: header_step_def vstore_def nth_store_outside)
  with u show ?thesis by blast
qed

lemma header_step_trans: "header_step t u \<Longrightarrow> header_step u w \<Longrightarrow> header_step t w"
  by (auto simp: header_step_def intro: cfg_step_trans)

lemma init_virtfn_step:
  assumes "64 \<le> length (vconfig t)"
  shows "\<exists>u. init_virtfn t = Some u \<and> header_step t u"
proof (cases "is_virtfn (pdev t)")
  case False
  then show ?thesis by (simp add: init_virtfn_def header_step_def)
next
  case True
  obtain a where a: "vstore PCI_VENDOR_ID 2 (ucast (vendor (pdev t))) t = Some a" "header_step t a"
    using header_store [OF assms, of 0 2] by auto
  have la: "64 \<le> length (vconfig a)" using a(2) assms by (simp add: header_step_def cfg_step_def)
  obtain b where b: "vstore PCI_DEVICE_ID 2 (ucast (device_id (pdev a))) a = Some b" "header_step a b"
    using header_store [OF la, of 2 2] by auto
  have lb: "64 \<le> length (vconfig b)" using b(2) la by (simp add: header_step_def cfg_step_def)
  obtain c where c: "vstore PCI_INTERRUPT_PIN 1 0 b = Some c" "header_step b c"
    using header_store [OF lb, of PCI_INTERRUPT_PIN 1] by auto
  show ?thesis using True a(1) b(1) c(1) header_step_trans [OF header_step_trans [OF a(2) b(2)] c(2)]
    by (simp add: init_virtfn_def)
qed

text \<open>The map and the virtual space before any capability is known.\<close>

lemma blank_map:
  assumes "64 \<le> n" "length g = n"
  shows "\<exists>m m'. fill g 0 PCI_STD_HEADER_SIZEOF 0 = Some m \<and>
    fill m PCI_STD_HEADER_SIZEOF (n - PCI_STD_HEADER_SIZEOF) PCI_CAP_ID_INVALID = Some m' \<and> length m' = n \<and> mapped [] m'"
proof -
  obtain m where m: "fill g 0 64 0 = Some m" using assms by (simp add: fill_in)
  have lm: "length m = n" using length_fill [OF m] assms by simp
  obtain m' where m': "fill m 64 (n - 64) PCI_CAP_ID_INVALID = Some m'" using assms lm by (simp add: fill_in)
  have "mapped [] m'"
    using nth_fill [OF m] nth_fill [OF m'] lm assms length_fill [OF m'] by (auto simp: mapped_def)
  with m m' lm length_fill [OF m'] show ?thesis by auto
qed

definition hide_pin :: "kernel \<Rightarrow> vfio_pci_device \<Rightarrow> vfio_pci_device option" where
  "hide_pin K s = (if \<not> IS_ENABLED_VFIO_PCI_INTX K \<or> nointx s then vstore PCI_INTERRUPT_PIN 1 0 s else Some s)"

lemma config_init_stages:
  assumes "kcall_rc K (Mem Alloc) s = (p1, s1)" "kcall_rc K (Mem Alloc) s1 = (p2, s2)" "p1 \<noteq> 0" "p2 \<noteq> 0"
    and "fill (map (heap_garbage K) [0..<cfg_size (pdev s)]) 0 PCI_STD_HEADER_SIZEOF 0 = Some m"
    and "fill m PCI_STD_HEADER_SIZEOF (cfg_size (pdev s) - PCI_STD_HEADER_SIZEOF) PCI_CAP_ID_INVALID = Some m'"
    and "vfio_fill_vconfig_bytes K 0 PCI_STD_HEADER_SIZEOF
      (s2\<lparr>pci_config_map := m', vconfig := map (heap_garbage K) [0..<cfg_size (pdev s)]\<rparr>) = Some (ret, t1)"
    and "set_rbar (t1\<lparr>bardirty := True\<rparr>) = Some t2" "init_virtfn t2 = Some t3" "hide_pin K t3 = Some t4"
    and "vfio_cap_init K t4 = Some (ret', t5)"
  shows "vfio_config_init K s =
    (if ret \<noteq> 0 then Some (config_init_fail K ret t1)
     else if ret' \<noteq> 0 then Some (config_init_fail K ret' t5)
     else do { (ret, s) \<leftarrow> vfio_ecap_init K t5; Some (if ret \<noteq> 0 then config_init_fail K ret s else (0, s)) })"
  unfolding vfio_config_init_def Let_def assms(1,2) prod.case assms(5,6) bind.bind_lunit assms(7-9)
    assms(10) [unfolded hide_pin_def] assms(11)
  using assms(3,4) by (auto simp: assms)

end
