(* ===== verification/Config_Open_Props.thy ===== *)
theory Config_Open_Props
  imports Config_Open_Ext Config_Sample
begin

text \<open>
  Opening a device whose capability lists are in order: the properties of \<^verbatim>\<open>vfio_config_init\<close>, and the
  precondition of every access of configuration space as their consequence.
\<close>

definition openable :: "kernel \<Rightarrow> vfio_pci_device \<Rightarrow> (nat \<rightharpoonup> u8) \<Rightarrow> extent list \<Rightarrow> extent list \<Rightarrow> bool" where
  "openable K s mem cs es \<longleftrightarrow>
     PCI_CFG_SPACE_SIZE \<le> cfg_size (pdev s) \<and> cfg_size (pdev s) mod 4 = 0 \<and> cfg_size (pdev s) < 2 ^ 31 \<and>
     msi_perm s = NULL \<and> (extended_caps s \<longrightarrow> PCI_CFG_SPACE_SIZE < cfg_size (pdev s)) \<and>
     errno_law K \<and> steady K mem \<and> has_caps K mem cs \<and>
     (PCI_CFG_SPACE_SIZE < cfg_size (pdev s) \<longrightarrow> has_ecaps K mem (cfg_size (pdev s)) es)"

lemma config_init_fail_negative:
  "errno_law K \<Longrightarrow> r \<noteq> 0 \<Longrightarrow> \<exists>e u. config_init_fail K r t = (e, u) \<and> e < 0"
  by (auto simp: config_init_fail_def errno_law_def)

lemma header_laid: "laid s [] t \<Longrightarrow> header_step t u \<Longrightarrow> laid s [] u"
  by (auto simp: header_step_def intro: laid_step)

text \<open>The header of the virtual space, before the capabilities.\<close>

lemma config_init_header:
  assumes n: "PCI_CFG_SPACE_SIZE \<le> cfg_size (pdev s)" and dev: "msi_perm s = NULL" "extended_caps s \<longrightarrow> PCI_CFG_SPACE_SIZE < cfg_size (pdev s)"
    and steady: "steady K mem" and alloc: "same_space s s2" "msi_perm s2 = NULL"
    and m: "length m = cfg_size (pdev s)" "mapped [] m" and g: "length g = cfg_size (pdev s)"
  shows "\<exists>ret t1 t2 t3 t4. vfio_fill_vconfig_bytes K 0 PCI_STD_HEADER_SIZEOF (s2\<lparr>pci_config_map := m, vconfig := g\<rparr>) = Some (ret, t1) \<and>
    set_rbar (t1\<lparr>bardirty := True\<rparr>) = Some t2 \<and> init_virtfn t2 = Some t3 \<and> hide_pin K t3 = Some t4 \<and> laid s [] t4 \<and>
    (ret = 0 \<longrightarrow> (\<forall>p \<in> {PCI_STATUS, PCI_CAPABILITY_LIST}. \<forall>b. mem p = Some b \<longrightarrow> vconfig t4 ! p = b)) \<and>
    (reliable K \<longrightarrow> ret = 0)"
proof -
  define t0 where "t0 = s2\<lparr>pci_config_map := m, vconfig := g\<rparr>"
  obtain ret t1 where t1: "vfio_fill_vconfig_bytes K 0 64 t0 = Some (ret, t1)" "filled mem 0 64 t0 t1 ret"
    "reliable K \<longrightarrow> ret = 0" using fill_vconfig [OF steady, of 0 64 t0] n g by (auto simp: t0_def)
  have keep: "cfg_step t0 t1" using t1(2) by (simp add: filled_def)
  then have len1: "length (vconfig t1) = cfg_size (pdev s)" using g by (simp add: cfg_step_def t0_def)
  obtain l where l: "set_rbar (t1\<lparr>bardirty := True\<rparr>) = Some (t1\<lparr>bardirty := True, rbar := l\<rparr>)" "length l = 7"
    using set_rbar_ex [of "t1\<lparr>bardirty := True\<rparr>"] len1 n by auto
  define t2 where "t2 = t1\<lparr>bardirty := True, rbar := l\<rparr>"
  have "quiet s t0" using alloc(1) by (simp add: same_space_def t0_def quiet_def)
  then have "quiet s t1" using keep quiet_trans by (auto simp: cfg_step_def)
  then have "quiet s t2" by (simp add: t2_def quiet_def)
  then have laid2: "laid s [] t2"
    using alloc keep m len1 l(2) dev(2) by (auto simp: laid_def t2_def cfg_step_def t0_def same_space_def)
  have len2: "64 \<le> length (vconfig t2)" using len1 n by (simp add: t2_def)
  obtain t3 where t3: "init_virtfn t2 = Some t3" "header_step t2 t3" using init_virtfn_step [OF len2] by blast
  have len3: "64 \<le> length (vconfig t3)" using t3(2) len2 by (simp add: header_step_def cfg_step_def)
  obtain t4 where t4: "hide_pin K t3 = Some t4" "header_step t3 t4"
    using header_store [OF len3, of PCI_INTERRUPT_PIN 1]
    by (cases "\<not> IS_ENABLED_VFIO_PCI_INTX K \<or> nointx t3") (auto simp: hide_pin_def header_step_def)
  have step: "header_step t2 t4" using header_step_trans [OF t3(2) t4(2)] .
  have bytes: "ret = 0 \<longrightarrow> (\<forall>p \<in> {PCI_STATUS, PCI_CAPABILITY_LIST}. \<forall>b. mem p = Some b \<longrightarrow> vconfig t4 ! p = b)"
    using t1(2) step by (auto simp: filled_def header_step_def t2_def)
  from t1(1) [unfolded t0_def] l(1) [folded t2_def] t3(1) t4(1) header_laid [OF laid2 step] bytes t1(3)
  show ?thesis
    by - (rule exI [of _ ret], rule exI [of _ t1], rule exI [of _ t2], rule exI [of _ t3], rule exI [of _ t4],
      (intro conjI; assumption))
qed

lemma config_init_lays:
  assumes "openable K s mem cs es"
  shows "\<exists>ret s' A. vfio_config_init K s = Some (ret, s') \<and> ret \<le> 0 \<and> (reliable K \<longrightarrow> ret = 0) \<and>
    (ret = 0 \<longrightarrow> laid s A s' \<and> user_list (vconfig s') (map place (filter shown cs)))"
proof -
  let ?n = "cfg_size (pdev s)" and ?g = "map (heap_garbage K) [0..<cfg_size (pdev s)]"
  have n: "256 \<le> ?n" "?n mod 4 = 0" and dev: "msi_perm s = NULL" "extended_caps s \<longrightarrow> 256 < ?n"
    and laws: "errno_law K" "steady K mem" "has_caps K mem cs" "256 < ?n \<longrightarrow> has_ecaps K mem ?n es"
    using assms by (simp_all add: openable_def)
  obtain p1 s1 where 1: "kcall_rc K (Mem Alloc) s = (p1, s1)" by (metis surj_pair)
  obtain p2 s2 where 2: "kcall_rc K (Mem Alloc) s1 = (p2, s2)" by (metis surj_pair)
  have failed: "\<exists>ret s' A. r = (ret, s') \<and> ret \<le> 0 \<and> (reliable K \<longrightarrow> ret = 0) \<and>
      (ret = 0 \<longrightarrow> laid s A s' \<and> user_list (vconfig s') (map place (filter shown cs)))"
    if "r = config_init_fail K e t" "e \<noteq> 0" "\<not> reliable K" for r e t
    using that config_init_fail_negative [OF laws(1) that(2), of t] by force
  have alloc: "reliable K \<Longrightarrow> p1 \<noteq> 0 \<and> p2 \<noteq> 0" using 1 2 by (auto simp: reliable_def alloc_succeeds_def kcall_rc_Pair)
  have s2: "same_space s s2" "msi_perm s2 = NULL"
    using same_space_kcall(2) [of s s "Mem Alloc" K] same_space_kcall(2) [of s s1 "Mem Alloc" K] 1 2 dev(1)
    by (auto simp: kcall_rc_Pair)
  obtain m m' where m: "fill ?g 0 64 0 = Some m" "fill m 64 (?n - 64) PCI_CAP_ID_INVALID = Some m'" "length m' = ?n"
    "mapped [] m'" using blank_map [of ?n ?g] n(1) by auto
  obtain ret t1 t2 t3 t4 where h: "vfio_fill_vconfig_bytes K 0 64 (s2\<lparr>pci_config_map := m', vconfig := ?g\<rparr>) = Some (ret, t1)"
    "set_rbar (t1\<lparr>bardirty := True\<rparr>) = Some t2" "init_virtfn t2 = Some t3" "hide_pin K t3 = Some t4" "laid s [] t4"
    "ret = 0 \<longrightarrow> (\<forall>p \<in> {PCI_STATUS, PCI_CAPABILITY_LIST}. \<forall>b. mem p = Some b \<longrightarrow> vconfig t4 ! p = b)" "reliable K \<longrightarrow> ret = 0"
    using config_init_header [OF n(1) dev laws(2) s2 m(3,4), of ?g] by (simp only: length_map length_upt diff_zero) blast
  show ?thesis
  proof (cases "p1 = 0 \<or> p2 = 0 \<or> ret \<noteq> 0")
    case True
    moreover have "vfio_config_init K s = Some (config_init_fail K ret t1)" if "\<not> (p1 = 0 \<or> p2 = 0)" "ret \<noteq> 0"
      using that h(1) m(1,2) by (simp add: vfio_config_init_def Let_def 1 2 del: upt_Suc)
    ultimately show ?thesis using failed [OF refl] alloc h(7)
      by (cases "p1 = 0 \<or> p2 = 0") (auto simp: vfio_config_init_def Let_def 1 2)
  next
    case False
    obtain ret' A t5 where t5: "vfio_cap_init K t4 = Some (ret', t5)" "reliable K \<longrightarrow> ret' = 0"
      "ret' = 0 \<longrightarrow> laid s A t5 \<and> (\<forall>a \<in> set A. fst a < 256) \<and>
         (\<forall>w. low_same t5 w \<longrightarrow> user_list (vconfig w) (map place (filter shown cs)))"
      using cap_init_lays [OF laws(2,1) n(1) laws(3) h(5)] h(6) False by blast
    note run = config_init_stages [OF 1 2 _ _ m(1,2) h(1-4) t5(1)]
    show ?thesis
    proof (cases "ret' = 0")
      case fail: False
      with run False have "vfio_config_init K s = Some (config_init_fail K ret' t5)" by simp
      with failed [OF refl fail] t5(2) fail show ?thesis by simp
    next
      case True
      obtain ret'' A' t6 where t6: "vfio_ecap_init K t5 = Some (ret'', t6)" "ret'' = 0 \<longrightarrow> laid s A' t6 \<and> low_same t5 t6"
        "reliable K \<longrightarrow> ret'' = 0"
        using ecap_init_lays [OF laws(2) _ laws(4) _ n(2)] t5(3) True by blast
      have "vfio_config_init K s = Some (if ret'' \<noteq> 0 then config_init_fail K ret'' t6 else (0, t6))"
        using run False True t6(1) by simp
      with t6(2,3) t5(3) True failed [OF refl] show ?thesis by (cases "ret'' = 0") auto
    qed
  qed
qed

section \<open>A device that can be opened\<close>

text \<open>
  The sample device with an extended space: error reporting at 0x100, a capability the driver does not know at
  0x140, a serial number at 0x180. The kernel answers every read from the same bytes.
\<close>

definition open_header :: "nat \<Rightarrow> u32" where
  "open_header q = (if q = 0x100 then 0x14010001 else if q = 0x140 then 0x18010019 else if q = 0x180 then 0x10003 else 0)"

definition open_byte :: "nat \<Rightarrow> u8" where
  "open_byte p = (if p < PCI_CFG_SPACE_SIZE then sample_cfg ! p else ucast (drop_bit (8 * (p mod 4)) (open_header (p - p mod 4))))"

definition open_kernel :: kernel where
  "open_kernel = (sample_kernel [])\<lparr>respond := \<lambda>h c. case c of
       Config (Read_config n p) \<Rightarrow> (0, ucast (le_val (map (\<lambda>k. open_byte (p + k)) [0..<n])))
     | _ \<Rightarrow> sample_respond [] h c\<rparr>"

definition open_device :: vfio_pci_device where
  "open_device = sample_device\<lparr>pdev := sample_pdev\<lparr>cfg_size := 4096\<rparr>\<rparr>"

definition open_caps :: "extent list" where
  "open_caps = [(0x40, 0x01, 8), (0x48, 0x05, 24), (0x60, 0x03, 8), (0x70, 0x10, 52), (0xb0, 0x13, 6), (0xc0, 0x09, 64)]"

definition open_ecaps :: "extent list" where
  "open_ecaps = [(0x100, 0x01, 64), (0x140, 0x19, 64), (0x180, 0x03, 64)]"

lemma open_steady: "steady open_kernel (\<lambda>p. Some (open_byte p))"
  unfolding steady_def
proof (intro allI impI)
  fix h n p k b
  assume n: "n \<le> 4" "k < (n::nat)" "Some (open_byte (p + k)) = Some b"
  let ?bs = "map (\<lambda>k. open_byte (p + k)) [0..<n]"
  have "le_bytes n (le_val ?bs) = ?bs" using le_bytes_le_val [of ?bs] n(1) by simp
  then have "ucast (drop_bit (8 * k) (le_val ?bs)) = ?bs ! k" using nth_le_bytes [OF n(2)] by metis
  moreover have "(ucast (ucast (le_val ?bs) :: u64) :: u32) = le_val ?bs" by (rule bit_word_eqI) (simp add: bit_simps)
  ultimately show "case respond open_kernel h (Config (Read_config n p)) of (rc, v) \<Rightarrow>
      rc = 0 \<longrightarrow> (ucast (drop_bit (8 * k) (ucast v :: u32)) :: u8) = b"
    using n by (simp add: open_kernel_def)
qed

lemma open_errno: "errno_law open_kernel"
  by (simp add: errno_law_def open_kernel_def sample_kernel_def)

lemma msi_len_le: "msi_len flags \<le> 24"
  by (simp add: msi_len_def)

lemma msi_cap_len_bound:
  assumes "errno_law K" "vfio_msi_cap_len K pos s = Some (len, s')"
  shows "len < 0 \<or> 2 \<le> len \<and> len \<le> 24"
proof -
  have neg: "rc \<noteq> 0 \<Longrightarrow> err_to_errno K rc < 0" for rc
    using assms(1) by (metis errno_law_def not_less_iff_gr_or_eq order_le_less)
  have perm: "r = 0 \<or> r = - ENOMEM" if "init_perm K direct_perm n f u = Some (r, t, w)" for r n f t and u w :: vfio_pci_device
    using that by (auto simp: init_perm_def case_prod_unfold bind_eq_Some_conv split: if_splits)
  have "len \<in> {- ENOMEM} \<union> {e. e < 0} \<union> range (\<lambda>flags. int (msi_len flags))"
    using assms(2) unfolding vfio_msi_cap_len_def msi_len_def [symmetric] init_pci_cap_msi_perm_def Let_def
    by (auto simp: case_prod_unfold bind_eq_Some_conv neg split: if_splits dest!: perm)
  then show ?thesis using msi_len_le by (fastforce simp: msi_len_def)
qed

lemma open_bytes: "open_byte 0x34 = 0x40" "open_byte 6 = 0x10" "open_byte 0x40 = 1" "open_byte 0x41 = 0x48" "open_byte 0x48 = 5"
  "open_byte 0x49 = 0x60" "open_byte 0x60 = 3" "open_byte 0x61 = 0x70" "open_byte 0x70 = 0x10" "open_byte 0x71 = 0xb0"
  "open_byte 0xb0 = 0x13" "open_byte 0xb1 = 0xc0" "open_byte 0xc0 = 9" "open_byte 0xc1 = 0" "open_byte 0xc2 = 0x10"
  by code_simp+

lemma open_lengths:
  "vfio_cap_len open_kernel 5 pos s = Some (len, s') \<Longrightarrow> len < 0 \<or> 2 \<le> len \<and> len \<le> 24"
  "vfio_cap_len open_kernel 0x10 pos s = Some (len, s') \<Longrightarrow> 2 \<le> len \<and> len \<le> 52"
  "vfio_cap_len open_kernel 9 0xc0 s = Some (len, s') \<Longrightarrow> len = 16"
proof -
  show "vfio_cap_len open_kernel 5 pos s = Some (len, s') \<Longrightarrow> len < 0 \<or> 2 \<le> len \<and> len \<le> 24"
    using msi_cap_len_bound [OF open_errno] by (simp add: vfio_cap_len_def)
  show "vfio_cap_len open_kernel 0x10 pos s = Some (len, s') \<Longrightarrow> 2 \<le> len \<and> len \<le> 52"
    by (auto simp: vfio_cap_len_def case_prod_unfold Let_def split: if_splits)
  show "vfio_cap_len open_kernel 9 0xc0 s = Some (len, s') \<Longrightarrow> len = 16"
    using open_bytes(15) by (auto simp: vfio_cap_len_def cap_byte_def kcall_Pair open_kernel_def)
qed

lemma open_has_caps: "has_caps open_kernel (\<lambda>p. Some (open_byte p)) open_caps"
proof -
  have "sorted_wrt apart open_caps" by (simp add: open_caps_def)
  moreover have "cap_listed open_kernel (\<lambda>p. Some (open_byte p)) 0x40 open_caps"
    using open_lengths(1,2) by (simp add: open_caps_def open_bytes pci_cap_length_def) (auto dest!: open_lengths(3))
  ultimately show ?thesis by (simp add: has_caps_def open_caps_def open_bytes)
qed

lemma open_header_bytes: "q mod 4 = 0 \<Longrightarrow> PCI_CFG_SPACE_SIZE \<le> q \<Longrightarrow>
    \<forall>k < 4. open_byte (q + k) = ucast (drop_bit (8 * k) (open_header q))"
proof (intro allI impI)
  fix k :: nat assume "q mod 4 = 0" "PCI_CFG_SPACE_SIZE \<le> q" "k < 4"
  then obtain j where "q = 4 * j" by auto
  with \<open>k < 4\<close> have "(q + k) mod 4 = k" by simp
  with \<open>PCI_CFG_SPACE_SIZE \<le> q\<close> show "open_byte (q + k) = ucast (drop_bit (8 * k) (open_header q))"
    by (simp add: open_byte_def)
qed

lemma open_ecap_listed:
  assumes "ecap_listed open_kernel (\<lambda>p. Some (open_byte p)) 4096 (PCI_EXT_CAP_NEXT (open_header q)) cs"
    and "q mod 4 = 0" "PCI_CFG_SPACE_SIZE \<le> q" "ecap_sound open_kernel 4096 (open_header q) (q, i, r)"
  shows "ecap_listed open_kernel (\<lambda>p. Some (open_byte p)) 4096 q ((q, i, r) # cs)"
  using assms open_header_bytes [OF assms(2,3)] by (auto intro!: exI [of _ "open_header q"])

lemma open_headers:
  "PCI_EXT_CAP_NEXT (open_header 0x100) = 0x140" "PCI_EXT_CAP_NEXT (open_header 0x140) = 0x180"
  "PCI_EXT_CAP_NEXT (open_header 0x180) = 0" "PCI_EXT_CAP_ID (open_header 0x100) = 1"
  "PCI_EXT_CAP_ID (open_header 0x140) = 0x19" "PCI_EXT_CAP_ID (open_header 0x180) = 3"
  by code_simp+

lemma open_sound:
  "ecap_sound open_kernel 4096 (open_header 0x100) (0x100, 1, 64)"
  "ecap_sound open_kernel 4096 (open_header 0x140) (0x140, 0x19, 64)"
  "ecap_sound open_kernel 4096 (open_header 0x180) (0x180, 3, 64)"
  unfolding ecap_sound_def prod.case open_headers by (simp_all add: pci_ext_cap_length_def)

lemma open_has_ecaps: "has_ecaps open_kernel (\<lambda>p. Some (open_byte p)) 4096 open_ecaps"
proof -
  let ?L = "ecap_listed open_kernel (\<lambda>p. Some (open_byte p)) 4096"
  have "?L (PCI_EXT_CAP_NEXT (open_header 0x180)) []" unfolding open_headers by simp
  then have "?L 0x180 [(0x180, 3, 64)]" by (rule open_ecap_listed [OF _ _ _ open_sound(3)]) simp_all
  then have "?L (PCI_EXT_CAP_NEXT (open_header 0x140)) [(0x180, 3, 64)]" unfolding open_headers .
  then have "?L 0x140 [(0x140, 0x19, 64), (0x180, 3, 64)]" by (rule open_ecap_listed [OF _ _ _ open_sound(2)]) simp_all
  then have "?L (PCI_EXT_CAP_NEXT (open_header 0x100)) [(0x140, 0x19, 64), (0x180, 3, 64)]" unfolding open_headers .
  then have "?L PCI_CFG_SPACE_SIZE open_ecaps"
    unfolding open_ecaps_def by (rule open_ecap_listed [OF _ _ _ open_sound(1)]) simp_all
  moreover have "sorted_wrt apart open_ecaps" by (simp add: open_ecaps_def tabled_def)
  ultimately show ?thesis by (simp only: has_ecaps_def) (simp add: open_ecaps_def)
qed

lemma open_device_openable: "openable open_kernel open_device (\<lambda>p. Some (open_byte p)) open_caps open_ecaps"
  using open_errno open_steady open_has_caps open_has_ecaps
  by (simp add: openable_def open_device_def sample_device_def)

lemma open_device_irqs: "irq_ok open_device" "intx_armed open_device"
  by (simp_all add: irq_ok_def irq_inv_def balanced_def open_device_def sample_device_def
        refs_def lines_def held_refs_def held_lines_def intx_armed_def split: irq_cookie.splits)

section \<open>Properties\<close>

lemma laid_config_ok:
  assumes laid: "laid s A t" and n: "64 \<le> cfg_size (pdev s)" "cfg_size (pdev s) mod 4 = 0" "cfg_size (pdev s) < 2 ^ 31"
    and irq: "irq_ok s" "intx_armed s"
  shows "config_ok ready_tables t"
proof -
  have "caps_fit ready_tables t" by (rule layout_caps_fit [of A]) (use laid n in \<open>simp_all add: laid_def\<close>)
  with laid n irq quiet_ok quiet_intx_armed show ?thesis
    by (auto simp: config_ok_def config_sized_def laid_def mapped_def)
qed

lemma laid_msi_perm: "laid s A t \<Longrightarrow> msi_perm t \<noteq> Freed"
  by (auto simp: laid_def)

text \<open>C3. Opening a device establishes the precondition of every access of its configuration space. If the device's
  capability lists are what the PCI specification makes them, setting up the virtual space does not leave its
  buffers, whichever reads and allocations fail, and if it succeeds then the tables, the map and the handlers fit together.\<close>

theorem opened_config_ok:
  assumes "openable K s mem cs es" "irq_ok s" "intx_armed s"
  shows "\<exists>ret s'. vfio_config_init K s = Some (ret, s') \<and> (reliable K \<longrightarrow> ret = 0) \<and>
    (ret < 0 \<or> ret = 0 \<and> config_ok ready_tables s')"
proof -
  have n: "64 \<le> cfg_size (pdev s)" "cfg_size (pdev s) mod 4 = 0" "cfg_size (pdev s) < 2 ^ 31"
    using assms(1) by (simp_all add: openable_def)
  obtain ret s' A where r: "vfio_config_init K s = Some (ret, s')" "ret \<le> 0" "reliable K \<longrightarrow> ret = 0" "ret = 0 \<longrightarrow> laid s A s'"
    using config_init_lays [OF assms(1)] by blast
  with laid_config_ok [OF _ n assms(2,3)] show ?thesis by (intro exI [of _ ret] exI [of _ s']) force
qed

lemma open_reliable: "reliable open_kernel"
  by (simp add: reliable_def alloc_succeeds_def open_kernel_def)

theorem opened_config_ok_witness:
  "\<exists>s'. vfio_config_init open_kernel open_device = Some (0, s') \<and> config_ok ready_tables s'"
  using opened_config_ok [OF open_device_openable open_device_irqs] open_reliable by fastforce

text \<open>C6. The user sees exactly the capabilities that the driver can serve: after the open, the list that is linked
  through the virtual space is the list of the device without the capabilities whose length the driver does not
  know, in the same order, and the status register announces a list only if there is one.\<close>

theorem user_sees_known_capabilities:
  assumes "openable K s mem cs es"
  shows "\<exists>ret s'. vfio_config_init K s = Some (ret, s') \<and> (reliable K \<longrightarrow> ret = 0) \<and>
    (ret < 0 \<or> ret = 0 \<and> user_list (vconfig s') (map place (filter shown cs)))"
proof -
  obtain ret s' A where r: "vfio_config_init K s = Some (ret, s')" "ret \<le> 0" "reliable K \<longrightarrow> ret = 0"
    "ret = 0 \<longrightarrow> user_list (vconfig s') (map place (filter shown cs))"
    using config_init_lays [OF assms] by blast
  then show ?thesis by (intro exI [of _ ret] exI [of _ s']) force
qed

theorem user_sees_known_capabilities_witness:
  "\<exists>s'. vfio_config_init open_kernel open_device = Some (0, s') \<and>
    user_list (vconfig s') [(0x40, 0x01), (0x48, 0x05), (0x60, 0x03), (0x70, 0x10), (0xb0, 0x13), (0xc0, 0x09)]"
proof -
  have "map place (filter shown open_caps) = [(0x40, 0x01), (0x48, 0x05), (0x60, 0x03), (0x70, 0x10), (0xb0, 0x13), (0xc0, 0x09)]"
    by (simp add: open_caps_def pci_cap_length_def place_def)
  with user_sees_known_capabilities [OF open_device_openable] open_reliable show ?thesis by fastforce
qed

end
