(* ===== verification/Firmware_Switch.thy ===== *)
theory Firmware_Switch
  imports Firmware_Props
begin

text \<open>
  The debounced switch of the firmware over time: a sequence of polls of an input that does not change.
\<close>

fun poll :: "board \<Rightarrow> bool \<Rightarrow> nat \<Rightarrow> firmware \<Rightarrow> firmware" where
  "poll B r 0 s = s"
| "poll B r (Suc n) s = poll B r n (snd (getSwitchDebounce B r s))"

text \<open>The window is open and the last reading seen was \<open>r\<close>, or it is closed.\<close>

definition waiting :: "bool \<Rightarrow> firmware \<Rightarrow> bool" where
  "waiting r s \<longleftrightarrow> db_init (switch_state s) \<and> db_last (switch_state s) = r"

lemma poll_step:
  assumes "waiting r s"
  shows "getSwitchDebounce B r s =
    (if 0 < db_time (switch_state s) then
       (db_current (switch_state s),
        s\<lparr>did := Millis # did s, switch_state := if db_time (switch_state s) + 100 < board_millis B (did s)
           then (switch_state s)\<lparr>db_time := 0\<rparr> else switch_state s\<rparr>)
     else (db_current (switch_state s), s))"
  using assms by (simp add: waiting_def getSwitchDebounce_def Let_def millis_def board_do_def)

text \<open>Polls of a steady input neither change the value nor the last reading; only the clock is read.\<close>

lemma poll_steady:
  assumes "waiting r s"
  shows "waiting r (poll B r n s) \<and> db_current (switch_state (poll B r n s)) = db_current (switch_state s) \<and>
    (db_time (switch_state s) = 0 \<longrightarrow> poll B r n s = s)"
  using assms
proof (induction n arbitrary: s)
  case (Suc n)
  let ?t = "snd (getSwitchDebounce B r s)"
  have "waiting r ?t" "db_current (switch_state ?t) = db_current (switch_state s)"
    "db_time (switch_state s) = 0 \<Longrightarrow> ?t = s"
    using Suc.prems by (simp_all add: poll_step) (simp add: waiting_def)
  with Suc.IH [of ?t] Suc.IH [OF Suc.prems] show ?case by (cases "db_time (switch_state s) = 0") simp_all
qed simp

lemma poll_closes:
  assumes "waiting r s" "k < n" "db_time (switch_state s) + 100 < board_millis B (replicate k Millis @ did s)"
  shows "db_time (switch_state (poll B r n s)) = 0"
  using assms
proof (induction k arbitrary: n s)
  case 0
  then obtain m where n: "n = Suc m" by (cases n) auto
  let ?t = "snd (getSwitchDebounce B r s)"
  have "waiting r ?t" "db_time (switch_state ?t) = 0"
    using 0 by (auto simp: poll_step waiting_def word_greater_zero_iff)
  with poll_steady [of r ?t B m] n show ?case by simp
next
  case (Suc k)
  then obtain m where n: "n = Suc m" "k < m" by (cases n) auto
  let ?t = "snd (getSwitchDebounce B r s)"
  show ?case
  proof (cases "db_time (switch_state ?t) = 0")
    case True
    have "waiting r ?t" using Suc.prems(1) by (auto simp: poll_step waiting_def)
    with poll_steady [of r ?t B m] True n show ?thesis by simp
  next
    case False
    then have t: "waiting r ?t" "did ?t = Millis # did s" "db_time (switch_state ?t) = db_time (switch_state s)"
      using Suc.prems(1) by (auto simp: poll_step waiting_def word_greater_zero_iff split: if_splits)
    have "replicate k Millis @ did ?t = replicate (Suc k) Millis @ did s"
      using t(2) by (simp add: replicate_app_Cons_same)
    with Suc.IH [OF t(1) n(2)] Suc.prems(3) t(3) n(1) show ?thesis by simp
  qed
qed


text \<open>
  A clock that advances by ten at every call. The switch is pressed at the time 10 and released at 20, inside the window: it
  is reported as pressed from then on, for any number of polls.
\<close>

definition ticking :: board where
  "ticking = \<lparr>adc = \<lambda>_ _. 512, board_millis = \<lambda>h. 10 * word_of_nat (length h + 1)\<rparr>"

definition released :: firmware where
  "released = snd (getSwitchDebounce ticking False (snd (getSwitchDebounce ticking True (snd (getSwitchDebounce ticking False boot)))))"


end
