(* ===== verification/Session_Frame.thy ===== *)
theory Session_Frame
  imports Vfio_Access Config_Open_Props Rdwr_Props Vfio_Dev_Props
begin

text \<open>
  What the requests of a user leave alone. \<open>kept\<close> relates two states of a device between which no request has
  touched what the safety of later requests rests on: the layout of configuration space, the account of
  the interrupts, the list of eventfd-bound writes and the mappings they use. Its introduction rules go back along the
  code, one call at a time; they are collected in \<open>kept\<close>.
\<close>

named_theorems kept

section \<open>Devices\<close>

definition kept :: "vfio_pci_device \<Rightarrow> vfio_pci_device \<Rightarrow> bool" where
  "kept s s' \<longleftrightarrow>
     quiet s s' \<and> pdev s' = pdev s \<and> pci_config_map s' = pci_config_map s \<and> msi_perm s' = msi_perm s \<and>
     length (vconfig s') = length (vconfig s) \<and> rbar s' = rbar s \<and> extended_caps s' = extended_caps s \<and>
     refcnt s' = refcnt s \<and> msix_bar s' = msix_bar s \<and> msix_size s' = msix_size s \<and> msix_offset s' = msix_offset s \<and>
     ioeventfds_list s' = ioeventfds_list s \<and> ioeventfds_nr s' = ioeventfds_nr s \<and>
     dummy_resources_list s' = dummy_resources_list s \<and>
     (\<forall>b. barmap s b \<noteq> None \<longrightarrow> barmap s' b = barmap s b)"

lemma kept_refl [simp]: "kept s s"
  by (simp add: kept_def)

lemma kept_trans: "kept s t \<Longrightarrow> kept t u \<Longrightarrow> kept s u"
  by (simp add: kept_def quiet_def)

lemma kept_dev_step: "dev_step s t \<Longrightarrow> kept s t"
  by (simp add: kept_def dev_step_def cfg_step_def quiet_def)

lemma quiet_more_calls [simp]:
  "quiet_call (Io i)" "quiet_call (Life l)" "quiet_call (Irq (Set_irqs_validate a f x st n m))" "quiet_call (Irq Intx_mask_supported)"
  by (simp_all add: quiet_call_def)

lemma kept_call [kept]:
  assumes "kept z s" "quiet_call c"
  shows "kept z (kcall_do K c s)" "kept z (snd (kcall_rc K c s))" "kept z (snd (kcall K c s))"
  using assms quiet_kcall quiet_kcall_rc quiet_kcall_full by (auto simp: kept_def intro: quiet_trans)

lemma kept_user_mem [simp]: "kept z (s\<lparr>user_mem := m\<rparr>) = kept z s"
  by (simp add: kept_def quiet_def)

lemma kept_rc: "kcall_rc K c s = (r, t) \<Longrightarrow> kept z s \<Longrightarrow> quiet_call c \<Longrightarrow> kept z t"
  by (metis kept_call(2) snd_conv)

lemma kept_map_bar: "kept z s \<Longrightarrow> barmap s b = None \<Longrightarrow> m = (barmap s)(b := io) \<Longrightarrow> kept z (s\<lparr>barmap := m\<rparr>)"
  by (auto simp: kept_def quiet_def)

section \<open>Regions\<close>

lemma kept_copy [kept]:
  assumes "kept z s"
  shows "kept z (snd (copy_to_user K buf n v s))" "kept z (snd (snd (copy_from_user K buf n s)))"
  using assms by (simp_all add: copy_to_user_def copy_from_user_def case_prod_unfold kept)

lemma kept_io_access [kept]: "kept z s \<Longrightarrow> kept z (snd (io_access K io buf off n iswrite s))"
  by (simp add: io_access_def case_prod_unfold kept)

lemma kept_fill_ones [kept]: "kept z s \<Longrightarrow> kept z (snd (fill_ones K buf n s))"
  by (induction n arbitrary: buf s) (simp_all add: case_prod_unfold kept)

lemma kept_io_step [kept]: "kept z s \<Longrightarrow> kept z (snd (snd (io_step K io buf off count xs xe iswrite s)))"
  by (simp add: io_step_def Let_def case_prod_unfold kept)

lemma kept_do_io_rw [kept]: "kept z s \<Longrightarrow> kept z (snd (do_io_rw K io buf off count xs xe iswrite done s))"
proof (induction K io buf off count xs xe iswrite "done" s rule: do_io_rw.induct)
  case (1 K io buf off count xs xe iswrite d s)
  obtain err n t where st: "io_step K io buf off count xs xe iswrite s = (err, n, t)" by (metis prod_cases3)
  then have "kept z t" using kept_io_step [OF "1.prems", of K io buf off count xs xe iswrite] by simp
  with "1.IH" [OF _ st [symmetric] refl] "1.prems" show ?case
    unfolding do_io_rw.simps [of K io buf off count xs xe iswrite d s] st prod.case by simp
qed

lemma kept_setup_barmap:
  assumes "kept z s" "vfio_pci_setup_barmap K bar s = Some (r, t)"
  shows "kept z t"
  using assms by (auto simp: vfio_pci_setup_barmap_def case_prod_unfold kept intro!: kept_map_bar elim: kept_rc split: if_splits)

lemma kept_bar_window:
  assumes "kept z s" "bar_window K bar e s = Some (err, io, rg, t)"
  shows "kept z t"
  using assms kept_setup_barmap [OF assms(1), of K bar]
  by (auto simp: bar_window_def case_prod_unfold bind_eq_Some_conv kept_call split: if_splits)

lemma bar_window_ex:
  assumes "bar \<le> 6"
  shows "\<exists>err io rg t. bar_window K bar e s = Some (err, io, rg, t)"
proof -
  obtain err io rg t where "bar_window K bar e s = Some (err, io, rg, t)"
    using assms by (rule bar_window_cases [of bar K e s])
  then show ?thesis by blast
qed

lemma bar_rw_total:
  assumes "0 \<le> VFIO_PCI_OFFSET_TO_INDEX ppos" "VFIO_PCI_OFFSET_TO_INDEX ppos \<le> 6"
  shows "\<exists>r ppos' s'. vfio_pci_bar_rw K buf count ppos iswrite s = Some (r, ppos', s') \<and> kept s s'"
proof -
  let ?bar = "nat (VFIO_PCI_OFFSET_TO_INDEX ppos)" and ?pos = "nat (ppos AND VFIO_PCI_OFFSET_MASK)"
  show ?thesis
  proof (cases "\<exists>e. bar_end s ?bar = Some e \<and> ?pos < e")
    case False
    with assms(1) have "vfio_pci_bar_rw K buf count ppos iswrite s = Some (- EINVAL, ppos, s)"
      unfolding vfio_pci_bar_rw_def Let_def by (cases "bar_end s ?bar") simp_all
    then show ?thesis by simp
  next
    case True
    then obtain e where e: "bar_end s ?bar = Some e" "?pos < e" by blast
    from assms have "?bar \<le> 6" by simp
    then obtain err io rg t where w: "bar_window K ?bar e s = Some (err, io, rg, t)"
      using bar_window_ex [of ?bar K e s] by blast
    then have t: "kept s t" by (rule kept_bar_window [rotated]) simp
    show ?thesis
    proof (cases "err = 0")
      case False
      have "vfio_pci_bar_rw K buf count ppos iswrite s = Some (err, ppos, t)"
        using assms(1) e(2) False unfolding vfio_pci_bar_rw_def Let_def e(1) option.case w by simp
      with t show ?thesis by blast
    next
      case True
      obtain xs xe where x: "(if ?bar = unat (msix_bar t) then msix_range t else rg) = (xs, xe)" by fastforce
      obtain ret u where u: "do_io_rw K io buf ?pos (min (unat count) (e - ?pos)) xs xe iswrite 0 t = (ret, u)" by fastforce
      have "kept s u" using kept_do_io_rw [OF t] u by (metis snd_conv)
      moreover have "vfio_pci_bar_rw K buf count ppos iswrite s = Some (ret, if 0 \<le> ret then ppos + ret else ppos,
          if ?bar = PCI_ROM_RESOURCE then kcall_do K (Io (Unmap_rom io)) u else u)"
        using assms(1) e(2) True unfolding vfio_pci_bar_rw_def Let_def e(1) option.case w bind.bind_lunit prod.case x u by simp
      ultimately show ?thesis by (simp add: kept)
    qed
  qed
qed

lemma kept_vga_rw: "kept s (snd (snd (vfio_pci_vga_rw K buf count ppos iswrite s)))"
proof (cases "\<not> has_vga s \<or> vga_range (nat (ppos AND VFIO_PCI_OFFSET_MASK)) = None")
  case True
  then show ?thesis by (auto simp: vfio_pci_vga_rw_def Let_def)
next
  case False
  let ?pos = "nat (ppos AND VFIO_PCI_OFFSET_MASK)"
  from False obtain lo hi port where r: "has_vga s" "vga_range ?pos = Some (lo, hi, port)" by auto
  obtain iomem t where t: "kcall_rc K (Io (if port then Ioport_map lo (hi - lo) else Ioremap_nocache lo (hi - lo))) s = (iomem, t)"
    by fastforce
  let ?rsrc = "if port then VGA_RSRC_LEGACY_IO else VGA_RSRC_LEGACY_MEM"
  obtain ret u where u: "kcall_rc K (Io (Vga_get ?rsrc)) t = (ret, u)" by fastforce
  obtain q v where v: "do_io_rw K iomem buf (?pos - lo) (min (unat count) (hi - ?pos)) 0 0 iswrite 0 u = (q, v)" by fastforce
  have k: "kept s t" "kept s u" using kept_rc [OF t kept_refl] kept_rc [OF u] by simp_all
  then have "kept s v" using kept_do_io_rw v by (metis snd_conv)
  with k have "kept s (vga_unmap K port iomem u)" "kept s (vga_unmap K port iomem (kcall_do K (Io (Vga_put ?rsrc)) v))"
    by (simp_all add: vga_unmap_def kept)
  moreover have "vfio_pci_vga_rw K buf count ppos iswrite s =
      (if 0xbffff < ?pos then (- EINVAL, ppos, s) else if iomem = 0 then (- ENOMEM, ppos, t)
       else if ret \<noteq> 0 then (ret, ppos, vga_unmap K port iomem u)
       else (q, if 0 \<le> q then ppos + q else ppos, vga_unmap K port iomem (kcall_do K (Io (Vga_put ?rsrc)) v)))"
    using r(1) unfolding vfio_pci_vga_rw_def Let_def r(2) option.case prod.case t u v by simp
  ultimately show ?thesis using k by simp
qed

section \<open>Mappings and device-specific regions\<close>

text \<open>The operations of device-specific regions are in other files. They are total and touch nothing of what \<open>kept\<close> is about.\<close>

definition region_ops_law :: "driver \<Rightarrow> bool" where
  "region_ops_law D \<longleftrightarrow>
     (\<forall>r buf count ppos iswrite s. \<exists>ret ppos' s'. ops_rw D r buf count ppos iswrite s = Some (ret, ppos', s') \<and> kept s s') \<and>
     (\<forall>n f r vma s. ops_mmap D n = Some f \<longrightarrow> kept s (snd (f r vma s))) \<and>
     (\<forall>n f r caps s. ops_add_capability D n = Some f \<longrightarrow> kept s (snd (f r caps s)))"

lemma kept_mmap_bar: "kept s (snd (mmap_bar K index vma s))"
proof -
  obtain q t where t: "kcall_rc K (Io (Request_selected_regions index)) s = (q, t)" by fastforce
  obtain io u where u: "kcall_rc K (Io (Iomap index)) t = (io, u)" by fastforce
  have k: "kept s t" "kept s u" using kept_rc [OF t kept_refl] kept_rc [OF u] by simp_all
  have "barmap u = barmap s" using t u by (auto simp: kcall_rc_Pair)
  with k show ?thesis
    by (auto simp: mmap_bar_def Let_def t u kept_call intro!: kept_call kept_map_bar)
qed

lemma mmap_total:
  assumes law: "region_ops_law D"
    and index: "unat (ucast (drop_bit (VFIO_PCI_OFFSET_SHIFT - PAGE_SHIFT) (vm_pgoff vma)) :: u32) < VFIO_PCI_NUM_REGIONS + length (regions s)"
  shows "\<exists>r s'. vfio_pci_mmap K D vma s = Some (r, s') \<and> kept s s'"
proof -
  let ?i = "unat (ucast (drop_bit (VFIO_PCI_OFFSET_SHIFT - PAGE_SHIFT) (vm_pgoff vma)) :: u32)"
  obtain r t where "mmap_bar K ?i vma s = (r, t)" by fastforce
  moreover have "\<exists>r s'. mmap_region D (?i - VFIO_PCI_NUM_REGIONS) vma s = Some (r, s') \<and> kept s s'" if "VFIO_PCI_NUM_REGIONS \<le> ?i"
  proof -
    have "?i - VFIO_PCI_NUM_REGIONS < length (regions s)" using index that by linarith
    then show ?thesis using law unfolding region_ops_law_def
      by (auto simp: mmap_region_def Let_def split: option.splits) (metis prod.collapse)+
  qed
  ultimately show ?thesis using kept_mmap_bar [of s K ?i vma] unfolding vfio_pci_mmap_def Let_def by auto
qed

section \<open>Systems\<close>

lemma kept_sys [kept]:
  assumes "kept z (vdev y)" "quiet_call c"
  shows "kept z (vdev (sys_do K c y))" "kept z (vdev (snd (sys_rc K c y)))"
  using assms by (simp_all add: sys_do_def sys_rc_def case_prod_unfold kept)

lemma kept_struct [kept]:
  assumes "kept z (vdev y)"
  shows "kept z (vdev (snd (snd (copy_struct K arg n y))))" "kept z (vdev (snd (put_struct K arg bs y)))"
    "kept z (vdev (snd (copy_back K arg bs y)))"
  using assms by (simp_all add: copy_struct_def put_struct_def copy_back_def on_vdev_def case_prod_unfold kept)

lemma kept_get_info: "kept (vdev y) (vdev (snd (ioctl_get_info K arg y)))"
  by (simp add: ioctl_get_info_def Let_def case_prod_unfold kept)

lemma kept_irq_count [kept]: "kept z s \<Longrightarrow> kept z (snd (vfio_pci_get_irq_count K i s))"
  by (simp add: vfio_pci_get_irq_count_def Let_def case_prod_unfold kept)

lemma kept_irq_info: "kept (vdev y) (vdev (snd (ioctl_get_irq_info K arg y)))"
  by (simp add: ioctl_get_irq_info_def Let_def case_prod_unfold kept)

lemma kept_add_capability [kept]: "kept z s \<Longrightarrow> kept z (snd (snd (add_capability K D caps c s)))"
  by (simp add: add_capability_def case_prod_unfold kept)

lemma kept_region_info_dev:
  assumes "region_ops_law D" "kept z s"
  shows "kept z (snd (snd (snd (region_info_dev K D r info s))))"
proof -
  have "kept z (snd (f r' caps t))" if "ops_add_capability D n = Some f" "kept z t" for n f r' caps t
    using assms(1) that kept_trans unfolding region_ops_law_def by blast
  with assms(2) show ?thesis
    by (auto simp: region_info_dev_def Let_def case_prod_unfold kept split: option.split)
qed

lemma kept_region_info:
  assumes "region_ops_law D" "kept z s"
  shows "kept z (snd (snd (snd (region_info K D info s))))"
  using assms kept_region_info_dev [OF assms]
  by (simp add: region_info_def region_info_bar_def region_info_rom_def msix_mmappable_cap_def Let_def case_prod_unfold kept)

lemma kept_get_region_info:
  assumes "region_ops_law D"
  shows "kept (vdev y) (vdev (snd (ioctl_get_region_info K D arg y)))"
  by (simp add: ioctl_get_region_info_def Let_def case_prod_unfold kept kept_region_info [OF assms])

section \<open>Resets\<close>

lemma kept_reset: "kept (vdev y) (vdev (snd (ioctl_reset K y)))"
  by (simp add: ioctl_reset_def kept)

lemma kept_probe_reset [kept]: "kept z (vdev y) \<Longrightarrow> kept z (vdev (snd (probe_reset K y)))"
  by (simp add: probe_reset_def Let_def case_prod_unfold kept)

lemma kept_group_get [kept]: "kept z (vdev y) \<Longrightarrow> kept z (vdev (snd (iommu_group_get K d y)))"
  by (simp add: iommu_group_get_def case_prod_unfold kept)

lemma kept_fill_devs:
  assumes "kept z (vdev (snd x))" "vfio_pci_fill_devs K B d x = (r, x')"
  shows "kept z (vdev (snd x'))"
proof -
  obtain found y where x: "x = (found, y)" by fastforce
  obtain g w where g: "iommu_group_get K d y = (g, w)" by fastforce
  then have "kept z (vdev w)" using kept_group_get [of z y K d] assms(1) x by simp
  with assms x g show ?thesis by (auto simp: vfio_pci_fill_devs_def kept split: if_splits option.splits)
qed

lemma kept_fill_walk:
  assumes "vfio_pci_for_each_slot_or_bus B (vfio_pci_fill_devs K B) x slot = (r, x')" "kept z (vdev (snd x))"
  shows "kept z (vdev (snd x'))"
  by (rule walk_bus_keeps [where P = "\<lambda>x. kept z (vdev (snd x))", OF _ assms(1) [unfolded vfio_pci_for_each_slot_or_bus_def] assms(2)])
    (erule (1) kept_fill_devs)

lemma kept_hot_reset_info: "kept (vdev y) (vdev (snd (ioctl_hot_reset_info K B arg y)))"
proof -
  obtain rc hdr a where a: "copy_struct K arg 12 y = (rc, hdr, a)" by (metis prod_cases3)
  obtain ps b where b: "probe_reset K a = (ps, b)" by fastforce
  obtain p c where c: "sys_rc K (Mem Alloc) b = (p, c)" by fastforce
  have k: "kept (vdev y) (vdev a)" using kept_struct(1) [of "vdev y" y K arg 12] a by simp
  then have kb: "kept (vdev y) (vdev b)" using kept_probe_reset [of "vdev y" a K] b by simp
  then have kc: "kept (vdev y) (vdev c)" using kept_sys(2) [of "vdev y" b "Mem Alloc" K] c by simp
  show ?thesis
  proof (cases ps)
    case None
    with k kb a b show ?thesis by (simp add: ioctl_hot_reset_info_def Let_def)
  next
    case (Some slot)
    obtain q n where n: "vfio_pci_for_each_slot_or_bus B vfio_pci_count_devs 0 slot = (q, n)" by fastforce
    obtain ret found d where d: "vfio_pci_for_each_slot_or_bus B (vfio_pci_fill_devs K B)
        (\<lparr>fill_max = n, fill_devices = []\<rparr>, c) slot = (ret, found, d)" by (metis prod_cases3)
    have "kept (vdev y) (vdev d)" using kept_fill_walk [OF d] kc by simp
    with k kb kc show ?thesis
      unfolding ioctl_hot_reset_info_def Let_def a prod.case b Some option.case n c d by (simp add: case_prod_unfold kept)
  qed
qed

lemma kept_get_groups: "kept z (vdev y) \<Longrightarrow> get_groups K fds groups y = (r, gs, y') \<Longrightarrow> kept z (vdev y')"
proof (induction fds arbitrary: groups y)
  case (Cons fd fds)
  obtain f a where a: "sys_rc K (Life (Fdget fd)) y = (f, a)" by fastforce
  obtain group b where b: "sys_rc K (Life (Group_get_external_user f)) a = (group, b)" by fastforce
  let ?c = "sys_do K (Life (Fdput fd)) b"
  obtain ident d where d: "sys_rc K (Life (External_user_iommu_id group)) ?c = (ident, d)" by fastforce
  have ka: "kept z (vdev a)" using kept_sys(2) [OF Cons.prems(1)] a by (metis quiet_more_calls(2) snd_conv)
  then have "kept z (vdev b)" using kept_sys(2) b by (metis quiet_more_calls(2) snd_conv)
  then have kc: "kept z (vdev ?c)" by (simp add: kept)
  then have kd: "kept z (vdev d)" using kept_sys(2) d by (metis quiet_more_calls(2) snd_conv)
  from Cons.prems(2) ka kc Cons.IH [OF kd] show ?case
    unfolding get_groups.simps Let_def a prod.case b d by (auto split: if_splits)
qed simp

lemma kept_validate:
  assumes "kept z (vdev y)" "vfio_pci_validate_devs K groups d y = (r, y')"
  shows "kept z (vdev y')"
proof -
  obtain g w where g: "iommu_group_get K d y = (g, w)" by fastforce
  then have "kept z (vdev w)" using kept_group_get [of z y K d] assms(1) by simp
  with assms g show ?thesis by (auto simp: vfio_pci_validate_devs_def kept split: option.splits)
qed

lemma kept_put_groups: "kept z (vdev y) \<Longrightarrow> kept z (vdev (put_groups K groups y))"
proof -
  have "kept z (vdev y) \<Longrightarrow> kept z (vdev (fold (\<lambda>(group, ident). sys_do K (Life (Put_external_user group))) gs y))" for gs
    by (induction gs arbitrary: y) (auto simp: kept)
  then show "kept z (vdev y) \<Longrightarrow> kept z (vdev (put_groups K groups y))" by (simp add: put_groups_def)
qed

lemma kept_hot_reset_groups:
  assumes "kept z (vdev y)"
  shows "kept z (vdev (snd (hot_reset_groups K B slot fds y)))"
proof -
  obtain ret groups a where a: "get_groups K fds [] y = (ret, groups, a)" by (metis prod_cases3)
  obtain q b where b: "vfio_pci_for_each_slot_or_bus B (vfio_pci_validate_devs K groups) a slot = (q, b)" by fastforce
  have ka: "kept z (vdev a)" by (rule kept_get_groups [OF assms a])
  then have "kept z (vdev b)"
    by (rule walk_bus_keeps [where P = "\<lambda>y. kept z (vdev y)", OF _ b [unfolded vfio_pci_for_each_slot_or_bus_def], rotated])
      (erule (1) kept_validate)
  with ka show ?thesis
    unfolding hot_reset_groups_def a prod.case b Let_def by (simp add: case_prod_unfold kept kept_put_groups)
qed

lemma kept_hot_reset: "kept (vdev y) (vdev (snd (ioctl_hot_reset K B arg y)))"
proof -
  obtain rc hdr a where a: "copy_struct K arg 12 y = (rc, hdr, a)" by (metis prod_cases3)
  obtain ps b where b: "probe_reset K a = (ps, b)" by fastforce
  obtain p c where c: "sys_rc K (Mem Alloc) b = (p, c)" by fastforce
  obtain q d where d: "sys_rc K (Mem Alloc) c = (q, d)" by fastforce
  obtain e bs f where f: "copy_struct K (arg + 12) (unat (u32_at hdr 8) * 4) d = (e, bs, f)" by (metis prod_cases3)
  have k: "kept (vdev y) (vdev a)" using kept_struct(1) [of "vdev y" y K arg 12] a by simp
  then have kb: "kept (vdev y) (vdev b)" using kept_probe_reset [of "vdev y" a K] b by simp
  then have kd: "kept (vdev y) (vdev d)" using kept_sys(2) [of "vdev y" b "Mem Alloc" K] kept_sys(2) [of "vdev y" c "Mem Alloc" K] c d by simp
  then have kf: "kept (vdev y) (vdev f)" using kept_struct(1) [of "vdev y" d K "arg + 12" "unat (u32_at hdr 8) * 4"] f by simp
  show ?thesis
  proof (cases ps)
    case None
    with k kb a b show ?thesis by (simp add: ioctl_hot_reset_def Let_def)
  next
    case (Some slot)
    with k kb kd kf show ?thesis
      unfolding ioctl_hot_reset_def Let_def a prod.case b Some option.case c d f
      by (simp add: case_prod_unfold kept_hot_reset_groups)
  qed
qed

end
