(* ===== verification/Session.thy ===== *)
theory Session
  imports Session_Frame
begin

text \<open>
  A session of a user with an open device: the requests, the interrupts of the hardware and the events of the kernel,
  in any order. \<open>session_inv\<close> is what a device keeps between them; under it nothing the driver does is
  undefined (interpretation \<open>session_machine\<close>), apart from the requests that \<open>allowed\<close> leaves out, which are the
  ones shown to be undefined elsewhere.
\<close>

section \<open>The machine\<close>

text \<open>
  The user may write to its memory between requests, which is how the structures of the ioctls get there. \<open>Event\<close> is for
  interrupts and the unmask event, \<open>Ioeventfd_fires\<close> for the eventfd of an entry of the list.
\<close>

datatype request =
    User_store nat "u8 list"
  | Ioctl vfio_cmd nat
  | Read_at nat u64 int
  | Write_at nat u64 int
  | Mmap_at vma
  | Event irq_op
  | Ioeventfd_fires nat
  | Device_request
  | Aer_error

definition on_dev :: "(vfio_pci_device \<Rightarrow> vfio_pci_device option) \<Rightarrow> system \<Rightarrow> system option" where
  "on_dev f y = map_option (\<lambda>s. y\<lparr>vdev := s\<rparr>) (f (vdev y))"

fun perform :: "kernel \<Rightarrow> driver \<Rightarrow> perm_tables \<Rightarrow> bus \<Rightarrow> request \<Rightarrow> system \<Rightarrow> system option" where
  "perform K D T B (User_store addr bs) y = Some (on_vdev (\<lambda>s. s\<lparr>user_mem := put_list addr bs (user_mem s)\<rparr>) y)"
| "perform K D T B (Ioctl cmd arg) y = map_option snd (vfio_pci_ioctl K D B cmd arg y)"
| "perform K D T B (Read_at buf count ppos) y = on_dev (\<lambda>s. map_option (snd \<circ> snd) (vfio_pci_read K D T buf count ppos s)) y"
| "perform K D T B (Write_at buf count ppos) y = on_dev (\<lambda>s. map_option (snd \<circ> snd) (vfio_pci_write K D T buf count ppos s)) y"
| "perform K D T B (Mmap_at vma) y = on_dev (\<lambda>s. map_option snd (vfio_pci_mmap K D vma s)) y"
| "perform K D T B (Event x) y = on_dev (irq_step K x) y"
| "perform K D T B (Ioeventfd_fires i) y = on_dev (\<lambda>s. Some
     (if i < length (ioeventfds_list s) then vfio_pci_ioeventfd_handler K (ioeventfds_list s ! i) s else s)) y"
| "perform K D T B Device_request y = on_dev (\<lambda>s. Some (vfio_pci_request K s)) y"
| "perform K D T B Aer_error y = on_dev (\<lambda>s. Some (snd (vfio_pci_aer_err_detected K B True True s))) y"

text \<open>
  File offsets are not negative, as the kernel guarantees. What is left out: arming INTx while it is armed or without an
  eventfd, a negative offset of an eventfd-bound write, a mapping of a region that is not there.
\<close>

definition user_u32 :: "system \<Rightarrow> nat \<Rightarrow> u32" where
  "user_u32 y addr = le_val (map (\<lambda>i. user_mem (vdev y) (addr + i)) [0..<4])"

definition user_u64 :: "system \<Rightarrow> nat \<Rightarrow> u64" where
  "user_u64 y addr = ucast (user_u32 y addr) OR push_bit 32 (ucast (user_u32 y (addr + 4)))"

definition arms_intx :: "u32 \<Rightarrow> nat \<Rightarrow> bool" where
  "arms_intx flags index \<longleftrightarrow> index = VFIO_PCI_INTX_IRQ_INDEX \<and>
     flags AND VFIO_IRQ_SET_ACTION_TYPE_MASK = VFIO_IRQ_SET_ACTION_TRIGGER \<and> flags AND VFIO_IRQ_SET_DATA_EVENTFD \<noteq> 0"

fun allowed :: "system \<Rightarrow> request \<Rightarrow> bool" where
  "allowed y (Ioctl VFIO_DEVICE_SET_IRQS arg) =
     (arms_intx (user_u32 y (arg + 4)) (unat (user_u32 y (arg + 8))) \<longrightarrow>
        \<not> is_intx (vdev y) \<and> 0 \<le> sint (user_u32 y (arg + 20)))"
| "allowed y (Ioctl VFIO_DEVICE_IOEVENTFD arg) = (0 \<le> sint (user_u64 y (arg + 8)))"
| "allowed y (Read_at buf count ppos) = (0 \<le> ppos \<and> ppos < 2 ^ 63)"
| "allowed y (Write_at buf count ppos) = (0 \<le> ppos \<and> ppos < 2 ^ 63)"
| "allowed y (Mmap_at vma) =
     (unat (ucast (drop_bit (VFIO_PCI_OFFSET_SHIFT - PAGE_SHIFT) (vm_pgoff vma)) :: u32) < VFIO_PCI_NUM_REGIONS + length (regions (vdev y)))"
| "allowed y (Event (Set_irqs flags index start count data)) = False"
| "allowed y _ = True"

definition session_step :: "kernel \<Rightarrow> driver \<Rightarrow> perm_tables \<Rightarrow> bus \<Rightarrow> request \<Rightarrow> system \<Rightarrow> system option" where
  "session_step K D T B x y = (if allowed y x then perform K D T B x y else Some y)"

section \<open>The invariant\<close>

text \<open>\<open>z\<close> is what stays the same throughout a session: the device, whether it has extended capabilities, the number of users.\<close>

type_synonym anchor = "pci_dev \<times> bool \<times> int"

definition base_inv :: "perm_tables \<Rightarrow> anchor \<Rightarrow> vfio_pci_device \<Rightarrow> bool" where
  "base_inv T z s \<longleftrightarrow> config_ok T s \<and> msi_perm s \<noteq> Freed \<and> dummy_resources_list s \<noteq> None \<and>
     (pdev s, extended_caps s, refcnt s) = z"

definition session_inv :: "perm_tables \<Rightarrow> anchor \<Rightarrow> vfio_pci_device \<Rightarrow> bool" where
  "session_inv T z s \<longleftrightarrow> base_inv T z s \<and> ioev_inv s"

lemma config_ok_kept:
  assumes "kept s t" "config_ok T s"
  shows "config_ok T t"
proof -
  have "caps_fit T t = caps_fit T s" by (rule caps_fit_map) (use assms(1) in \<open>simp_all add: kept_def\<close>)
  with assms show ?thesis by (auto simp: config_ok_def config_sized_def kept_def intro: quiet_ok quiet_intx_armed)
qed

lemma base_inv_kept: "kept s t \<Longrightarrow> base_inv T z s \<Longrightarrow> base_inv T z t"
  using config_ok_kept by (auto simp: base_inv_def kept_def)

lemma ioev_inv_kept: "kept s t \<Longrightarrow> ioev_inv s \<Longrightarrow> ioev_inv t"
  by (rule ioev_inv_mono) (auto simp: kept_def msix_range_def)

lemma session_inv_kept: "kept s t \<Longrightarrow> session_inv T z s \<Longrightarrow> session_inv T z t"
  using base_inv_kept ioev_inv_kept by (auto simp: session_inv_def)

lemma base_inv_list: "base_inv T z (s\<lparr>ioeventfds_list := l, ioeventfds_nr := n\<rparr>) = base_inv T z s"
proof -
  have "caps_fit T (s\<lparr>ioeventfds_list := l, ioeventfds_nr := n\<rparr>) = caps_fit T s" by (rule caps_fit_map) simp_all
  then show ?thesis
    by (simp add: base_inv_def config_ok_def config_sized_def irq_ok_def irq_inv_def balanced_def held_refs_def
        held_lines_def intx_armed_def split: irq_cookie.split)
qed

lemma session_inv_refcnt: "session_inv T (d, e, m) s \<Longrightarrow> session_inv T (d, e, n) (s\<lparr>refcnt := n\<rparr>)"
proof -
  assume inv: "session_inv T (d, e, m) s"
  have "caps_fit T (s\<lparr>refcnt := n\<rparr>) = caps_fit T s" by (rule caps_fit_map) simp_all
  moreover have "ioev_inv (s\<lparr>refcnt := n\<rparr>) = ioev_inv s"
    by (auto simp: ioev_inv_def ioev_entry_ok_def ioev_key_def msix_range_def)
  ultimately show ?thesis using inv
    by (simp add: session_inv_def base_inv_def config_ok_def config_sized_def irq_ok_def irq_inv_def balanced_def held_refs_def
        held_lines_def intx_armed_def split: irq_cookie.splits)
qed

text \<open>After the interrupt ioctl only the interrupts have changed.\<close>

lemma session_inv_irq:
  assumes frame: "irq_frame s t" and irq: "irq_ok t" "intx_armed t" and inv: "session_inv T z s"
  shows "session_inv T z t"
proof -
  from frame have rest: "irq_rest t = irq_rest s" by (simp add: irq_frame_def)
  have same: "pdev t = pdev s" "pci_config_map t = pci_config_map s" "msi_perm t = msi_perm s" "vconfig t = vconfig s"
    "rbar t = rbar s" "msix_bar t = msix_bar s" "msix_size t = msix_size s" "msix_offset t = msix_offset s"
    "barmap t = barmap s" "ioeventfds_list t = ioeventfds_list s" "ioeventfds_nr t = ioeventfds_nr s"
    "dummy_resources_list t = dummy_resources_list s" "extended_caps t = extended_caps s" "refcnt t = refcnt s"
    using arg_cong [OF rest, of pdev] arg_cong [OF rest, of pci_config_map] arg_cong [OF rest, of msi_perm]
      arg_cong [OF rest, of vconfig] arg_cong [OF rest, of rbar] arg_cong [OF rest, of msix_bar] arg_cong [OF rest, of msix_size]
      arg_cong [OF rest, of msix_offset] arg_cong [OF rest, of barmap] arg_cong [OF rest, of ioeventfds_list]
      arg_cong [OF rest, of ioeventfds_nr] arg_cong [OF rest, of dummy_resources_list]
      arg_cong [OF rest, of extended_caps] arg_cong [OF rest, of refcnt] by (simp_all add: irq_rest_def)
  have "caps_fit T t = caps_fit T s" by (rule caps_fit_map) (use same in simp_all)
  moreover have "ioev_inv t" using inv by (intro ioev_inv_mono [of s t]) (simp_all add: same session_inv_def msix_range_def)
  ultimately show ?thesis using irq inv by (simp add: session_inv_def base_inv_def config_ok_def config_sized_def same)
qed

section \<open>Interrupts\<close>

lemma intx_none_armed: "is_irq_none s \<Longrightarrow> intx_armed s"
  by (simp add: intx_armed_def)

text \<open>Arming INTx from nothing with an eventfd either fails, and nothing is enabled, or leaves it armed.\<close>

lemma intx_arm_armed:
  assumes inv: "irq_inv s" and none: "\<not> is_intx s" and fd: "0 \<le> fd"
    and run: "(case vfio_intx_enable K s of (ret, s) \<Rightarrow>
        if ret \<noteq> 0 then Some (ret, s)
        else do { (ret, s) \<leftarrow> vfio_intx_set_signal K fd s; s \<leftarrow> (if ret \<noteq> 0 then vfio_intx_disable K s else Some s); Some (ret, s) })
      = Some (r, s')"
  shows "intx_armed s'"
proof -
  obtain q e where e: "vfio_intx_enable K s = (q, e)" by fastforce
  note post = intx_enable_post [OF inv e]
  show ?thesis
  proof (cases "q = 0")
    case False
    with run e post(4) none show ?thesis by (simp add: intx_armed_def)
  next
    case True
    then obtain p t where t: "vfio_intx_set_signal K fd e = Some (p, t)"
      "(if p \<noteq> 0 then vfio_intx_disable K t else Some t) = Some s'"
      using run e by (auto simp: bind_eq_Some_conv)
    note sig = intx_set_signal_post [OF post(1) post(3) [OF True] t(1)]
    show ?thesis
    proof (cases "p = 0")
      case True
      with sig(4) fd t(2) show ?thesis by (simp add: intx_armed_def)
    next
      case False
      with t(2) intx_disable_post(3) [of t K s'] sig(1) show ?thesis by (intro intx_none_armed) auto
    qed
  qed
qed

lemma set_intx_trigger_armed:
  assumes ok: "irq_ok s" "intx_armed s"
    and fd: "flags AND VFIO_IRQ_SET_DATA_EVENTFD \<noteq> 0 \<Longrightarrow> count = 1 \<Longrightarrow> \<not> is_intx s \<and> (\<forall>fd. s32_at data 0 = Some fd \<longrightarrow> 0 \<le> fd)"
    and run: "vfio_pci_set_intx_trigger K index start count flags data s = Some (r, s')"
  shows "intx_armed s'"
proof -
  have inv: "irq_inv s" using ok(1) by (simp add: irq_ok_def)
  show ?thesis
  proof (cases "is_intx s \<and> count = 0 \<and> flags AND VFIO_IRQ_SET_DATA_NONE \<noteq> 0")
    case True
    with run have "vfio_intx_disable K s = Some s'" by (simp add: vfio_pci_set_intx_trigger_def bind_eq_Some_conv)
    with True inv show ?thesis by (intro intx_none_armed intx_disable_post(3)) auto
  next
    case other: False
    show ?thesis
    proof (cases "start = 0 \<and> count = 1 \<and> (is_intx s \<or> is_irq_none s) \<and> flags AND VFIO_IRQ_SET_DATA_EVENTFD \<noteq> 0")
      case True
      then obtain d where d: "s32_at data 0 = Some d" using run by (auto simp: vfio_pci_set_intx_trigger_def bind_eq_Some_conv)
      with True fd have nx: "\<not> is_intx s" "0 \<le> d" by auto
      show ?thesis
        by (rule intx_arm_armed [OF inv nx, of K r]) (use run True d nx in \<open>simp add: vfio_pci_set_intx_trigger_def\<close>)
    next
      case False
      have "quiet s s'" using run other False
        by (auto simp: vfio_pci_set_intx_trigger_def bind_eq_Some_conv dest: quiet_send split: if_splits)
      then show ?thesis using ok(2) by (rule quiet_intx_armed)
    qed
  qed
qed

lemma ioctl_armed:
  assumes ok: "irq_ok s" "intx_armed s"
    and fd: "arms_intx flags index \<Longrightarrow> count = 1 \<Longrightarrow> \<not> is_intx s \<and> (\<forall>fd. s32_at data 0 = Some fd \<longrightarrow> 0 \<le> fd)"
    and run: "vfio_pci_set_irqs_ioctl K flags index start count data s = Some (r, s')"
  shows "intx_armed s'"
proof (cases "irq_ioctl_func flags index s")
  case None
  with ok run show ?thesis by (simp add: vfio_pci_set_irqs_ioctl_def)
next
  case (Some f)
  show ?thesis
  proof (cases f)
    case Set_intx_mask
    with run Some have "quiet s s'"
      by (auto simp: vfio_pci_set_irqs_ioctl_def vfio_pci_set_intx_mask_def bind_eq_Some_conv dest: quiet_mask split: if_splits)
    then show ?thesis using ok(2) by (rule quiet_intx_armed)
  next
    case Set_intx_unmask
    with run Some have "quiet s s'"
      by (auto simp: vfio_pci_set_irqs_ioctl_def vfio_pci_set_intx_unmask_def bind_eq_Some_conv Let_def case_prod_unfold
          quiet_kcall_full dest: quiet_unmask quiet_disable_unmask intro!: quiet_trans [OF _ quiet_ctx_upd] split: if_splits)
    then show ?thesis using ok(2) by (rule quiet_intx_armed)
  next
    case Set_intx_trigger
    with Some have arms: "flags AND VFIO_IRQ_SET_DATA_EVENTFD \<noteq> 0 \<Longrightarrow> arms_intx flags index"
      by (auto simp: irq_ioctl_func_def Let_def arms_intx_def split: if_splits)
    from Set_intx_trigger Some run have "vfio_pci_set_intx_trigger K index start count flags data s = Some (r, s')"
      by (simp add: vfio_pci_set_irqs_ioctl_def)
    then show ?thesis by (rule set_intx_trigger_armed [OF ok, rotated]) (use arms fd in blast)
  next
    case Set_msi_trigger
    note index = irq_ioctl_func_msi [OF Some [unfolded Set_msi_trigger]]
    from Set_msi_trigger Some run have t: "vfio_pci_set_msi_trigger K index start count flags data s = Some (r, s')"
      by (simp add: vfio_pci_set_irqs_ioctl_def)
    show ?thesis
    proof (cases "is_intx s")
      case True
      with t index have "s' = s" by (auto simp: vfio_pci_set_msi_trigger_def Let_def)
      with ok show ?thesis by simp
    next
      case False
      with set_msi_trigger_post(2) [OF ok(1) index t] show ?thesis by (simp add: intx_armed_def)
    qed
  next
    case Set_err_trigger
    with run Some ok(2) show ?thesis
      by (auto simp: vfio_pci_set_irqs_ioctl_def vfio_pci_set_err_trigger_def bind_eq_Some_conv intx_armed_def
          ctx_trigger_single_post(3,5) split: if_splits)
  next
    case Set_req_trigger
    with run Some ok(2) show ?thesis
      by (auto simp: vfio_pci_set_irqs_ioctl_def vfio_pci_set_req_trigger_def bind_eq_Some_conv intx_armed_def
          ctx_trigger_single_post(3,5) split: if_splits)
  qed
qed

text \<open>
  \<^verbatim>\<open>vfio_set_irqs_validate_and_prepare\<close> of the VFIO core accepts a request only if its data has one byte or one
  descriptor for each interrupt, as its flags say, and returns the size of the data.
\<close>

definition irq_validate_law :: "kernel \<Rightarrow> bool" where
  "irq_validate_law K \<longleftrightarrow>
     (\<forall>h argsz flags index start count most size.
        respond K h (Irq (Set_irqs_validate argsz flags index start count most)) = (0, size) \<longrightarrow>
          (flags AND VFIO_IRQ_SET_DATA_BOOL \<noteq> 0 \<longrightarrow> unat count \<le> unat size) \<and>
          (flags AND VFIO_IRQ_SET_DATA_EVENTFD \<noteq> 0 \<longrightarrow> 4 * unat count \<le> unat size))"

lemma u32_at_user:
  "p + 4 \<le> n \<Longrightarrow> u32_at (map (\<lambda>i. user_mem (vdev y) (arg + i)) [0..<n]) p = user_u32 y (arg + p)"
proof -
  assume n: "p + 4 \<le> n"
  then have "take 4 (drop p (map (\<lambda>i. user_mem (vdev y) (arg + i)) [0..<n])) = map (\<lambda>i. user_mem (vdev y) (arg + p + i)) [0..<4]"
    by (intro nth_equalityI) (auto simp: ac_simps)
  then show ?thesis by (simp only: u32_at_def user_u32_def)
qed

lemma copy_struct_bytes:
  assumes "copy_struct K arg n y = (rc, bs, y')"
  shows "bs = map (\<lambda>i. user_mem (vdev y) (arg + i)) [0..<n]" "user_mem (vdev y') = user_mem (vdev y)"
  using assms by (auto simp: copy_struct_def sys_rc_def case_prod_unfold)

lemma user_mem_irq_count: "user_mem (snd (vfio_pci_get_irq_count K i s)) = user_mem s"
  by (simp add: vfio_pci_get_irq_count_def Let_def case_prod_unfold)

lemma s32_at_user:
  assumes "s32_at (map (\<lambda>i. user_mem (vdev y) (addr + i)) [0..<n]) 0 = Some fd"
  shows "fd = sint (user_u32 y addr)"
proof -
  from assms have "4 \<le> n" by (simp add: s32_at_def load_def split: if_splits)
  then have "take 4 (map (\<lambda>i. user_mem (vdev y) (addr + i)) [0..<n]) = map (\<lambda>i. user_mem (vdev y) (addr + i)) [0..<4]"
    by (intro nth_equalityI) auto
  with assms \<open>4 \<le> n\<close> show ?thesis by (simp only: s32_at_def load_def user_u32_def) simp
qed

lemma set_irqs_total:
  assumes law: "irq_validate_law K" and inv: "session_inv T z (vdev y)" and ok: "allowed y (Ioctl VFIO_DEVICE_SET_IRQS arg)"
  shows "\<exists>r y'. ioctl_set_irqs K arg y = Some (r, y') \<and> session_inv T z (vdev y')"
proof -
  obtain rc hdr a where a: "copy_struct K arg 20 y = (rc, hdr, a)" by (metis prod_cases3)
  define flags index start count where "flags = u32_at hdr 4" "index = u32_at hdr 8" "start = u32_at hdr 12" "count = u32_at hdr 16"
  obtain most b where b: "vfio_pci_get_irq_count K (unat index) (vdev a) = (most, b)" by fastforce
  obtain ret sz c where c: "kcall K (Irq (Set_irqs_validate (u32_at hdr 0) flags index start count (int most))) b = ((ret, sz), c)"
    by (metis prod.collapse)
  obtain q d where d: "(if sz \<noteq> 0 then kcall_rc K (Mem (Memdup_user (arg + 20) (unat sz))) c else (0, c)) = (q, d)" by fastforce
  define data where "data = map (\<lambda>i. user_mem d (arg + 20 + i)) [0..<unat sz]"
  have ka: "kept (vdev y) (vdev a)" using kept_struct(1) [of "vdev y" y K arg 20] a by simp
  then have kb: "kept (vdev y) b" using kept_irq_count b by (metis snd_conv)
  then have kc: "kept (vdev y) c" using kept_call(3) c quiet_more_calls(3) by (metis snd_conv)
  then have kd: "kept (vdev y) d" using kept_call(2) [OF kc] d by (auto simp: kept_rc split: if_splits)
  have inv_d: "session_inv T z d" using session_inv_kept [OF kd inv] .
  then have irq: "irq_ok d" "intx_armed d" by (simp_all add: session_inv_def base_inv_def config_ok_def)
  have run: "ioctl_set_irqs K arg y = (if rc \<noteq> 0 then Some (- EFAULT, a) else if ret \<noteq> 0 then Some (ret, a\<lparr>vdev := c\<rparr>)
      else if q < 0 then Some (q, a\<lparr>vdev := d\<rparr>)
      else do { (r, s) \<leftarrow> vfio_pci_set_irqs_ioctl K flags (unat index) start count data d; Some (r, a\<lparr>vdev := s\<rparr>) })"
    unfolding ioctl_set_irqs_def Let_def a prod.case flags_index_start_count_def [symmetric] b c d data_def by (rule refl)
  show ?thesis
  proof (cases "rc \<noteq> 0 \<or> ret \<noteq> 0 \<or> q < 0")
    case True
    with run ka kc kd session_inv_kept [OF _ inv] show ?thesis by auto
  next
    case False
    have "irq_data_ok flags count data"
      using law c False unfolding irq_validate_law_def irq_data_ok_def data_def by (auto simp: kcall_Pair)
    then obtain r s' where s': "vfio_pci_set_irqs_ioctl K flags (unat index) start count data d = Some (r, s')"
      using ioctl_defined [OF irq] by fast
    have "user_mem d = user_mem (vdev y)"
      using d c b copy_struct_bytes(2) [OF a] user_mem_irq_count [of K "unat index" "vdev a"]
      by (auto simp: kcall_Pair kcall_rc_Pair split: if_splits)
    then have "fd = sint (user_u32 y (arg + 20))" if "s32_at data 0 = Some fd" for fd
      using s32_at_user [of y "arg + 20" "unat sz"] that by (simp add: data_def)
    moreover have "flags = user_u32 y (arg + 4)" "index = user_u32 y (arg + 8)"
      by (simp_all add: flags_index_start_count_def copy_struct_bytes(1) [OF a] u32_at_user)
    moreover have "is_intx d = is_intx (vdev y)" using kd by (simp add: kept_def quiet_def)
    ultimately have "\<not> is_intx d \<and> (\<forall>fd. s32_at data 0 = Some fd \<longrightarrow> 0 \<le> fd)" if "arms_intx flags (unat index)"
      using ok that by auto
    then have "intx_armed s'" using ioctl_armed [OF irq _ s'] by blast
    then have "session_inv T z s'" by (rule session_inv_irq [OF frame_ioctl [OF s'] ioctl_irq_ok [OF irq(1) s'] _ inv_d])
    moreover have "ioctl_set_irqs K arg y = Some (r, a\<lparr>vdev := s'\<rparr>)"
      using False unfolding run s' bind.bind_lunit prod.case by (simp only: de_Morgan_disj not_not if_False simp_thms)
    ultimately show ?thesis by (intro exI [of _ r] exI [of _ "a\<lparr>vdev := s'\<rparr>"]) simp
  qed
qed

section \<open>Writes bound to eventfds\<close>

text \<open>Only the list changes, beside what may change anyway.\<close>

definition but_list :: "vfio_pci_device \<Rightarrow> vfio_pci_device \<Rightarrow> bool" where
  "but_list s s' \<longleftrightarrow> kept s (s'\<lparr>ioeventfds_list := ioeventfds_list s, ioeventfds_nr := ioeventfds_nr s\<rparr>)"

lemma but_list_upd [simp]: "but_list s (t\<lparr>ioeventfds_list := l, ioeventfds_nr := n\<rparr>) = but_list s t"
  by (simp add: but_list_def)

lemma but_list_kept: "kept s t \<Longrightarrow> but_list s t"
  by (simp add: but_list_def kept_def quiet_def)

lemma base_inv_but_list: "but_list s t \<Longrightarrow> base_inv T z s \<Longrightarrow> base_inv T z t"
  using base_inv_kept base_inv_list unfolding but_list_def by blast

lemma ioeventfd_update_total:
  assumes "barmap s bar = Some io"
  shows "\<exists>r s'. ioeventfd_update K pos bar data count fd s = Some (r, s') \<and> but_list s s'"
proof (cases "List.extract (ioev_matches (int pos) bar data count) (ioeventfds_list s)")
  case (Some x)
  have "but_list s (kcall_do K (Evt (Virqfd_disable v)) s)" for v by (intro but_list_kept) (simp add: kept)
  with Some show ?thesis by (cases x) (simp add: ioeventfd_update_def Let_def but_list_kept)
next
  case None
  obtain p t where t: "kcall_rc K (Mem Alloc) s = (p, t)" by fastforce
  obtain ret h u where u: "kcall K (Evt (Virqfd_enable Virqfd_ioeventfd fd)) t = ((ret, h), u)" by (metis prod.collapse)
  have kt: "kept s t" by (rule kept_rc [OF t]) simp_all
  then have "kept s u" using kept_call(3) [of s t "Evt (Virqfd_enable Virqfd_ioeventfd fd)" K] u by simp
  then have "but_list s t" "but_list s u" using kt by (simp_all add: but_list_kept)
  moreover have "barmap t bar = Some io" using t assms by (auto simp: kcall_rc_Pair)
  ultimately show ?thesis using None
    by (simp add: ioeventfd_update_def Let_def t u but_list_kept)
qed

lemma ioeventfd_total:
  assumes inv: "session_inv T z s" and off: "0 \<le> VFIO_PCI_OFFSET_TO_INDEX offset"
  shows "\<exists>r s'. vfio_pci_ioeventfd K offset data count fd s = Some (r, s') \<and> session_inv T z s'"
proof -
  let ?bar = "nat (VFIO_PCI_OFFSET_TO_INDEX offset)" and ?pos = "nat (offset AND VFIO_PCI_OFFSET_MASK)"
  have "\<exists>r s'. vfio_pci_ioeventfd K offset data count fd s = Some (r, s') \<and> but_list s s'"
  proof (cases "?bar < 6")
    case False
    then have "5 < VFIO_PCI_OFFSET_TO_INDEX offset" by linarith
    then show ?thesis by (simp add: vfio_pci_ioeventfd_def Let_def but_list_kept)
  next
    case bar: True
    obtain ret t where t: "vfio_pci_setup_barmap K ?bar s = Some (ret, t)" "ret = 0 \<longrightarrow> barmap t ?bar \<noteq> None"
      using bar by (cases rule: setup_barmap_cases [of ?bar K s]) auto
    have kt: "kept s t" by (rule kept_setup_barmap [OF kept_refl t(1)])
    have "\<exists>r s'. ioeventfd_update K ?pos ?bar data count fd t = Some (r, s') \<and> but_list s s'" if "ret = 0"
    proof -
      from that t(2) obtain io where "barmap t ?bar = Some io" by auto
      then obtain r s' where "ioeventfd_update K ?pos ?bar data count fd t = Some (r, s')" "but_list t s'"
        using ioeventfd_update_total by blast
      moreover have "but_list s s'" using \<open>but_list t s'\<close> kt by (simp add: but_list_def kept_def quiet_def)
      ultimately show ?thesis by blast
    qed
    moreover have "int ?bar = VFIO_PCI_OFFSET_TO_INDEX offset" using off by simp
    ultimately show ?thesis using bar off but_list_kept [OF kt] but_list_kept [OF kept_refl]
      unfolding vfio_pci_ioeventfd_def Let_def t(1) bind.bind_lunit prod.case
      by (cases "ret = 0") auto
  qed
  then obtain r s' where s': "vfio_pci_ioeventfd K offset data count fd s = Some (r, s')" "but_list s s'" by blast
  have "base_inv T z s'" using base_inv_but_list [OF s'(2)] inv by (simp add: session_inv_def)
  moreover have "ioev_inv s'" using ioeventfd_inv [OF _ s'(1)] inv by (simp add: session_inv_def)
  ultimately show ?thesis using s'(1) by (auto simp: session_inv_def)
qed

lemma ioctl_ioeventfd_total:
  assumes inv: "session_inv T z (vdev y)" and ok: "allowed y (Ioctl VFIO_DEVICE_IOEVENTFD arg)"
  shows "\<exists>r y'. ioctl_ioeventfd K arg y = Some (r, y') \<and> session_inv T z (vdev y')"
proof -
  obtain rc e a where a: "copy_struct K arg 28 y = (rc, e, a)" by (metis prod_cases3)
  have inv_a: "session_inv T z (vdev a)"
    by (rule session_inv_kept [OF _ inv]) (use kept_struct(1) [of "vdev y" y K arg 28] a in simp)
  have "u64_at e 8 = user_u64 y (arg + 8)"
    by (simp add: u64_at_def user_u64_def copy_struct_bytes(1) [OF a] u32_at_user add.assoc)
  then have "0 \<le> VFIO_PCI_OFFSET_TO_INDEX (sint (u64_at e 8))" using ok by (simp add: VFIO_PCI_OFFSET_TO_INDEX_def)
  from ioeventfd_total [OF inv_a this] obtain r s where
    s: "vfio_pci_ioeventfd K (sint (u64_at e 8)) (u64_at e 16) (unat (u32_at e 4 AND VFIO_DEVICE_IOEVENTFD_SIZE_MASK))
        (sint (u32_at e 24)) (vdev a) = Some (r, s)" "session_inv T z s" by blast
  have "ioctl_ioeventfd K arg y \<in> {Some (- EFAULT, a), Some (- EINVAL, a), Some (r, a\<lparr>vdev := s\<rparr>)}"
    unfolding ioctl_ioeventfd_def Let_def a prod.case s(1) bind.bind_lunit by simp
  then show ?thesis using inv_a s(2) by auto
qed

section \<open>Reads and writes\<close>

lemma region_index_small:
  assumes "0 \<le> ppos" "ppos < 2 ^ 63"
  shows "int (unat (region_index ppos)) = VFIO_PCI_OFFSET_TO_INDEX ppos"
proof -
  have "0 \<le> VFIO_PCI_OFFSET_TO_INDEX ppos" "VFIO_PCI_OFFSET_TO_INDEX ppos < 2 ^ 32"
    using assms by (simp_all add: VFIO_PCI_OFFSET_TO_INDEX_def drop_bit_eq_div)
  then show ?thesis by (simp add: region_index_def uint_nat [symmetric] take_bit_int_eq_self unsigned_of_int)
qed

lemma rw_total:
  assumes cfg: "user_cfg_law K" and law: "region_ops_law D" and inv: "session_inv T z s" and pos: "0 \<le> ppos" "ppos < 2 ^ 63"
  shows "\<exists>r ppos' s'. vfio_pci_rw K D T buf count ppos iswrite s = Some (r, ppos', s') \<and> session_inv T z s'"
proof -
  let ?i = "unat (region_index ppos)"
  note i = region_index_small [OF pos]
  have ok: "config_ok T s" using inv by (simp add: session_inv_def base_inv_def)
  obtain a b c where cf: "vfio_pci_config_rw K T buf count ppos iswrite s = Some (a, b, c)" "session_inv T z c"
    using config_rw_total [OF cfg ok, of buf count ppos iswrite] kept_dev_step session_inv_kept [OF _ inv] by blast
  have bar: "\<exists>r p t. vfio_pci_bar_rw K buf count ppos w s = Some (r, p, t) \<and> session_inv T z t" if "?i \<le> 6" for w
  proof -
    have "0 \<le> VFIO_PCI_OFFSET_TO_INDEX ppos" "VFIO_PCI_OFFSET_TO_INDEX ppos \<le> 6" using i that by linarith+
    then show ?thesis using bar_rw_total session_inv_kept [OF _ inv] by blast
  qed
  obtain d e f where v: "vfio_pci_vga_rw K buf count ppos iswrite s = (d, e, f)" by (metis prod_cases3)
  then have "session_inv T z f" using kept_vga_rw [of s K buf count ppos iswrite] session_inv_kept [OF _ inv] by simp
  moreover have "\<exists>r p t. ops_rw D x buf count ppos iswrite s = Some (r, p, t) \<and> session_inv T z t" for x
    using law session_inv_kept [OF _ inv] unfolding region_ops_law_def by blast
  ultimately show ?thesis using cf bar inv v
    unfolding vfio_pci_rw_def Let_def by simp
qed

section \<open>Every request\<close>

definition session_laws :: "kernel \<Rightarrow> driver \<Rightarrow> bool" where
  "session_laws K D \<longleftrightarrow> user_cfg_law K \<and> irq_validate_law K \<and> region_ops_law D"

lemma ioctl_total:
  assumes laws: "session_laws K D" and inv: "session_inv T z (vdev y)" and ok: "allowed y (Ioctl cmd arg)"
  shows "\<exists>r y'. vfio_pci_ioctl K D B cmd arg y = Some (r, y') \<and> session_inv T z (vdev y')"
proof -
  have kept: "\<exists>r y'. Some x = Some (r, y') \<and> session_inv T z (vdev y')" if "kept (vdev y) (vdev (snd x))" for x :: "int \<times> system"
    using session_inv_kept [OF that inv] by (cases x) simp
  show ?thesis
    using kept [OF kept_get_info] kept [OF kept_get_region_info] kept [OF kept_irq_info] kept [OF kept_reset]
      kept [OF kept_hot_reset_info] kept [OF kept_hot_reset] set_irqs_total [OF _ inv] ioctl_ioeventfd_total [OF inv]
      laws ok inv by (cases cmd) (simp_all add: vfio_pci_ioctl_def session_laws_def)
qed

lemma event_total:
  assumes inv: "session_inv T z s" and ok: "\<forall>f i st n d. x \<noteq> Set_irqs f i st n d"
  shows "\<exists>s'. irq_step K x s = Some s' \<and> session_inv T z s'"
proof -
  have irq: "irq_ok s" "intx_armed s" "irq_inv s" using inv by (simp_all add: session_inv_def base_inv_def config_ok_def irq_ok_def)
  have next_inv: "session_inv T z t" if "irq_frame s t" "quiet s t" for t
    by (rule session_inv_irq [OF that(1) quiet_ok [OF that(2) irq(1)] quiet_intx_armed [OF that(2) irq(2)] inv])
  show ?thesis
  proof (cases x)
    case Set_irqs
    with ok show ?thesis by simp
  next
    case Intx_fires
    show ?thesis
    proof (cases "is_intx s \<and> armed (ctx s) = 1")
      case True
      then obtain r t where t: "vfio_intx_handler K s = Some (r, t)" using handler_defined [OF irq(3,2)] by fast
      then have "irq_frame s t"
        by (auto simp: vfio_intx_handler_def frame_simps elim!: frame_send split: if_splits)
      with t True Intx_fires next_inv quiet_handler [OF t] show ?thesis by simp
    next
      case False
      with inv Intx_fires show ?thesis by (simp only: irq_step.simps if_False) simp
    qed
  next
    case (Msi_fires v)
    have "session_inv T z (snd (vfio_msihandler K t s))" for t
      by (rule session_inv_kept [OF _ inv]) (simp add: vfio_msihandler_def kept)
    with inv Msi_fires show ?thesis by (auto split: option.split)
  next
    case Unmask_eventfd
    obtain t where t: "vfio_pci_intx_unmask K s = Some t" using unmask_defined [OF irq(3,2)] by blast
    with Unmask_eventfd inv next_inv [OF frame_unmask [OF t] quiet_unmask [OF t]] show ?thesis by simp
  qed
qed

text \<open>
  What the driver does on a request, an interrupt or an event is never undefined, and the invariant holds again afterwards.
\<close>

lemma on_dev_total:
  "\<exists>s'. f (vdev y) = Some s' \<and> session_inv T z s' \<Longrightarrow> \<exists>y'. on_dev f y = Some y' \<and> session_inv T z (vdev y')"
  by (auto simp: on_dev_def)

lemma on_dev_kept:
  "session_inv T z (vdev y) \<Longrightarrow> kept (vdev y) (f (vdev y)) \<Longrightarrow> \<exists>y'. on_dev (\<lambda>s. Some (f s)) y = Some y' \<and> session_inv T z (vdev y')"
  by (auto simp: on_dev_def intro: session_inv_kept)

lemma session_step_total:
  assumes laws: "session_laws K D" and inv: "session_inv T z (vdev y)"
  shows "\<exists>y'. session_step K D T B x y = Some y' \<and> session_inv T z (vdev y')"
proof (cases "allowed y x")
  case False
  with inv show ?thesis by (simp add: session_step_def)
next
  case ok: True
  have law: "user_cfg_law K" "region_ops_law D" using laws by (simp_all add: session_laws_def)
  have "\<exists>y'. perform K D T B x y = Some y' \<and> session_inv T z (vdev y')"
  proof (cases x)
    case (User_store addr bs)
    have "session_inv T z ((vdev y)\<lparr>user_mem := m\<rparr>)" for m by (rule session_inv_kept [OF _ inv]) simp
    with User_store show ?thesis by (simp add: on_vdev_def)
  next
    case (Ioctl cmd arg)
    with ioctl_total [OF laws inv, of cmd arg B] ok show ?thesis by auto
  next
    case (Read_at buf count ppos)
    then show ?thesis using rw_total [OF law inv, of ppos buf count False] ok inv
      by (simp only: perform.simps, intro on_dev_total) (auto simp: vfio_pci_read_def)
  next
    case (Write_at buf count ppos)
    then show ?thesis using rw_total [OF law inv, of ppos buf count True] ok inv
      by (simp only: perform.simps, intro on_dev_total) (auto simp: vfio_pci_write_def)
  next
    case (Mmap_at vma)
    then obtain r s where "vfio_pci_mmap K D vma (vdev y) = Some (r, s)" "kept (vdev y) s"
      using mmap_total [OF law(2), of vma "vdev y" K] ok by auto
    with Mmap_at session_inv_kept [OF _ inv] show ?thesis by (simp add: on_dev_def)
  next
    case (Event e)
    with ok have "\<forall>f i st n d. e \<noteq> Set_irqs f i st n d" by auto
    with Event event_total [OF inv] show ?thesis by (simp only: perform.simps) (intro on_dev_total)
  next
    case (Ioeventfd_fires i)
    show ?thesis unfolding Ioeventfd_fires perform.simps
      by (rule on_dev_kept [OF inv]) (simp add: vfio_pci_ioeventfd_handler_def kept)
  next
    case Device_request
    show ?thesis unfolding Device_request perform.simps
      by (rule on_dev_kept [OF inv]) (simp add: vfio_pci_request_def kept split: option.split)
  next
    case Aer_error
    show ?thesis unfolding Aer_error perform.simps
      by (rule on_dev_kept [OF inv]) (simp add: vfio_pci_aer_err_detected_def Let_def kept split: option.split)
  qed
  with ok show ?thesis by (simp add: session_step_def)
qed

interpretation session_machine: safe_under "session_step K D T B" "\<lambda>_. True" "\<lambda>y. session_laws K D \<and> session_inv T z (vdev y)"
  for K D T B z
proof (unfold_locales, goal_cases)
  case (1 y x y')
  then show ?case using session_step_total [of K D T z y B x] by auto
next
  case (2 y x)
  then show ?case using session_step_total [of K D T z y B x] by auto
qed

end
