(* ===== verification/Session_Life.thy ===== *)
theory Session_Life
  imports Session
begin

text \<open>
  The ends of a session: the first open of a device establishes the invariant of a session, and from every state
  with the invariant the last close is defined.
\<close>

section \<open>The first open\<close>

text \<open>
  The set-up of Intel and NVIDIA regions is in other files. It succeeds, or finds that there is nothing to set up, and
  leaves alone what \<open>kept\<close> is about, as does the release of a region.
\<close>

definition region_setup_law :: "driver \<Rightarrow> bool" where
  "region_setup_law D \<longleftrightarrow>
     (\<forall>s. fst (vfio_pci_igd_init D s) = 0 \<and> kept s (snd (vfio_pci_igd_init D s))) \<and>
     (\<forall>s. fst (vfio_pci_nvdia_v100_nvlink2_init D s) \<in> {0, - ENODEV} \<and> kept s (snd (vfio_pci_nvdia_v100_nvlink2_init D s))) \<and>
     (\<forall>s. fst (vfio_pci_ibm_npu2_init D s) \<in> {0, - ENODEV} \<and> kept s (snd (vfio_pci_ibm_npu2_init D s))) \<and>
     (\<forall>r s. kept s (ops_release D r s))"

lemma regions_enabled:
  assumes "region_setup_law D"
  shows "\<exists>t. enable_regions K D s = (0, t) \<and> kept s t"
proof -
  obtain p a where a: "(if vfio_pci_is_vga (pdev s) \<and> vendor (pdev s) = PCI_VENDOR_ID_INTEL \<and> IS_ENABLED_VFIO_PCI_IGD K
      then vfio_pci_igd_init D s else (0, s)) = (p, a)" by fastforce
  obtain q b where b: "(if vendor (pdev a) = PCI_VENDOR_ID_NVIDIA \<and> IS_ENABLED_VFIO_PCI_NVLINK2 K
      then vfio_pci_nvdia_v100_nvlink2_init D a else (0, a)) = (q, b)" by fastforce
  obtain r c where c: "(if vendor (pdev b) = PCI_VENDOR_ID_IBM \<and> IS_ENABLED_VFIO_PCI_NVLINK2 K
      then vfio_pci_ibm_npu2_init D b else (0, b)) = (r, c)" by fastforce
  have init: "fst (vfio_pci_igd_init D s) = 0" "kept s (snd (vfio_pci_igd_init D s))"
    "fst (vfio_pci_nvdia_v100_nvlink2_init D a) \<in> {0, - ENODEV}" "kept a (snd (vfio_pci_nvdia_v100_nvlink2_init D a))"
    "fst (vfio_pci_ibm_npu2_init D b) \<in> {0, - ENODEV}" "kept b (snd (vfio_pci_ibm_npu2_init D b))"
    using assms unfolding region_setup_law_def by blast+
  have ka: "p = 0" "kept s a" using init(1,2) a by (auto split: if_splits)
  have kb: "q \<in> {0, - ENODEV}" "kept a b" using init(3,4) b by (auto split: if_splits)
  have kc: "r \<in> {0, - ENODEV}" "kept b c" using init(5,6) c by (auto split: if_splits)
  have "kept s c" by (rule kept_trans [OF ka(2) kept_trans [OF kb(2) kc(2)]])
  moreover have "enable_regions K D s = (if p \<noteq> 0 then (p, a) else if q \<noteq> 0 \<and> q \<noteq> - ENODEV then (q, b)
      else if r \<noteq> 0 \<and> r \<noteq> - ENODEV then (r, c) else (0, c))"
    unfolding enable_regions_def Let_def a prod.case b c by (rule refl)
  then have "enable_regions K D s = (0, c)" using ka(1) kb(1) kc(1) by simp
  ultimately show ?thesis by blast
qed

lemma kept_flags [kept]:
  assumes "kept z s"
  shows "kept z (s\<lparr>nointx := b\<rparr>)" "kept z (s\<lparr>pci_2_3 := b\<rparr>)" "kept z (s\<lparr>reset_works := b\<rparr>)"
    "kept z (s\<lparr>pci_saved_state := p\<rparr>)" "kept z (s\<lparr>has_vga := b\<rparr>)" "kept z (s\<lparr>bar_mmap_supported := f\<rparr>)"
    "kept z (s\<lparr>virq_disabled := b\<rparr>)" "kept z (s\<lparr>regions := r\<rparr>)" "kept z (s\<lparr>needs_reset := b\<rparr>)"
  using assms by (simp_all add: kept_def quiet_def)

lemma enable_intx_keeps:
  "kept s (enable_intx K D s)" "extended_caps (enable_intx K D s) = extended_caps s"
  by (simp_all add: enable_intx_def Let_def case_prod_unfold kept)

text \<open>\<open>enable_msix\<close> and the probing of the BARs come after the set-up of configuration space.\<close>

definition opened :: "vfio_pci_device \<Rightarrow> vfio_pci_device \<Rightarrow> bool" where
  "opened z s \<longleftrightarrow> config_ok ready_tables s \<and> msi_perm s \<noteq> Freed \<and> ioeventfds_list s = [] \<and> ioeventfds_nr s = 0 \<and>
     pdev s = pdev z \<and> refcnt s = refcnt z \<and> (extended_caps s \<longrightarrow> PCI_CFG_SPACE_SIZE < cfg_size (pdev z))"

lemma opened_kept: "kept s t \<Longrightarrow> opened z s \<Longrightarrow> opened z t"
  using config_ok_kept [of s t ready_tables] unfolding opened_def by (simp add: kept_def)

lemma opened_upd:
  "opened z (s\<lparr>msix_bar := b\<rparr>) = opened z s" "opened z (s\<lparr>msix_offset := c\<rparr>) = opened z s" "opened z (s\<lparr>msix_size := d\<rparr>) = opened z s"
  "opened z (s\<lparr>dummy_resources_list := l\<rparr>) = opened z s" "opened z (s\<lparr>bar_mmap_supported := f\<rparr>) = opened z s"
proof -
  have "opened z t = opened z s" if "trace t = trace s" "pdev t = pdev s" "vconfig t = vconfig s" "pci_config_map t = pci_config_map s"
    "msi_perm t = msi_perm s" "rbar t = rbar s" "ctx t = ctx s" "num_ctx t = num_ctx s" "irq_type t = irq_type s"
    "err_trigger t = err_trigger s" "req_trigger t = req_trigger s" "ioeventfds_list t = ioeventfds_list s"
    "ioeventfds_nr t = ioeventfds_nr s" "refcnt t = refcnt s" "extended_caps t = extended_caps s" for t
  proof -
    have "caps_fit ready_tables t = caps_fit ready_tables s" by (rule caps_fit_map) (use that in simp_all)
    with that show ?thesis
      by (simp add: opened_def config_ok_def config_sized_def irq_ok_def irq_inv_def balanced_def held_refs_def
          held_lines_def intx_armed_def split: irq_cookie.split)
  qed
  from this [of "s\<lparr>msix_bar := b\<rparr>"] this [of "s\<lparr>msix_offset := c\<rparr>"] this [of "s\<lparr>msix_size := d\<rparr>"]
    this [of "s\<lparr>dummy_resources_list := l\<rparr>"] this [of "s\<lparr>bar_mmap_supported := f\<rparr>"]
  show "opened z (s\<lparr>msix_bar := b\<rparr>) = opened z s" "opened z (s\<lparr>msix_offset := c\<rparr>) = opened z s" "opened z (s\<lparr>msix_size := d\<rparr>) = opened z s"
    "opened z (s\<lparr>dummy_resources_list := l\<rparr>) = opened z s" "opened z (s\<lparr>bar_mmap_supported := f\<rparr>) = opened z s" by simp_all
qed

lemma opened_call:
  "quiet_call c \<Longrightarrow> opened z s \<Longrightarrow> opened z (snd (kcall K c s))" "quiet_call c \<Longrightarrow> opened z s \<Longrightarrow> opened z (snd (kcall_rc K c s))"
  by (auto intro: opened_kept kept_call kept_refl)

lemma opened_msix: "opened z s \<Longrightarrow> opened z (enable_msix K s)"
  by (simp add: enable_msix_def Let_def case_prod_unfold opened_upd opened_call)

definition probed :: "vfio_pci_device \<Rightarrow> vfio_pci_device \<Rightarrow> bool" where
  "probed z s \<longleftrightarrow> opened z s \<and> dummy_resources_list s \<noteq> None"

lemma reserve_probed: "probed z s \<Longrightarrow> probed z (snd (reserve_rest_of_page K bar s))"
  by (simp add: reserve_rest_of_page_def Let_def case_prod_unfold probed_def opened_upd opened_call)

lemma probe_mmap_probed: "probed z s \<Longrightarrow> probed z (probe_mmap K bar s)"
  using reserve_probed [of z s K bar]
  by (simp add: probe_mmap_def Let_def case_prod_unfold probed_def opened_upd)

lemma probe_mmaps_probed:
  assumes "opened z s"
  shows "probed z (vfio_pci_probe_mmaps K s)"
proof -
  have "probed z (fold (probe_mmap K) bs t)" if "probed z t" for bs t
    using that by (induction bs arbitrary: t) (auto intro: probe_mmap_probed)
  moreover have "probed z (s\<lparr>dummy_resources_list := Some []\<rparr>)" using assms by (simp add: probed_def opened_upd)
  ultimately show ?thesis by (simp only: vfio_pci_probe_mmaps_def)
qed

lemma probed_session: "probed z s \<Longrightarrow> session_inv ready_tables (pdev s, extended_caps s, refcnt s) s"
  by (auto simp: probed_def opened_def session_inv_def base_inv_def ioev_inv_def)

text \<open>A device that was never opened, or is closed.\<close>

definition closed_device :: "kernel \<Rightarrow> vfio_pci_device \<Rightarrow> (nat \<rightharpoonup> u8) \<Rightarrow> extent list \<Rightarrow> extent list \<Rightarrow> bool" where
  "closed_device K s mem cs es \<longleftrightarrow> openable K s mem cs es \<and> irq_ok s \<and> intx_armed s \<and>
     ioeventfds_list s = [] \<and> ioeventfds_nr s = 0"

lemma closed_device_kept:
  assumes "closed_device K s mem cs es" "kept s t" "extended_caps t = extended_caps s"
  shows "closed_device K t mem cs es"
  using assms quiet_ok quiet_intx_armed by (auto simp: closed_device_def openable_def kept_def)

lemma config_init_opened:
  assumes "closed_device K s mem cs es"
  shows "\<exists>ret t. vfio_config_init K s = Some (ret, t) \<and> (ret = 0 \<longrightarrow> opened s t) \<and> (reliable K \<longrightarrow> ret = 0)"
proof -
  have op: "openable K s mem cs es" using assms by (simp add: closed_device_def)
  then have n: "64 \<le> cfg_size (pdev s)" "cfg_size (pdev s) mod 4 = 0" "cfg_size (pdev s) < 2 ^ 31" by (simp_all add: openable_def)
  from config_init_lays [OF op] obtain ret t A where t: "vfio_config_init K s = Some (ret, t)" "ret = 0 \<longrightarrow> laid s A t"
    "reliable K \<longrightarrow> ret = 0" by blast
  have "opened s t" if "ret = 0"
  proof -
    from that t(2) have laid: "laid s A t" by blast
    then have "ioeventfds_list t = []" "ioeventfds_nr t = 0" using assms by (simp_all add: laid_def closed_device_def)
    moreover have "config_ok ready_tables t" using assms by (intro laid_config_ok [OF laid n]) (simp_all add: closed_device_def)
    ultimately show ?thesis using laid laid_msi_perm [OF laid] by (simp add: opened_def laid_def)
  qed
  with t show ?thesis by blast
qed

text \<open>An open device, of which it is known how it will look when it is closed.\<close>

definition known :: "kernel \<Rightarrow> (nat \<rightharpoonup> u8) \<Rightarrow> extent list \<Rightarrow> extent list \<Rightarrow> vfio_pci_device \<Rightarrow> bool" where
  "known K mem cs es s \<longleftrightarrow> openable K (s\<lparr>msi_perm := NULL\<rparr>) mem cs es"

lemma probed_known:
  assumes "closed_device K s mem cs es" "probed s t"
  shows "known K mem cs es t"
  using assms by (auto simp: closed_device_def openable_def known_def probed_def opened_def)

text \<open>A kernel that lets the device be opened.\<close>

definition grants_open :: "kernel \<Rightarrow> bool" where
  "grants_open K \<longleftrightarrow> reliable K \<and> (\<forall>h. fst (respond K h (Life Module_get)) \<noteq> 0 \<and> fst (respond K h (Life Enable_device)) = 0 \<and>
     fst (respond K h (Power Try_reset_function)) \<noteq> - EAGAIN)"

lemma sys_rc_result: "sys_rc K c y = (r, y') \<Longrightarrow> \<exists>h. r = fst (respond K h c)"
  by (auto simp: sys_rc_def kcall_rc_Pair)

lemma enable_session:
  assumes init: "region_setup_law D" and closed: "closed_device K (vdev y) mem cs es"
  shows "\<exists>ret y'. vfio_pci_enable K D B y = Some (ret, y') \<and> (ret = 0 \<longrightarrow> probed (vdev y) (vdev y')) \<and>
    (grants_open K \<longrightarrow> ret = 0)"
proof -
  let ?a = "sys_do K (Life Clear_master) (sys_do K (Power (Set_power_state PCI_D0)) y)"
  obtain ret1 b where b: "sys_rc K (Life Enable_device) ?a = (ret1, b)" by fastforce
  obtain ret2 c where c: "sys_rc K (Power Try_reset_function) b = (ret2, c)" by fastforce
  let ?s = "kcall_do K (Power Save_state) ((vdev c)\<lparr>reset_works := ret2 = 0\<rparr>)"
  obtain p d where d: "kcall_rc K (Power Store_saved_state) ?s = (p, d)" by fastforce
  define e where "e = enable_intx K D (d\<lparr>pci_saved_state := if p = 0 then None else Some p\<rparr>)"
  have ext: "extended_caps (vdev z') = extended_caps (vdev z)" if "sys_rc K k z = (r, z')" for k z r z'
    using that by (auto simp: sys_rc_def kcall_rc_Pair)
  have k: "kept (vdev y) (vdev ?a)" by (simp add: kept)
  then have kb: "kept (vdev y) (vdev b)" using kept_sys(2) [OF k, of "Life Enable_device" K] b by simp
  then have kc: "kept (vdev y) (vdev c)" using kept_sys(2) [OF kb, of "Power Try_reset_function" K] c by simp
  then have "kept (vdev y) ?s" by (simp add: kept)
  then have kd: "kept (vdev y) d" using kept_rc [OF d] by simp
  then have "kept (vdev y) (d\<lparr>pci_saved_state := if p = 0 then None else Some p\<rparr>)" by (rule kept_flags)
  then have ke: "kept (vdev y) e" using enable_intx_keeps(1) kept_trans by (fastforce simp: e_def)
  moreover have "extended_caps d = extended_caps (vdev c)" using d by (auto simp: kcall_rc_Pair)
  then have "extended_caps e = extended_caps (vdev y)"
    by (simp add: e_def enable_intx_keeps(2) ext [OF c] ext [OF b] sys_do_def)
  ultimately have "closed_device K e mem cs es" by (rule closed_device_kept [OF closed])
  then obtain ret3 f where f: "vfio_config_init K e = Some (ret3, f)" "ret3 = 0 \<longrightarrow> opened e f" "reliable K \<longrightarrow> ret3 = 0"
    using config_init_opened by blast
  have grants: "ret1 = 0 \<and> ret2 \<noteq> - EAGAIN \<and> ret3 = 0" if "grants_open K"
    using that sys_rc_result [OF b] sys_rc_result [OF c] f(3) unfolding grants_open_def by metis
  define g where "g = (if \<not> vfio_vga_disabled K (disable_vga D) \<and> vfio_pci_is_vga (pdev (enable_msix K f))
    then (enable_msix K f)\<lparr>has_vga := True\<rparr> else enable_msix K f)"
  obtain h where h: "enable_regions K D g = (0, h)" "kept g h" using regions_enabled [OF init] by blast
  have same: "pdev e = pdev (vdev y)" "refcnt e = refcnt (vdev y)" using ke by (simp_all add: kept_def)
  have "probed (vdev y) (vfio_pci_probe_mmaps K h)" if "ret3 = 0"
  proof -
    have m: "opened e (enable_msix K f)" using that f(2) opened_msix by blast
    then have "opened e ((enable_msix K f)\<lparr>has_vga := True\<rparr>)" by (rule opened_kept [rotated]) (simp add: kept)
    with m have "opened e g" by (simp add: g_def)
    then have "opened (vdev y) h" using opened_kept [OF h(2), of e] same by (simp add: opened_def)
    then show ?thesis by (rule probe_mmaps_probed)
  qed
  moreover have "vfio_pci_enable K D B y = (if ret1 \<noteq> 0 then Some (ret1, b)
      else if ret2 = - EAGAIN then Some (ret2, sys_do K (Life Disable_device) c)
      else if ret3 \<noteq> 0 then Some (ret3, c\<lparr>vdev := kcall_do K (Life Disable_device) (f\<lparr>pci_saved_state := None\<rparr>)\<rparr>)
      else Some (0, c\<lparr>vdev := vfio_pci_probe_mmaps K h\<rparr>))"
    unfolding vfio_pci_enable_def Let_def b prod.case c d e_def [symmetric] f(1) bind.bind_lunit g_def [symmetric] h(1) by simp
  ultimately show ?thesis using grants by auto
qed

lemma open_session:
  assumes init: "region_setup_law D" and closed: "closed_device K (vdev y) mem cs es" "refcnt (vdev y) = 0"
  shows "\<exists>ret y'. vfio_pci_open K D B y = Some (ret, y') \<and>
    (ret = 0 \<longrightarrow> (\<exists>d e. session_inv ready_tables (d, e, 1) (vdev y')) \<and> known K mem cs es (vdev y')) \<and>
    (grants_open K \<longrightarrow> ret = 0)"
proof -
  obtain got a where a: "sys_rc K (Life Module_get) y = (got, a)" by fastforce
  have "kept (vdev y) (vdev a)" using kept_sys(2) [of "vdev y" y "Life Module_get" K] a by simp
  moreover have ext: "extended_caps (vdev a) = extended_caps (vdev y)" "refcnt (vdev a) = 0"
    using a closed(2) by (auto simp: sys_rc_def kcall_rc_Pair)
  ultimately have ca: "closed_device K (vdev a) mem cs es" by (intro closed_device_kept [OF closed(1)])
  from enable_session [OF init this] obtain ret b where
    b: "vfio_pci_enable K D B a = Some (ret, b)" "ret = 0 \<longrightarrow> probed (vdev a) (vdev b)" "grants_open K \<longrightarrow> ret = 0" by blast
  define c where "c = on_vdev (\<lambda>s. s\<lparr>refcnt := refcnt s + 1\<rparr>) (sys_do K (Life Eeh_open) b)"
  have c: "(\<exists>d e. session_inv ready_tables (d, e, 1) (vdev c)) \<and> known K mem cs es (vdev c)" if "ret = 0"
  proof -
    from that b(2) have pr: "probed (vdev a) (vdev b)" by blast
    then have one: "refcnt (vdev b) + 1 = 1" using ext(2) by (simp add: probed_def opened_def)
    have "session_inv ready_tables (pdev (vdev b), extended_caps (vdev b), refcnt (vdev b)) (vdev (sys_do K (Life Eeh_open) b))"
      by (rule session_inv_kept [OF _ probed_session [OF pr]]) (simp add: kept)
    from session_inv_refcnt [OF this, of 1]
    have "\<exists>d e. session_inv ready_tables (d, e, 1) (vdev c)" using one by (auto simp: c_def on_vdev_def sys_do_def)
    moreover have "known K mem cs es (vdev c) = known K mem cs es (vdev b)" by (simp add: known_def openable_def c_def on_vdev_def sys_do_def)
    ultimately show ?thesis using probed_known [OF ca pr] by blast
  qed
  moreover have "vfio_pci_open K D B y = (if got = 0 then Some (- ENODEV, a)
      else if ret \<noteq> 0 then Some (ret, sys_do K (Life Module_put) b)
      else Some (ret, c))"
    unfolding vfio_pci_open_def Let_def a prod.case c_def by (simp add: ext(2) b(1))
  moreover have "got \<noteq> 0" if "grants_open K" using that sys_rc_result [OF a] unfolding grants_open_def by metis
  ultimately show ?thesis using b(3) c by auto
qed

section \<open>The last close\<close>

text \<open>What the close needs of a state: a permission table that is not freed and a list of reserved pages.\<close>

definition closable :: "vfio_pci_device \<Rightarrow> bool" where
  "closable s \<longleftrightarrow> msi_perm s \<noteq> Freed \<and> dummy_resources_list s \<noteq> None"

lemma closable_kept: "kept s t \<Longrightarrow> closable s \<Longrightarrow> closable t"
  by (simp add: closable_def kept_def)

lemma closable_frame:
  assumes "irq_frame s t" "closable s"
  shows "closable t"
proof -
  from assms(1) have rest: "irq_rest t = irq_rest s" by (simp add: irq_frame_def)
  show ?thesis using assms(2) arg_cong [OF rest, of msi_perm] arg_cong [OF rest, of dummy_resources_list]
    by (simp add: closable_def irq_rest_def)
qed

lemma closable_ioeventfds: "closable s \<Longrightarrow> closable (release_ioeventfds K s)"
  using closable_frame [OF conjunct1 [OF calls_fold_kcall_do [of s K "\<lambda>e. Evt (Virqfd_disable (Some (ioev_virqfd e)))" "ioeventfds_list s"]]]
  by (simp add: release_ioeventfds_def closable_def)

lemma closable_release:
  assumes "region_setup_law D" "closable s"
  shows "closable (fold (ops_release D) rs s)"
  using assms(2)
proof (induction rs arbitrary: s)
  case (Cons r rs)
  have "closable (ops_release D r s)" using assms(1) closable_kept Cons.prems unfolding region_setup_law_def by blast
  with Cons.IH show ?case by simp
qed simp

text \<open>What the rest of the close leaves alone; \<open>settled\<close> is \<open>kept\<close> without the virtual space and the mappings.\<close>

definition settled :: "vfio_pci_device \<Rightarrow> vfio_pci_device \<Rightarrow> bool" where
  "settled s t \<longleftrightarrow> quiet s t \<and> pdev t = pdev s \<and> extended_caps t = extended_caps s \<and> refcnt t = refcnt s \<and> msi_perm t = msi_perm s \<and>
     ioeventfds_list t = ioeventfds_list s \<and> ioeventfds_nr t = ioeventfds_nr s"

lemma settled_refl [simp]: "settled s s"
  by (simp add: settled_def)

lemma settled_trans: "settled s t \<Longrightarrow> settled t u \<Longrightarrow> settled s u"
  by (simp add: settled_def quiet_def)

lemma settled_kept: "kept s t \<Longrightarrow> settled s t"
  by (simp add: settled_def kept_def)

named_theorems settled

lemma settled_call [settled]:
  assumes "settled z s" "quiet_call c"
  shows "settled z (kcall_do K c s)" "settled z (snd (kcall_rc K c s))" "settled z (snd (kcall K c s))"
  using assms quiet_kcall quiet_kcall_rc quiet_kcall_full by (auto simp: settled_def intro: quiet_trans)

lemma settled_flags [settled]:
  assumes "settled z s"
  shows "settled z (s\<lparr>needs_reset := b\<rparr>)" "settled z (s\<lparr>pci_saved_state := p\<rparr>)" "settled z (s\<lparr>barmap := m\<rparr>)"
    "settled z (s\<lparr>dummy_resources_list := l\<rparr>)" "settled z (s\<lparr>regions := r\<rparr>)" "settled z (s\<lparr>virq_disabled := b\<rparr>)"
  using assms by (simp_all add: settled_def quiet_def)

lemma settled_sys [settled]:
  assumes "settled z (vdev y)" "quiet_call c"
  shows "settled z (vdev (sys_do K c y))" "settled z (vdev (snd (sys_rc K c y)))"
  using assms by (simp_all add: sys_do_def sys_rc_def case_prod_unfold settled)

lemma settled_rc: "sys_rc K c y = (r, y') \<Longrightarrow> settled z (vdev y) \<Longrightarrow> quiet_call c \<Longrightarrow> settled z (vdev y')"
  by (metis settled_sys(2) snd_conv)

lemma settled_clear [settled]: "settled z (vdev y) \<Longrightarrow> settled z (vdev (clear_needs_reset B d y))"
  by (auto simp: clear_needs_reset_def settled split: binding.split)

lemma settled_put_devs [settled]: "settled z (vdev y) \<Longrightarrow> settled z (vdev (put_devs K idle B ret ds y))"
  by (induction ds arbitrary: y) (simp_all add: Let_def settled)

lemma settled_unused:
  "settled z (vdev (snd x)) \<Longrightarrow> vfio_pci_get_unused_devs K B d x = (r, x') \<Longrightarrow> settled z (vdev (snd x'))"
  by (cases x) (auto simp: vfio_pci_get_unused_devs_def Let_def settled split: if_splits binding.splits)

lemma settled_try_reset:
  assumes "settled z (vdev y)"
  shows "settled z (vdev (vfio_pci_try_bus_reset K idle B y))"
proof -
  obtain rc1 a where 1: "sys_rc K (Life Probe_reset_slot) y = (rc1, a)" by fastforce
  then have a: "settled z (vdev a)" by (rule settled_rc [OF _ assms]) simp
  obtain rc2 b where 2: "(if rc1 = 0 then (0, a) else sys_rc K (Life Probe_reset_bus) a) = (rc2, b)" by fastforce
  with a have b: "settled z (vdev b)" by (auto elim: settled_rc split: if_splits)
  obtain n1 n2 where 3: "vfio_pci_for_each_slot_or_bus B vfio_pci_count_devs 0 (rc1 = 0) = (n1, n2)" by fastforce
  obtain p c where 4: "sys_rc K (Mem Alloc) b = (p, c)" by fastforce
  with b have c: "settled z (vdev c)" by (auto elim: settled_rc)
  obtain r devs t where 5: "vfio_pci_for_each_slot_or_bus B (vfio_pci_get_unused_devs K B)
      (\<lparr>devices = [], max_index = n2\<rparr>, c) (rc1 = 0) = (r, devs, t)" by (metis prod_cases3)
  have "settled z (vdev (snd (devs, t)))"
    by (rule walk_bus_keeps [where P = "\<lambda>x. settled z (vdev (snd x))", OF settled_unused 5 [unfolded vfio_pci_for_each_slot_or_bus_def]])
      (use c in simp_all)
  then have t: "settled z (vdev t)" by simp
  obtain ret u where 6: "(if r \<noteq> 0 then (- EINVAL, t)
      else if list_ex (needs_reset_of B t) (devices devs) then sys_rc K (Life Reset_bus) t else (- EINVAL, t)) = (ret, u)" by fastforce
  with t have "settled z (vdev u)" by (auto elim: settled_rc split: if_splits)
  with b c show ?thesis
    unfolding vfio_pci_try_bus_reset_def Let_def 1 prod.case 2 3 4 5 6 by (simp add: settled)
qed

lemma settled_release_bar [settled]: "settled z s \<Longrightarrow> settled z (release_bar K b s)"
  by (simp add: release_bar_def settled split: option.split)

lemma settled_fold: "(\<And>x s. settled z s \<Longrightarrow> settled z (f x s)) \<Longrightarrow> settled z s \<Longrightarrow> settled z (fold f xs s)"
  by (induction xs arbitrary: s) simp_all

lemma settled_dummies: "release_dummies K s = Some t \<Longrightarrow> settled z s \<Longrightarrow> settled z t"
  by (auto simp: release_dummies_def settled intro!: settled_flags settled_fold split: option.splits)

lemma settled_restore [settled]: "settled z s \<Longrightarrow> settled z (restore_device K s)"
  by (simp add: restore_device_def Let_def case_prod_unfold settled)

lemma disable_closes:
  assumes init: "region_setup_law D" and inv: "session_inv T z (vdev y)"
  shows "\<exists>y'. vfio_pci_disable K D B y = Some y' \<and> refcnt (vdev y') = refcnt (vdev y) \<and>
    (\<forall>mem cs es. known K mem cs es (vdev y) \<longrightarrow> closed_device K (vdev y') mem cs es)"
proof -
  define s0 where "s0 = kcall_do K (Life Clear_master) (vdev y)"
  have "session_inv T z s0" unfolding s0_def by (rule session_inv_kept [OF _ inv]) (simp add: kept)
  then have irq: "irq_ok s0" "intx_armed s0" and cl: "closable s0"
    by (simp_all add: session_inv_def base_inv_def config_ok_def closable_def)
  have "irq_data_ok (VFIO_IRQ_SET_DATA_NONE OR VFIO_IRQ_SET_ACTION_TRIGGER) 0 []" by (simp add: irq_data_ok_def)
  from ioctl_defined [OF irq this, of K "irq_type s0" 0] obtain r s1 where
    s1: "vfio_pci_set_irqs_ioctl K (VFIO_IRQ_SET_DATA_NONE OR VFIO_IRQ_SET_ACTION_TRIGGER) (irq_type s0) 0 0 [] s0 = Some (r, s1)" by fast
  have irq1: "irq_ok s1" "intx_armed s1"
    using ioctl_irq_ok [OF irq(1) s1] ioctl_armed [OF irq _ s1] by (simp_all add: arms_intx_def)
  have "irq_rest s1 = irq_rest s0" using frame_ioctl [OF s1] by (simp add: irq_frame_def)
  from arg_cong [OF this, of pdev] arg_cong [OF this, of extended_caps] arg_cong [OF this, of refcnt]
  have dev1: "pdev s1 = pdev (vdev y)" "extended_caps s1 = extended_caps (vdev y)" "refcnt s1 = refcnt (vdev y)"
    by (simp_all add: irq_rest_def s0_def)
  define s2 where "s2 = (release_ioeventfds K s1)\<lparr>virq_disabled := False\<rparr>"
  define s4 where "s4 = (fold (ops_release D) (regions s2) s2)\<lparr>regions := []\<rparr>"
  have "settled s1 (fold (\<lambda>e. kcall_do K (Evt (Virqfd_disable (Some (ioev_virqfd e))))) (ioeventfds_list s1) s1)"
    by (rule settled_fold) (simp_all add: settled)
  then have set2: "settled (s1\<lparr>ioeventfds_list := [], ioeventfds_nr := 0\<rparr>) s2"
    by (simp add: s2_def release_ioeventfds_def settled_def quiet_def)
  have "settled (s1\<lparr>ioeventfds_list := [], ioeventfds_nr := 0\<rparr>) (fold (ops_release D) (regions s2) s2)"
    using init settled_kept settled_trans by (intro settled_fold [OF _ set2]) (meson region_setup_law_def)
  then have set4: "settled (s1\<lparr>ioeventfds_list := [], ioeventfds_nr := 0\<rparr>) s4" unfolding s4_def by (rule settled_flags)
  have "closable (release_ioeventfds K s1)" by (rule closable_ioeventfds [OF closable_frame [OF frame_ioctl [OF s1] cl]])
  then have "closable s2" by (simp add: s2_def closable_def)
  then have "closable s4" using closable_release [OF init, of s2 "regions s2"] by (simp add: s4_def closable_def)
  then obtain s5 where s5: "vfio_config_free s4 = Some s5" "dummy_resources_list s5 \<noteq> None"
    and free: "s5 = s4\<lparr>vconfig := [], pci_config_map := [], msi_perm := NULL\<rparr>"
    by (auto simp: vfio_config_free_def closable_def)
  define s6 where "s6 = fold (release_bar K) [0..<6] s5"
  have set6: "settled s5 s6" unfolding s6_def by (rule settled_fold) (simp_all add: settled)
  have "dummy_resources_list s6 \<noteq> None" using s5(2) release_bars_effect [of s5 K "[0..<6]"] by (simp add: s6_def)
  then obtain s7 where s7: "release_dummies K s6 = Some s7" by (auto simp: release_dummies_def)
  define s9 where "s9 = kcall_do K (Life Disable_device) (restore_device K (s7\<lparr>needs_reset := True\<rparr>))"
  have set9: "settled s5 s9" unfolding s9_def using settled_dummies [OF s7 set6] by (simp add: settled)
  define w where "w = vfio_pci_try_bus_reset K (disable_idle_d3 D) B (y\<lparr>vdev := s9\<rparr>)"
  define y' where "y' = (if \<not> disable_idle_d3 D then sys_do K (Power (Set_power_state PCI_D3hot)) w else w)"
  have "settled s5 (vdev w)" unfolding w_def by (rule settled_try_reset) (simp add: set9)
  then have set': "settled s5 (vdev y')" by (simp add: y'_def settled)
  have run: "vfio_pci_disable K D B y = Some y'"
    unfolding vfio_pci_disable_def Let_def s0_def [symmetric] s1 bind.bind_lunit prod.case s2_def [symmetric]
      s4_def [symmetric] s5(1) s6_def [symmetric] s7 s9_def [symmetric] w_def [symmetric] y'_def [symmetric] by simp
  have "quiet s1 (vdev y')" "msi_perm (vdev y') = NULL" "ioeventfds_list (vdev y') = []" "ioeventfds_nr (vdev y') = 0"
    and dev: "pdev (vdev y') = pdev (vdev y)" "extended_caps (vdev y') = extended_caps (vdev y)" "refcnt (vdev y') = refcnt (vdev y)"
    using set' set4 dev1 by (simp_all add: settled_def free quiet_def)
  moreover from this have "irq_ok (vdev y')" "intx_armed (vdev y')" using irq1 quiet_ok quiet_intx_armed by blast+
  ultimately show ?thesis using run by (auto simp: closed_device_def known_def openable_def)
qed

lemma session_anchor: "session_inv T z s \<Longrightarrow> z = (pdev s, extended_caps s, refcnt s)"
  by (simp add: session_inv_def base_inv_def)

text \<open>A close: one user less, and with the last one the device is closed.\<close>

lemma release_session:
  assumes init: "region_setup_law D" and inv: "session_inv T (d, e, n) (vdev y)"
  shows "\<exists>y'. vfio_pci_release K D B y = Some y' \<and> refcnt (vdev y') = n - 1 \<and>
    (n \<noteq> 1 \<longrightarrow> session_inv T (d, e, n - 1) (vdev y') \<and> (\<forall>mem cs es. known K mem cs es (vdev y) \<longrightarrow> known K mem cs es (vdev y'))) \<and>
    (n = 1 \<longrightarrow> (\<forall>mem cs es. known K mem cs es (vdev y) \<longrightarrow> closed_device K (vdev y') mem cs es))"
proof -
  have n: "refcnt (vdev y) = n" using session_anchor [OF inv] by simp
  define a where "a = on_vdev (\<lambda>s. s\<lparr>refcnt := refcnt s - 1\<rparr>) y"
  have a: "session_inv T (d, e, n - 1) (vdev a)" "refcnt (vdev a) = n - 1" "known K mem cs es (vdev a) = known K mem cs es (vdev y)" for mem cs es
    using session_inv_refcnt [OF inv, of "n - 1"] n by (simp_all add: a_def on_vdev_def known_def openable_def)
  have put: "kept (vdev x) (vdev (sys_do K (Life Module_put) x))" for x by (simp add: kept)
  show ?thesis
  proof (cases "n = 1")
    case False
    have "vfio_pci_release K D B y = Some (sys_do K (Life Module_put) a)"
      using False a(2) by (simp add: vfio_pci_release_def Let_def a_def)
    moreover have "known K mem cs es (vdev (sys_do K (Life Module_put) a)) = known K mem cs es (vdev a)" for mem cs es
      by (simp add: known_def openable_def sys_do_def)
    ultimately show ?thesis using False a session_inv_kept [OF put a(1)] by (auto dest: session_anchor)
  next
    case True
    have inv_b: "session_inv T (d, e, n - 1) (vdev (sys_do K (Life Eeh_release) a))"
      by (rule session_inv_kept [OF _ a(1)]) (simp add: kept)
    obtain b where b: "vfio_pci_disable K D B (sys_do K (Life Eeh_release) a) = Some b" "refcnt (vdev b) = n - 1"
      "\<forall>mem cs es. known K mem cs es (vdev (sys_do K (Life Eeh_release) a)) \<longrightarrow> closed_device K (vdev b) mem cs es"
      using disable_closes [OF init inv_b, of K B] a(2) by (auto simp: sys_do_def)
    have "vfio_pci_release K D B y = Some (sys_do K (Life Module_put) b)"
      using True a(2) b(1) by (simp add: vfio_pci_release_def Let_def a_def)
    moreover have "closed_device K (vdev (sys_do K (Life Module_put) b)) mem cs es" if "known K mem cs es (vdev y)" for mem cs es
    proof (rule closed_device_kept [OF _ put])
      show "closed_device K (vdev b) mem cs es" using b(3) that a(3) by (simp add: known_def openable_def sys_do_def)
    qed (simp add: sys_do_def)
    moreover have "refcnt (vdev (sys_do K (Life Module_put) b)) = n - 1" using b(2) by (simp add: sys_do_def)
    ultimately show ?thesis using True by blast
  qed
qed

section \<open>The life of a device\<close>

text \<open>
  Any number of users open the device, use it and close it. The first open may fail; such a device is not used any more,
  because its MSI permission table may be one that was freed. The second component of the state says so.
\<close>

datatype life_op = Open | Close | Request request

fun life_step :: "kernel \<Rightarrow> driver \<Rightarrow> bus \<Rightarrow> life_op \<Rightarrow> system \<times> bool \<Rightarrow> (system \<times> bool) option" where
  "life_step K D B x (y, True) = Some (y, True)"
| "life_step K D B Open (y, False) =
     map_option (\<lambda>(ret, y'). (y', ret \<noteq> 0 \<and> refcnt (vdev y) = 0)) (vfio_pci_open K D B y)"
| "life_step K D B Close (y, False) =
     (if refcnt (vdev y) = 0 then Some (y, False) else map_option (\<lambda>y. (y, False)) (vfio_pci_release K D B y))"
| "life_step K D B (Request r) (y, False) =
     (if refcnt (vdev y) = 0 then Some (y, False) else map_option (\<lambda>y. (y, False)) (session_step K D ready_tables B r y))"

definition in_use :: "kernel \<Rightarrow> (nat \<rightharpoonup> u8) \<Rightarrow> extent list \<Rightarrow> extent list \<Rightarrow> vfio_pci_device \<Rightarrow> bool" where
  "in_use K mem cs es s \<longleftrightarrow> (\<exists>d e n. 0 < n \<and> session_inv ready_tables (d, e, n) s) \<and> known K mem cs es s"

fun life_inv :: "kernel \<Rightarrow> (nat \<rightharpoonup> u8) \<Rightarrow> extent list \<Rightarrow> extent list \<Rightarrow> system \<times> bool \<Rightarrow> bool" where
  "life_inv K mem cs es (y, True) = (\<not> grants_open K)"
| "life_inv K mem cs es (y, False) =
     (if refcnt (vdev y) = 0 then closed_device K (vdev y) mem cs es else in_use K mem cs es (vdev y))"

lemma in_useI: "session_inv ready_tables (d, e, n) s \<Longrightarrow> known K mem cs es s \<Longrightarrow> 0 < n \<Longrightarrow> in_use K mem cs es s"
  unfolding in_use_def by blast

lemma in_use_open: "in_use K mem cs es s \<Longrightarrow> 0 < refcnt s"
  by (auto simp: in_use_def dest: session_anchor)

text \<open>One more user of a device in use.\<close>

lemma reopen:
  assumes use: "in_use K mem cs es (vdev y)"
  shows "\<exists>ret y'. vfio_pci_open K D B y = Some (ret, y') \<and> in_use K mem cs es (vdev y')"
proof -
  obtain d e n where n: "0 < n" "session_inv ready_tables (d, e, n) (vdev y)" using use by (auto simp: in_use_def)
  then have r: "refcnt (vdev y) = n" by (auto dest: session_anchor)
  obtain got a where a: "sys_rc K (Life Module_get) y = (got, a)" by fastforce
  have k: "kept (vdev y) (vdev a)" using kept_sys(2) [of "vdev y" y "Life Module_get" K] a by simp
  have ra: "refcnt (vdev a) = n" using a r by (auto simp: sys_rc_def kcall_rc_Pair)
  have inv: "session_inv ready_tables (d, e, n) (vdev a)" by (rule session_inv_kept [OF k n(2)])
  have know: "known K mem cs es (vdev a)" using use a by (auto simp: in_use_def known_def openable_def sys_rc_def kcall_rc_Pair)
  define b where "b = on_vdev (\<lambda>s. s\<lparr>refcnt := refcnt s + 1\<rparr>) a"
  have "session_inv ready_tables (d, e, n + 1) (vdev b)"
    using session_inv_refcnt [OF inv, of "n + 1"] ra by (simp add: b_def on_vdev_def)
  moreover have "known K mem cs es (vdev b)" using know by (simp add: b_def on_vdev_def known_def openable_def)
  ultimately have "in_use K mem cs es (vdev b)" by (rule in_useI) (use n(1) in simp)
  moreover have "in_use K mem cs es (vdev a)" by (rule in_useI [OF inv know n(1)])
  moreover have "vfio_pci_open K D B y = (if got = 0 then Some (- ENODEV, a) else Some (0, b))"
    using n(1) unfolding vfio_pci_open_def Let_def a prod.case by (simp add: ra b_def)
  ultimately show ?thesis by auto
qed

lemma life_step_total:
  assumes laws: "session_laws K D" "region_setup_law D" and inv: "life_inv K mem cs es st"
  shows "\<exists>st'. life_step K D B x st = Some st' \<and> life_inv K mem cs es st'"
proof -
  obtain y dead where st: "st = (y, dead)" by fastforce
  show ?thesis
  proof (cases dead)
    case True
    with inv st show ?thesis by simp
  next
    case alive: False
    show ?thesis
    proof (cases "refcnt (vdev y) = 0")
      case closed: True
      with inv st alive have c: "closed_device K (vdev y) mem cs es" by simp
      show ?thesis
      proof (cases x)
        case Open
        obtain ret y' where o: "vfio_pci_open K D B y = Some (ret, y')" "grants_open K \<longrightarrow> ret = 0"
          "ret = 0 \<longrightarrow> (\<exists>d e. session_inv ready_tables (d, e, 1) (vdev y')) \<and> known K mem cs es (vdev y')"
          using open_session [OF laws(2) c closed, of B] by metis
        have "in_use K mem cs es (vdev y')" if "ret = 0"
        proof -
          from that o(3) obtain d e where "session_inv ready_tables (d, e, 1) (vdev y')" "known K mem cs es (vdev y')" by blast
          then show ?thesis by (rule in_useI) simp
        qed
        then show ?thesis using o(1,2) Open closed st alive in_use_open [of K mem cs es "vdev y'"]
          by (cases "ret = 0") auto
      qed (use inv st alive closed in simp_all)
    next
      case used: False
      with inv st alive have use: "in_use K mem cs es (vdev y)" by simp
      then obtain d e n where n: "0 < n" "session_inv ready_tables (d, e, n) (vdev y)" "known K mem cs es (vdev y)"
        unfolding in_use_def by blast
      show ?thesis
      proof (cases x)
        case Open
        obtain ret y' where "vfio_pci_open K D B y = Some (ret, y')" "in_use K mem cs es (vdev y')" using reopen [OF use] by blast
        with Open used st alive in_use_open [of K mem cs es "vdev y'"] show ?thesis by simp
      next
        case Close
        obtain y' where c: "vfio_pci_release K D B y = Some y'" "refcnt (vdev y') = n - 1"
          "n \<noteq> 1 \<longrightarrow> session_inv ready_tables (d, e, n - 1) (vdev y') \<and> known K mem cs es (vdev y')"
          "n = 1 \<longrightarrow> closed_device K (vdev y') mem cs es"
          using release_session [OF laws(2) n(2), of K B] n(3) by blast
        have "in_use K mem cs es (vdev y')" if "n \<noteq> 1"
          using in_useI [of d e "n - 1"] that c(3) n(1) by simp
        with c Close used st alive show ?thesis by (cases "n = 1") auto
      next
        case (Request r)
        obtain y' where y': "session_step K D ready_tables B r y = Some y'" "session_inv ready_tables (d, e, n) (vdev y')"
          using session_step_total [OF laws(1) n(2)] by blast
        then have "pdev (vdev y') = pdev (vdev y)" "extended_caps (vdev y') = extended_caps (vdev y)"
          using session_anchor [OF n(2)] session_anchor [OF y'(2)] by simp_all
        then have "known K mem cs es (vdev y')" using n(3) by (simp add: known_def openable_def)
        then have "in_use K mem cs es (vdev y')" by (rule in_useI [OF y'(2) _ n(1)])
        with y'(1) Request used st alive in_use_open [of K mem cs es "vdev y'"] show ?thesis by simp
      qed
    qed
  qed
qed

interpretation life_machine: safe_under "life_step K D B" "\<lambda>_. True" "\<lambda>st. session_laws K D \<and> region_setup_law D \<and> life_inv K mem cs es st"
  for K D B mem cs es
proof (unfold_locales, goal_cases)
  case (1 st x st')
  then show ?case using life_step_total [of K D mem cs es st B x] by auto
next
  case (2 st x)
  then show ?case using life_step_total [of K D mem cs es st B x] by auto
qed

end
