(* ===== verification/Session_Sample.thy ===== *)
theory Session_Sample
  imports Session_Life
begin

text \<open>
  The device of \<^verbatim>\<open>Config_Open_Props\<close>: two users open it, one writes all ones to the first BAR and asks for
  an eventfd-bound write, an interrupt arrives, both close the device, and it is opened again.
\<close>

definition life_driver :: driver where
  "life_driver = sample_driver\<lparr>vfio_pci_nvdia_v100_nvlink2_init := \<lambda>s. (- ENODEV, s)\<rparr>"

definition life_system :: system where
  "life_system = sample_system\<lparr>vdev := open_device\<rparr>"

definition life_ops :: "life_op list" where
  "life_ops = [Open, Open, Request (User_store 64 [0xff, 0xff, 0xff, 0xff]), Request (Write_at 64 4 (7 * 2 ^ 40 + 0x10)),
     Request (Ioctl VFIO_DEVICE_IOEVENTFD 64), Request (Event (Msi_fires 0)), Close, Close, Open]"

lemma life_laws: "session_laws open_kernel life_driver" "region_setup_law life_driver" "grants_open open_kernel"
proof -
  have "user_cfg_law open_kernel"
    using sample_kernel_laws(1) [of "[]"] by (simp add: user_cfg_law_def open_kernel_def sample_kernel_def)
  moreover have "irq_validate_law open_kernel"
  proof -
    have "unat (4 * ucast n :: u64) = 4 * unat n" for n :: u32
    proof -
      have "unat n < 2 ^ 32" using unsigned_less [of n, where ?'a = nat] by simp
      then show ?thesis by (simp add: unat_word_ariths unsigned_ucast_eq take_bit_nat_eq_self)
    qed
    then show ?thesis by (auto simp: irq_validate_law_def open_kernel_def)
  qed
  moreover have "region_ops_law life_driver" by (simp add: region_ops_law_def life_driver_def sample_driver_def)
  ultimately show "session_laws open_kernel life_driver" by (simp add: session_laws_def)
  show "region_setup_law life_driver" by (auto simp: region_setup_law_def life_driver_def sample_driver_def)
  show "grants_open open_kernel" using open_reliable by (simp add: grants_open_def open_kernel_def sample_kernel_def)
qed

lemma life_closed: "closed_device open_kernel (vdev life_system) (\<lambda>p. Some (open_byte p)) open_caps open_ecaps"
  using open_device_openable open_device_irqs
  by (simp add: closed_device_def life_system_def open_device_def sample_device_def)

end
